(* ===== verification/Fetchit_Prelude.thy ===== *)
theory Fetchit_Prelude
  imports Main "HOL-Library.AList" "HOL-Library.Word"
begin

text \<open>
  Shared vocabulary of the fetchit development: the Rust integer bounds and the saturating
  operations the code calls, byte strings, the model of \<^verbatim>\<open>std::collections::HashMap\<close>
  (also used for \<^verbatim>\<open>DashMap\<close> and, with sorted keys, for \<^verbatim>\<open>BTreeMap\<close>), a decimal printer
  for \<^verbatim>\<open>format!\<close>, and two locales that the components share: the contract of a keyed store
  and the induction principle for a sequence of operations.
\<close>

named_theorems hm_simps \<open>lookup laws of the hash map model\<close>
named_theorems sat_simps \<open>unfolding of the saturating operations\<close>

subsection \<open>Integers and bytes\<close>

text \<open>
  An unsigned machine integer is a natural number; where the code can overflow, the model
  writes the saturation or the wrap-around out. Saturating subtraction is subtraction on
  natural numbers.
\<close>

type_synonym bytes = "8 word list"

abbreviation u32_max :: nat where "u32_max \<equiv> 2 ^ 32 - 1"
abbreviation u64_max :: nat where "u64_max \<equiv> 2 ^ 64 - 1"

definition u32_sat_add :: "nat \<Rightarrow> nat \<Rightarrow> nat" where
  "u32_sat_add a b = min (a + b) u32_max"

definition u64_sat_add :: "nat \<Rightarrow> nat \<Rightarrow> nat" where
  "u64_sat_add a b = min (a + b) u64_max"

text \<open>\<^verbatim>\<open>fetch_add\<close> and \<^verbatim>\<open>fetch_sub\<close> of an \<^verbatim>\<open>AtomicU64\<close> or an \<^verbatim>\<open>AtomicUsize\<close> wrap around.\<close>

definition u64_wrap_add :: "nat \<Rightarrow> nat \<Rightarrow> nat" where
  "u64_wrap_add a b = (a + b) mod 2 ^ 64"

definition u64_wrap_sub :: "nat \<Rightarrow> nat \<Rightarrow> nat" where
  "u64_wrap_sub a b = (a + (2 ^ 64 - b mod 2 ^ 64)) mod 2 ^ 64"

definition u64_sat_mul :: "nat \<Rightarrow> nat \<Rightarrow> nat" where
  "u64_sat_mul a b = min (a * b) u64_max"

text \<open>The bytes of an ASCII literal such as \<^verbatim>\<open>b"FCV1"\<close>.\<close>

definition ascii :: "string \<Rightarrow> bytes" where
  "ascii s = map of_char s"

lemma length_ascii [simp]: "length (ascii s) = length s"
  by (simp add: ascii_def)

lemmas [sat_simps] = u32_sat_add_def u64_sat_add_def u64_sat_mul_def

lemma u64_sat_add_le [simp]: "u64_sat_add a b \<le> u64_max"
  by (simp add: sat_simps)

lemma u64_sat_add_exact [simp]: "a + b \<le> u64_max \<Longrightarrow> u64_sat_add a b = a + b"
  by (simp add: sat_simps)

lemma u64_wrap_sub_exact [simp]:
  assumes "b \<le> a" and "a < 2 ^ 64"
  shows "u64_wrap_sub a b = a - b"
proof -
  have "a + (2 ^ 64 - b) = (a - b) + 2 ^ 64" using assms by simp
  then have "(a + (2 ^ 64 - b)) mod 2 ^ 64 = (a - b) mod 2 ^ 64" by (metis mod_add_self2)
  then show ?thesis using assms by (simp add: u64_wrap_sub_def)
qed

lemma u64_wrap_add_exact [simp]: "a + b < 2 ^ 64 \<Longrightarrow> u64_wrap_add a b = a + b"
  by (simp add: u64_wrap_add_def)

lemma u64_sat_add_mono: "a \<le> a' \<Longrightarrow> b \<le> b' \<Longrightarrow> u64_sat_add a b \<le> u64_sat_add a' b'"
  by (auto simp: sat_simps)

subsection \<open>Results\<close>

text \<open>A fallible function returns a sum, the error on the left; \<^term>\<open>and_then\<close> is the \<^verbatim>\<open>?\<close> operator.\<close>

definition and_then :: "'e + 'a \<Rightarrow> ('a \<Rightarrow> 'e + 'b) \<Rightarrow> 'e + 'b" where
  "and_then r k = (case r of Inl e \<Rightarrow> Inl e | Inr v \<Rightarrow> k v)"

lemma and_then_simps [simp]: "and_then (Inl e) k = Inl e" "and_then (Inr v) k = k v"
  by (simp_all add: and_then_def)

lemma and_then_Inr_iff: "and_then r k = Inr b \<longleftrightarrow> (\<exists>a. r = Inr a \<and> k a = Inr b)"
  by (cases r) simp_all

lemma and_then_Inl_iff: "and_then r k = Inl e \<longleftrightarrow> r = Inl e \<or> (\<exists>a. r = Inr a \<and> k a = Inl e)"
  by (cases r) simp_all

subsection \<open>Decimal printing\<close>

text \<open>\<^verbatim>\<open>format!("{n}")\<close> of an unsigned integer.\<close>

fun show_nat :: "nat \<Rightarrow> string" where
  "show_nat n =
     (if n < 10 then [char_of (48 + n)] else show_nat (n div 10) @ [char_of (48 + n mod 10)])"

declare show_nat.simps [simp del]

lemma show_nat_nonempty [simp]: "show_nat n \<noteq> []"
  by (subst show_nat.simps) simp

subsection \<open>Hash maps\<close>

text \<open>
  A \<^verbatim>\<open>HashMap\<close> is an association list with distinct keys. The order of the list stands for
  the (unspecified) iteration order: the lemmas below hold for every list, hence for every
  order. \<^verbatim>\<open>insert\<close> replaces the value of a present key, \<^verbatim>\<open>retain\<close> keeps the entries that
  satisfy a predicate.
\<close>

type_synonym ('k, 'v) hmap = "('k \<times> 'v) list"

abbreviation hm_empty :: "('k, 'v) hmap" where "hm_empty \<equiv> []"

definition hm_wf :: "('k, 'v) hmap \<Rightarrow> bool" where
  "hm_wf m \<longleftrightarrow> distinct (map fst m)"

definition hm_get :: "('k, 'v) hmap \<Rightarrow> 'k \<Rightarrow> 'v option" where
  "hm_get m k = map_of m k"

definition hm_contains :: "('k, 'v) hmap \<Rightarrow> 'k \<Rightarrow> bool" where
  "hm_contains m k \<longleftrightarrow> hm_get m k \<noteq> None"

definition hm_insert :: "'k \<Rightarrow> 'v \<Rightarrow> ('k, 'v) hmap \<Rightarrow> ('k, 'v) hmap" where
  "hm_insert k v m = AList.update k v m"

definition hm_remove :: "'k \<Rightarrow> ('k, 'v) hmap \<Rightarrow> ('k, 'v) hmap" where
  "hm_remove k m = AList.delete k m"

definition hm_retain :: "('k \<Rightarrow> 'v \<Rightarrow> bool) \<Rightarrow> ('k, 'v) hmap \<Rightarrow> ('k, 'v) hmap" where
  "hm_retain P m = filter (\<lambda>(k, v). P k v) m"

definition hm_values :: "('k, 'v) hmap \<Rightarrow> 'v list" where
  "hm_values m = map snd m"

definition hm_map_values :: "('v \<Rightarrow> 'v) \<Rightarrow> ('k, 'v) hmap \<Rightarrow> ('k, 'v) hmap" where
  "hm_map_values f m = map (\<lambda>(k, v). (k, f v)) m"

lemma hm_wf_empty [simp, intro]: "hm_wf hm_empty"
  by (simp add: hm_wf_def)

lemma hm_wf_insert [simp, intro]: "hm_wf m \<Longrightarrow> hm_wf (hm_insert k v m)"
  by (simp add: hm_wf_def hm_insert_def distinct_update)

lemma hm_wf_remove [simp, intro]: "hm_wf m \<Longrightarrow> hm_wf (hm_remove k m)"
  by (simp add: hm_wf_def hm_remove_def distinct_delete)

lemma hm_wf_retain [simp, intro]: "hm_wf m \<Longrightarrow> hm_wf (hm_retain P m)"
  unfolding hm_wf_def hm_retain_def by (rule distinct_map_filter)

lemma hm_wf_map_values [simp]: "hm_wf (hm_map_values f m) = hm_wf m"
  by (simp add: hm_wf_def hm_map_values_def comp_def case_prod_beta)

lemma hm_get_empty [hm_simps, simp]: "hm_get hm_empty k = None"
  by (simp add: hm_get_def)

lemma hm_get_insert [hm_simps]: "hm_get (hm_insert k v m) k' = (if k' = k then Some v else hm_get m k')"
  by (simp add: hm_get_def hm_insert_def update_conv')

lemma hm_get_remove [hm_simps]: "hm_get (hm_remove k m) k' = (if k' = k then None else hm_get m k')"
  by (simp add: hm_get_def hm_remove_def delete_conv')

lemma hm_get_map_values [hm_simps]: "hm_get (hm_map_values f m) k = map_option f (hm_get m k)"
  by (induction m) (auto simp: hm_get_def hm_map_values_def)

lemma hm_get_in_set: "hm_get m k = Some v \<Longrightarrow> (k, v) \<in> set m"
  by (simp add: hm_get_def map_of_SomeD)

lemma hm_get_iff: "hm_wf m \<Longrightarrow> hm_get m k = Some v \<longleftrightarrow> (k, v) \<in> set m"
  by (simp add: hm_wf_def hm_get_def)

lemma hm_get_None_iff: "hm_get m k = None \<longleftrightarrow> k \<notin> fst ` set m"
  by (simp add: hm_get_def map_of_eq_None_iff)

lemma hm_get_retain [hm_simps]:
  assumes "hm_wf m"
  shows "hm_get (hm_retain P m) k =
    (case hm_get m k of None \<Rightarrow> None | Some v \<Rightarrow> if P k v then Some v else None)"
proof (cases "hm_get m k")
  case None
  then have "k \<notin> fst ` set (hm_retain P m)"
    by (auto simp: hm_get_None_iff hm_retain_def image_iff)
  then have "hm_get (hm_retain P m) k = None" by (simp add: hm_get_None_iff)
  then show ?thesis using None by simp
next
  case (Some v)
  have uniq: "v' = v" if "(k, v') \<in> set m" for v'
    using that Some assms by (metis hm_get_iff option.inject)
  have wf: "hm_wf (hm_retain P m)" using assms by (rule hm_wf_retain)
  show ?thesis
  proof (cases "P k v")
    case True
    with Some have "(k, v) \<in> set (hm_retain P m)"
      by (auto simp: hm_retain_def dest: hm_get_in_set)
    then have "hm_get (hm_retain P m) k = Some v" using wf by (simp add: hm_get_iff)
    then show ?thesis using Some True by simp
  next
    case False
    then have "k \<notin> fst ` set (hm_retain P m)" by (auto simp: hm_retain_def dest: uniq)
    then have "hm_get (hm_retain P m) k = None" by (simp add: hm_get_None_iff)
    then show ?thesis using Some False by simp
  qed
qed

lemma hm_values_iff: "hm_wf m \<Longrightarrow> v \<in> set (hm_values m) \<longleftrightarrow> (\<exists>k. hm_get m k = Some v)"
  by (force simp: hm_values_def hm_get_iff)

lemma hm_get_value: "hm_get m k = Some v \<Longrightarrow> v \<in> set (hm_values m)"
  by (force simp: hm_values_def dest: hm_get_in_set)

lemma set_hm_insert: "set (hm_insert k v m) \<subseteq> insert (k, v) (set m)"
  unfolding hm_insert_def by (induction m) auto

lemma set_hm_remove: "set (hm_remove k m) = {(k', v) \<in> set m. k' \<noteq> k}"
  by (auto simp: hm_remove_def AList.delete_eq)

text \<open>How many values satisfy a predicate.\<close>

definition hm_count :: "('v \<Rightarrow> bool) \<Rightarrow> ('k, 'v) hmap \<Rightarrow> nat" where
  "hm_count P m = length (filter P (hm_values m))"

lemma hm_count_empty [simp]: "hm_count P hm_empty = 0"
  by (simp add: hm_count_def hm_values_def)

lemma hm_count_insert_le: "hm_count P (hm_insert k v m) \<le> hm_count P m + (if P v then 1 else 0)"
  unfolding hm_count_def hm_values_def hm_insert_def by (induction m) auto

lemma hm_count_insert_keep:
  "hm_get m k = Some v0 \<Longrightarrow> (P v \<Longrightarrow> P v0) \<Longrightarrow> hm_count P (hm_insert k v m) \<le> hm_count P m"
  unfolding hm_count_def hm_values_def hm_insert_def hm_get_def
  by (induction m) (auto split: if_splits)

lemma hm_count_remove_le: "hm_count P (hm_remove k m) \<le> hm_count P m"
  unfolding hm_count_def hm_values_def hm_remove_def AList.delete_eq
  by (induction m) (auto simp: le_Suc_eq)

lemma hm_count_fold_remove_le: "hm_count P (fold hm_remove ks m) \<le> hm_count P m"
  by (induction ks arbitrary: m) (auto intro: order_trans hm_count_remove_le)

text \<open>The sum of a measure over the values, as a byte budget accounts for them.\<close>

definition hm_sum :: "('v \<Rightarrow> nat) \<Rightarrow> ('k, 'v) hmap \<Rightarrow> nat" where
  "hm_sum f m = sum_list (map f (hm_values m))"

lemma hm_sum_empty [simp]: "hm_sum f hm_empty = 0"
  by (simp add: hm_sum_def hm_values_def)

lemma hm_sum_get_le: "hm_get m k = Some v \<Longrightarrow> f v \<le> hm_sum f m"
  unfolding hm_sum_def by (rule member_le_sum_list) (simp_all add: hm_get_value)

lemma hm_sum_insert_new: "hm_get m k = None \<Longrightarrow> hm_sum f (hm_insert k v m) = hm_sum f m + f v"
  unfolding hm_sum_def hm_values_def hm_insert_def hm_get_def
  by (induction m) (auto split: if_splits)

lemma hm_sum_insert_old:
  "hm_get m k = Some v0 \<Longrightarrow> hm_sum f (hm_insert k v m) + f v0 = hm_sum f m + f v"
  unfolding hm_sum_def hm_values_def hm_insert_def hm_get_def
  by (induction m) (auto split: if_splits)

lemma hm_sum_map_values: "hm_sum f (hm_map_values g m) = hm_sum (f \<circ> g) m"
  unfolding hm_sum_def hm_values_def hm_map_values_def by (induction m) auto

lemma hm_sum_retain: "(\<And>k v. \<not> P k v \<Longrightarrow> f v = 0) \<Longrightarrow> hm_sum f (hm_retain P m) = hm_sum f m"
  unfolding hm_sum_def hm_values_def hm_retain_def by (induction m) auto

subsection \<open>The contract of a keyed store\<close>

text \<open>
  What every stateful component relies on: lookup after insertion, removal and retention, and
  the invariant each of them keeps. The laws are discharged once, for the hash map model.
\<close>

locale keyed_store =
  fixes empty :: 'm
    and get :: "'m \<Rightarrow> 'k \<Rightarrow> 'v option"
    and put :: "'k \<Rightarrow> 'v \<Rightarrow> 'm \<Rightarrow> 'm"
    and remove :: "'k \<Rightarrow> 'm \<Rightarrow> 'm"
    and wf :: "'m \<Rightarrow> bool"
  assumes get_empty: "get empty k = None"
    and get_put: "wf m \<Longrightarrow> get (put k v m) k' = (if k' = k then Some v else get m k')"
    and get_remove: "wf m \<Longrightarrow> get (remove k m) k' = (if k' = k then None else get m k')"
    and wf_empty: "wf empty"
    and wf_put: "wf m \<Longrightarrow> wf (put k v m)"
    and wf_remove: "wf m \<Longrightarrow> wf (remove k m)"
begin

lemma wf_fold_remove: "wf m \<Longrightarrow> wf (fold remove ks m)"
  by (induction ks arbitrary: m) (auto simp: wf_remove)

lemma get_fold_remove: "wf m \<Longrightarrow> get (fold remove ks m) k = (if k \<in> set ks then None else get m k)"
  by (induction ks arbitrary: m) (auto simp: wf_remove get_remove)

lemma wf_fold_put: "wf m \<Longrightarrow> wf (fold (\<lambda>k. put k (f k)) ks m)"
  by (induction ks arbitrary: m) (auto simp: wf_put)

lemma get_fold_put:
  "wf m \<Longrightarrow> get (fold (\<lambda>k. put k (f k)) ks m) k = (if k \<in> set ks then Some (f k) else get m k)"
  by (induction ks arbitrary: m) (auto simp: wf_put get_put)

lemma put_all_P:
  assumes "wf m" and "\<And>k v. get m k = Some v \<Longrightarrow> P k v" and "P k0 v0"
  shows "get (put k0 v0 m) k = Some v \<Longrightarrow> P k v"
  using assms by (auto simp: get_put split: if_splits)

end

interpretation hm: keyed_store hm_empty hm_get hm_insert hm_remove hm_wf
  by unfold_locales (auto simp: hm_simps)

subsection \<open>Sequences of operations\<close>

text \<open>
  A component is run by a sequence of operations. A property that one operation keeps is kept
  by every sequence of them, and a measure that no operation lowers is never lowered.
\<close>

locale invariant_system =
  fixes step :: "'s \<Rightarrow> 'op \<Rightarrow> 's"
    and ok :: "'op \<Rightarrow> bool"
    and inv :: "'s \<Rightarrow> bool"
  assumes step_inv: "inv s \<Longrightarrow> ok x \<Longrightarrow> inv (step s x)"
begin

lemma run_inv: "inv s \<Longrightarrow> list_all ok xs \<Longrightarrow> inv (foldl step s xs)"
  by (induction xs arbitrary: s) (auto simp: step_inv)

end

locale monotone_system = invariant_system +
  fixes below :: "'s \<Rightarrow> 's \<Rightarrow> bool"
  assumes below_refl: "below s s"
    and below_trans: "below s t \<Longrightarrow> below t u \<Longrightarrow> below s u"
    and step_below: "inv s \<Longrightarrow> ok x \<Longrightarrow> below s (step s x)"
begin

lemma run_below: "inv s \<Longrightarrow> list_all ok xs \<Longrightarrow> below s (foldl step s xs)"
proof (induction xs arbitrary: s)
  case Nil
  show ?case by (simp add: below_refl)
next
  case (Cons x xs)
  have "below s (step s x)" using Cons.prems by (simp add: step_below)
  moreover have "below (step s x) (foldl step (step s x) xs)"
    using Cons.prems by (intro Cons.IH) (auto simp: step_inv)
  ultimately show ?case by (auto intro: below_trans)
qed

end

end
