(* ===== verification/Send_State.thy ===== *)
theory Send_State
  imports Fetchit_Prelude
begin

text \<open>
  The send-state machine of one outbound message (\<^verbatim>\<open>fetchit-chat/src/send_state.rs\<close>) and the
  error type it classifies (\<^verbatim>\<open>fetchit-chat/src/error.rs\<close>). \<open>send_state\<close> is ordered as the
  derived \<^verbatim>\<open>Ord\<close> of the source orders its variants: by how far the message got.
\<close>

subsection \<open>Errors of the chat client\<close>

text \<open>
  An error that wraps one of another library (\<^verbatim>\<open>reqwest\<close>, \<^verbatim>\<open>serde_json\<close>, \<^verbatim>\<open>std::io\<close>) carries the
  text that error displays, the only part of it the client reads.
\<close>

datatype chat_error =
    NotDiscoverable string
  | Transport string
  | WebSocket string
  | Daemon nat string
  | Decode string
  | Invalid string
  | Io string
  | NoTransportAvailable
  | MessageTransport string
  | IdentityNotInitialised string
  | SealedRequired string
  | ShareCardMissing string
  | BridgeNeedsConsent string
  | BridgeDeclined string
  | Denied string
  | DeniedActor string
  | JoinerNotConverged string nat
  | AllRelaysUnreachable string
  | OutboxAttachmentsFull nat nat

text \<open>The em dash of the messages, in UTF-8.\<close>

definition em_dash :: string where
  "em_dash = [CHR 0xE2, CHR 0x80, CHR 0x94]"

fun chat_error_display :: "chat_error \<Rightarrow> string" where
  "chat_error_display (NotDiscoverable s) = ''x0xd not discoverable: '' @ s"
| "chat_error_display (Transport s) = ''transport: '' @ s"
| "chat_error_display (WebSocket s) = ''websocket: '' @ s"
| "chat_error_display (Daemon status body) =
     ''daemon returned '' @ show_nat status @ '': '' @ body"
| "chat_error_display (Decode s) = ''decode: '' @ s"
| "chat_error_display (Invalid s) = ''invalid input: '' @ s"
| "chat_error_display (Io s) = ''io: '' @ s"
| "chat_error_display NoTransportAvailable = ''no transport available for recipient''"
| "chat_error_display (MessageTransport s) = ''message transport: '' @ s"
| "chat_error_display (IdentityNotInitialised path) =
     ''chat identity not initialised at '' @ path"
| "chat_error_display (SealedRequired caller) =
     ''sealed envelope required: '' @ caller @ '' did not supply a prebuilt sealed envelope''"
| "chat_error_display (ShareCardMissing a) =
     ''no stored share-card for '' @ a @ '' '' @ em_dash
     @ '' exchange contact cards before adding them to a private group''"
| "chat_error_display (BridgeNeedsConsent g) =
     ''bridge consent not yet requested for group '' @ g @ '' '' @ em_dash
     @ '' desktop UI surfaces the consent modal''"
| "chat_error_display (BridgeDeclined g) =
     ''bridge declined for group '' @ g @ '' '' @ em_dash
     @ '' metadata event dropped, peer unreachable via direct gossip''"
| "chat_error_display (Denied a) =
     ''recipient '' @ a @ '' is on the community denylist '' @ em_dash @ '' send refused''"
| "chat_error_display (DeniedActor u) =
     ''actor '' @ u @ '' is on the community denylist '' @ em_dash @ '' publish refused''"
| "chat_error_display (JoinerNotConverged g ms) =
     ''joiner did not converge into /groups/'' @ g @ ''/members within '' @ show_nat ms @ ''ms''"
| "chat_error_display (AllRelaysUnreachable r) =
     ''all known relays for '' @ r @ '' are unreachable''"
| "chat_error_display (OutboxAttachmentsFull retained cap) =
     show_nat retained @ '' of '' @ show_nat cap
     @ '' outbox image slots are in use -- wait for earlier photos to send''"

subsection \<open>Errors of the x0xd client and how they are converted\<close>

datatype discovery_error =
    NotInstalled string
  | NotRunning string
  | PermissionDenied string string
  | Malformed string
  | Unreachable string string
  | DiscoveryIo string

fun discovery_error_display :: "discovery_error \<Rightarrow> string" where
  "discovery_error_display (NotInstalled p) = ''x0xd not installed: '' @ p @ '' is missing''"
| "discovery_error_display (NotRunning f) = ''x0xd not running: '' @ f @ '' missing''"
| "discovery_error_display (PermissionDenied path source) =
     ''permission denied reading '' @ path @ '': '' @ source"
| "discovery_error_display (Malformed s) = ''x0xd metadata malformed: '' @ s"
| "discovery_error_display (Unreachable base_url detail) =
     ''x0xd not running: '' @ base_url
     @ '' unreachable (stale api.port from a dead daemon?): '' @ detail"
| "discovery_error_display (DiscoveryIo s) = ''io: '' @ s"

fun chat_error_of_discovery :: "discovery_error \<Rightarrow> chat_error" where
  "chat_error_of_discovery (DiscoveryIo io) = Io io"
| "chat_error_of_discovery e = NotDiscoverable (discovery_error_display e)"

datatype x0xd_error =
    XHttp string
  | XUrl string
  | XRejected string
  | XApplyRejected nat string
  | XInvalid string

fun chat_error_of_x0xd :: "x0xd_error \<Rightarrow> chat_error" where
  "chat_error_of_x0xd (XHttp re) = Transport re"
| "chat_error_of_x0xd (XUrl u) = Invalid (''x0xd url: '' @ u)"
| "chat_error_of_x0xd (XRejected s) = MessageTransport s"
| "chat_error_of_x0xd (XApplyRejected status detail) =
     MessageTransport (''x0xd apply rejected ('' @ show_nat status @ ''): '' @ detail)"
| "chat_error_of_x0xd (XInvalid s) = Invalid s"

subsection \<open>How far a message got\<close>

datatype send_state = Failed | Queued | Sent | Delivered

fun send_rank :: "send_state \<Rightarrow> nat" where
  "send_rank Failed = 0"
| "send_rank Queued = 1"
| "send_rank Sent = 2"
| "send_rank Delivered = 3"

lemma send_rank_inj [simp]: "send_rank a = send_rank b \<longleftrightarrow> a = b"
  by (cases a; cases b) auto

instantiation send_state :: linorder
begin

definition less_eq_send_state :: "send_state \<Rightarrow> send_state \<Rightarrow> bool" where
  "less_eq_send_state a b \<longleftrightarrow> send_rank a \<le> send_rank b"

definition less_send_state :: "send_state \<Rightarrow> send_state \<Rightarrow> bool" where
  "less_send_state a b \<longleftrightarrow> send_rank a < send_rank b"

instance
  by standard (auto simp: less_eq_send_state_def less_send_state_def)

end

lemmas send_order = less_eq_send_state_def less_send_state_def

fun reached_relay :: "send_state \<Rightarrow> bool" where
  "reached_relay Sent = True"
| "reached_relay Delivered = True"
| "reached_relay _ = False"

fun is_terminal :: "send_state \<Rightarrow> bool" where
  "is_terminal Delivered = True"
| "is_terminal Failed = True"
| "is_terminal _ = False"

lemma reached_relay_iff: "reached_relay s \<longleftrightarrow> Sent \<le> s"
  by (cases s) (auto simp: send_order)

text \<open>
  The serde names at rest: the variant names, and the alias \<^verbatim>\<open>"Sending"\<close> of vaults that
  predate the machine.
\<close>

fun send_state_ser :: "send_state \<Rightarrow> string" where
  "send_state_ser Failed = ''Failed''"
| "send_state_ser Queued = ''Queued''"
| "send_state_ser Sent = ''Sent''"
| "send_state_ser Delivered = ''Delivered''"

definition send_state_de :: "string \<Rightarrow> send_state option" where
  "send_state_de s =
     (if s = ''Failed'' then Some Failed
      else if s = ''Queued'' \<or> s = ''Sending'' then Some Queued
      else if s = ''Sent'' then Some Sent
      else if s = ''Delivered'' then Some Delivered
      else None)"

record send_progress =
  sp_state :: send_state
  sp_changed_at_ms :: nat

record send_failure =
  f_reason :: string
  f_terminal :: bool

definition classify :: "chat_error \<Rightarrow> send_failure" where
  "classify e = \<lparr> f_reason = chat_error_display e,
     f_terminal = (case e of Denied _ \<Rightarrow> True | DeniedActor _ \<Rightarrow> True
                           | SealedRequired _ \<Rightarrow> True | _ \<Rightarrow> False) \<rparr>"

definition retryable_failure :: "string \<Rightarrow> send_failure" where
  "retryable_failure reason = \<lparr> f_reason = reason, f_terminal = False \<rparr>"

subsection \<open>Facts\<close>

lemma send_state_roundtrip: "send_state_de (send_state_ser s) = Some s"
  by (cases s) (simp_all add: send_state_de_def)

lemma classify_terminal_iff:
  "f_terminal (classify e) \<longleftrightarrow>
     (\<exists>a. e = Denied a) \<or> (\<exists>u. e = DeniedActor u) \<or> (\<exists>c. e = SealedRequired c)"
  by (cases e) (auto simp: classify_def)

lemma converted_errors_never_terminal:
  "\<not> f_terminal (classify (chat_error_of_x0xd x))"
  "\<not> f_terminal (classify (chat_error_of_discovery d))"
  by (cases x; simp add: classify_def) (cases d; simp add: classify_def)

lemma send_state_cases_le: "s \<le> Queued \<longleftrightarrow> s = Failed \<or> s = Queued"
  by (cases s) (auto simp: send_order)

end
