(* ===== verification/Attachment.thy ===== *)
theory Attachment
  imports Fetchit_Prelude
begin

text \<open>
  Inline image attachments (\<^verbatim>\<open>fetchit-chat/src/attachment.rs\<close>). The base64 engine is the
  \<^verbatim>\<open>base64\<close> crate: it is the pair of parameters \<open>b64_encode\<close> and \<open>b64_decode\<close>.
\<close>

definition max_attachment_bytes :: nat where
  "max_attachment_bytes = 256 * 1024"

definition allowed_attachment_mimes :: "string list" where
  "allowed_attachment_mimes = [''image/jpeg'', ''image/png'', ''image/webp'', ''image/gif'']"

record attachment =
  a_mime :: string
  a_width :: nat
  a_height :: nat
  a_bytes_b64 :: string

datatype attachment_error =
    DisallowedMime string
  | ZeroDimension
  | InvalidBase64
  | TooLarge nat nat

definition check_mime :: "string \<Rightarrow> attachment_error + unit" where
  "check_mime mime =
     (if mime \<in> set allowed_attachment_mimes then Inr () else Inl (DisallowedMime mime))"

definition check_dimensions :: "nat \<Rightarrow> nat \<Rightarrow> attachment_error + unit" where
  "check_dimensions width height =
     (if width = 0 \<or> height = 0 then Inl ZeroDimension else Inr ())"

definition check_len :: "nat \<Rightarrow> attachment_error + unit" where
  "check_len raw_len =
     (if raw_len > max_attachment_bytes then Inl (TooLarge raw_len max_attachment_bytes)
      else Inr ())"

definition from_raw ::
  "(bytes \<Rightarrow> string) \<Rightarrow> string \<Rightarrow> nat \<Rightarrow> nat \<Rightarrow> bytes \<Rightarrow> attachment_error + attachment" where
  "from_raw b64_encode mime width height raw =
     (case check_mime mime of Inl e \<Rightarrow> Inl e | Inr _ \<Rightarrow>
      (case check_dimensions width height of Inl e \<Rightarrow> Inl e | Inr _ \<Rightarrow>
       (case check_len (length raw) of Inl e \<Rightarrow> Inl e | Inr _ \<Rightarrow>
          Inr \<lparr> a_mime = mime, a_width = width, a_height = height,
                a_bytes_b64 = b64_encode raw \<rparr>)))"

definition validate ::
  "(string \<Rightarrow> bytes option) \<Rightarrow> attachment \<Rightarrow> attachment_error + bytes" where
  "validate b64_decode a =
     (case check_mime (a_mime a) of Inl e \<Rightarrow> Inl e | Inr _ \<Rightarrow>
      (case check_dimensions (a_width a) (a_height a) of Inl e \<Rightarrow> Inl e | Inr _ \<Rightarrow>
       (case b64_decode (a_bytes_b64 a) of None \<Rightarrow> Inl InvalidBase64 | Some raw \<Rightarrow>
        (case check_len (length raw) of Inl e \<Rightarrow> Inl e | Inr _ \<Rightarrow> Inr raw))))"

lemmas check_defs = check_mime_def check_dimensions_def check_len_def

text \<open>
  Validation accepts exactly the raster images within the size cap: the bytes it returns are
  the decoded payload, and every other attachment is refused.
\<close>

lemma validate_Inr_iff:
  "validate b64_decode a = Inr raw \<longleftrightarrow>
     a_mime a \<in> set allowed_attachment_mimes \<and> a_width a \<noteq> 0 \<and> a_height a \<noteq> 0 \<and>
     b64_decode (a_bytes_b64 a) = Some raw \<and> length raw \<le> max_attachment_bytes"
  by (auto simp: validate_def check_defs split: option.splits)

lemma from_raw_Inr_iff:
  "from_raw b64_encode mime w h raw = Inr a \<longleftrightarrow>
     mime \<in> set allowed_attachment_mimes \<and> w \<noteq> 0 \<and> h \<noteq> 0 \<and>
     length raw \<le> max_attachment_bytes \<and>
     a = \<lparr> a_mime = mime, a_width = w, a_height = h, a_bytes_b64 = b64_encode raw \<rparr>"
  by (auto simp: from_raw_def check_defs)

lemma svg_never_allowed: "''image/svg+xml'' \<notin> set allowed_attachment_mimes"
  by (simp add: allowed_attachment_mimes_def)

end
