(* ===== verification/Outbox_Bubble.thy ===== *)
theory Outbox_Bubble
  imports Send_State Attachment
begin

text \<open>
  One outbound message as the durable outbox keeps it
  (\<^verbatim>\<open>fetchit-chat/src/outbox/mod.rs\<close>) and the transcript entry a listing shows
  (\<^verbatim>\<open>HistoryEntry\<close> of \<^verbatim>\<open>conversation/types.rs\<close>).
\<close>

type_synonym agent_id = string

record group_outbound =
  go_group_id :: string
  go_envelope :: bytes
  go_client_message_id :: string

record outbox_bubble =
  b_id :: string
  b_peer :: agent_id
  b_body :: string
  b_status :: send_state
  b_message_id :: "string option"
  b_enqueued_at_ms :: nat
  b_state_changed_at_ms :: nat
  b_prior_message_ids :: "string list"
  b_last_error :: "string option"
  b_group :: "group_outbound option"
  b_attachment :: "attachment option"
  b_reply_to_message_id :: "string option"
  b_attachment_dropped :: bool

definition prior_message_id_cap :: nat where
  "prior_message_id_cap = 8"

definition attachment_bubble_cap :: nat where
  "attachment_bubble_cap = 16"

definition queued :: "string \<Rightarrow> agent_id \<Rightarrow> string \<Rightarrow> nat \<Rightarrow> outbox_bubble" where
  "queued bid peer body now_ms =
     \<lparr> b_id = bid, b_peer = peer, b_body = body, b_status = Queued, b_message_id = None,
       b_enqueued_at_ms = now_ms, b_state_changed_at_ms = now_ms, b_prior_message_ids = [],
       b_last_error = None, b_group = None, b_attachment = None,
       b_reply_to_message_id = None, b_attachment_dropped = False \<rparr>"

definition with_group :: "group_outbound \<Rightarrow> outbox_bubble \<Rightarrow> outbox_bubble" where
  "with_group g b = b\<lparr> b_group := Some g \<rparr>"

definition with_dm_payload ::
  "attachment option \<Rightarrow> string option \<Rightarrow> outbox_bubble \<Rightarrow> outbox_bubble" where
  "with_dm_payload a r b = b\<lparr> b_attachment := a, b_reply_to_message_id := r \<rparr>"

definition release_attachment :: "bool \<Rightarrow> outbox_bubble \<Rightarrow> outbox_bubble" where
  "release_attachment last_holder b =
     (let had = (b_attachment b \<noteq> None); b' = b\<lparr> b_attachment := None \<rparr>
      in if had \<and> last_holder then b'\<lparr> b_attachment_dropped := True \<rparr> else b')"

definition matches_receipt :: "string \<Rightarrow> outbox_bubble \<Rightarrow> bool" where
  "matches_receipt mid b \<longleftrightarrow>
     b_message_id b = Some mid \<or> (\<exists>i \<in> set (b_prior_message_ids b). i = mid)"

definition is_retryable :: "outbox_bubble \<Rightarrow> bool" where
  "is_retryable b =
     (case b_status b of Queued \<Rightarrow> True | Sent \<Rightarrow> b_group b = None
      | Delivered \<Rightarrow> False | Failed \<Rightarrow> False)"

record history_entry =
  h_sender_agent_id_hex :: string
  h_sender_name :: "string option"
  h_body :: string
  h_ts_ms :: nat
  h_message_id :: string
  h_attachment :: "attachment option"
  h_delivered_at_ms :: "nat option"
  h_send_state :: "send_state option"
  h_state_changed_at_ms :: nat

definition send_progress_of :: "history_entry \<Rightarrow> send_progress" where
  "send_progress_of h =
     \<lparr> sp_state = (case h_send_state h of Some s \<Rightarrow> s
                   | None \<Rightarrow> if h_delivered_at_ms h \<noteq> None then Delivered else Sent),
       sp_changed_at_ms =
         (if h_state_changed_at_ms h = 0
          then (case h_delivered_at_ms h of Some t \<Rightarrow> t | None \<Rightarrow> h_ts_ms h)
          else h_state_changed_at_ms h) \<rparr>"

subsection \<open>Facts\<close>

lemma release_attachment_fields [simp]:
  "b_attachment (release_attachment l b) = None"
  "b_id (release_attachment l b) = b_id b"
  "b_peer (release_attachment l b) = b_peer b"
  "b_body (release_attachment l b) = b_body b"
  "b_status (release_attachment l b) = b_status b"
  "b_message_id (release_attachment l b) = b_message_id b"
  "b_prior_message_ids (release_attachment l b) = b_prior_message_ids b"
  "b_group (release_attachment l b) = b_group b"
  "b_last_error (release_attachment l b) = b_last_error b"
  "b_state_changed_at_ms (release_attachment l b) = b_state_changed_at_ms b"
  "b_enqueued_at_ms (release_attachment l b) = b_enqueued_at_ms b"
  "b_reply_to_message_id (release_attachment l b) = b_reply_to_message_id b"
  by (auto simp: release_attachment_def Let_def)

lemma release_attachment_dropped:
  "b_attachment_dropped (release_attachment l b) \<longleftrightarrow>
     b_attachment_dropped b \<or> (l \<and> b_attachment b \<noteq> None)"
  by (auto simp: release_attachment_def Let_def)

lemma release_attachment_idem: "release_attachment l (release_attachment k b) = release_attachment k b"
  by (simp add: release_attachment_def Let_def)

lemma terminal_not_retryable: "is_terminal (b_status b) \<Longrightarrow> \<not> is_retryable b"
  by (cases "b_status b") (auto simp: is_retryable_def)

lemma not_retryable_iff:
  "\<not> is_retryable b \<longleftrightarrow> is_terminal (b_status b) \<or> (b_status b = Sent \<and> b_group b \<noteq> None)"
  by (cases "b_status b") (auto simp: is_retryable_def)

text \<open>
  What a bubble of the outbox always satisfies: it is never further than its acknowledgements
  allow, the superseded ids are bounded, and only a bubble that can still be sent holds image
  bytes.
\<close>

definition bubble_ok :: "outbox_bubble \<Rightarrow> bool" where
  "bubble_ok b \<longleftrightarrow>
     length (b_prior_message_ids b) \<le> prior_message_id_cap \<and>
     (is_terminal (b_status b) \<longrightarrow> b_attachment b = None)"

lemma queued_ok [simp, intro]:
  "bubble_ok (queued bid peer body t)" "bubble_ok (with_dm_payload a r (queued bid peer body t))"
  "bubble_ok (with_group g (queued bid peer body t))"
  by (simp_all add: bubble_ok_def queued_def with_dm_payload_def with_group_def)

lemma queued_status [simp]:
  "b_status (queued bid peer body t) = Queued" "b_id (queued bid peer body t) = bid"
  "b_status (with_dm_payload a r b) = b_status b" "b_id (with_dm_payload a r b) = b_id b"
  "b_attachment (with_dm_payload a r b) = a"
  by (simp_all add: queued_def with_dm_payload_def)

end
