(* ===== verification/At_Rest.thy ===== *)
theory At_Rest
  imports Send_State
begin

text \<open>
  The at-rest vault (\<^verbatim>\<open>fetchit-chat/src/at_rest.rs\<close>, with the AEAD wrappers of
  \<^verbatim>\<open>chat_crypto.rs\<close> and the paths of \<^verbatim>\<open>local_store.rs\<close>). The cipher
  (\<^verbatim>\<open>chacha20poly1305\<close>), the hex encoder, the random bytes and the operating system are
  parameters: a cipher is a record of its two functions, the file system is a map from paths
  to contents together with the faults the environment injects.
\<close>

subsection \<open>The environment\<close>

type_synonym path = "string list"
type_synonym files = "path \<Rightarrow> bytes option"

text \<open>A cipher: key, nonce, message and associated data; an error is its text.\<close>

record cipher =
  encrypt :: "bytes \<Rightarrow> bytes \<Rightarrow> bytes \<Rightarrow> bytes \<Rightarrow> string + bytes"
  decrypt :: "bytes \<Rightarrow> bytes \<Rightarrow> bytes \<Rightarrow> bytes \<Rightarrow> string + bytes"

datatype io_step = CreateDir | OpenTmp | WriteTmp | RenameTmp | ReadFile | ReadDir | RemoveFile

text \<open>
  One call's view of the operating system: the fault it meets at a step (if any), how many
  bytes a faulty write leaves in the temporary file, the texts of the two errors the file
  system raises by itself, and the random bytes the call draws.
\<close>

record os_env =
  io_fault :: "io_step \<Rightarrow> string option"
  io_short :: nat
  io_exists_text :: string
  io_not_found_text :: string
  io_eof_text :: string
  rng_nonce :: bytes
  rng_suffix :: bytes
  hex_encode :: "bytes \<Rightarrow> string"

subsection \<open>Constants and wrappers\<close>

definition vault_magic :: bytes where
  "vault_magic = ascii ''FCV1''"

definition argon_salt_len :: nat where
  "argon_salt_len = 16"

definition aead_nonce_len :: nat where
  "aead_nonce_len = 12"

definition header_len :: nat where
  "header_len = 4 + 1 + argon_salt_len + aead_nonce_len"

definition kdf_id_argon2 :: "8 word" where
  "kdf_id_argon2 = 1"

definition aead_seal :: "cipher \<Rightarrow> bytes \<Rightarrow> bytes \<Rightarrow> bytes \<Rightarrow> bytes \<Rightarrow> chat_error + bytes" where
  "aead_seal C key nonce plaintext aad =
     (case encrypt C key nonce plaintext aad of
        Inl e \<Rightarrow> Inl (Invalid (''aead seal: '' @ e)) | Inr ct \<Rightarrow> Inr ct)"

definition aead_open :: "cipher \<Rightarrow> bytes \<Rightarrow> bytes \<Rightarrow> bytes \<Rightarrow> bytes \<Rightarrow> chat_error + bytes" where
  "aead_open C key nonce ciphertext aad =
     (case decrypt C key nonce ciphertext aad of
        Inl e \<Rightarrow> Inl (Invalid (''aead open: '' @ e)) | Inr pt \<Rightarrow> Inr pt)"

definition vault_aad :: bytes where
  "vault_aad = ascii ''lit/vault/v1''"

text \<open>\<^verbatim>\<open>Path::file_name\<close> and \<^verbatim>\<open>Path::with_file_name\<close> on a path of plain components.\<close>

definition file_name :: "path \<Rightarrow> string option" where
  "file_name p = (if p = [] then None else Some (last p))"

definition with_file_name :: "string \<Rightarrow> path \<Rightarrow> path" where
  "with_file_name n p = butlast p @ [n]"

definition tmp_path :: "os_env \<Rightarrow> path \<Rightarrow> path" where
  "tmp_path E p =
     with_file_name
       ((case file_name p of Some n \<Rightarrow> n | None \<Rightarrow> ''vault'') @ ''.tmp.'' @ hex_encode E (rng_suffix E)) p"

subsection \<open>Writing a file atomically\<close>

text \<open>
  The shared tail of \<^verbatim>\<open>seal_to_path\<close> and \<^verbatim>\<open>write_bytes_atomic\<close>: create the directory, create
  the temporary sibling, write it, rename it over the target.
\<close>

definition write_bytes_atomic :: "os_env \<Rightarrow> path \<Rightarrow> bytes \<Rightarrow> files \<Rightarrow> (chat_error + unit) \<times> files" where
  "write_bytes_atomic E p out fs =
     (let tmp = tmp_path E p in
      case io_fault E CreateDir of Some e \<Rightarrow> (Inl (Io e), fs) | None \<Rightarrow>
      case io_fault E OpenTmp of Some e \<Rightarrow> (Inl (Io e), fs) | None \<Rightarrow>
      if fs tmp \<noteq> None then (Inl (Io (io_exists_text E)), fs) else
      case io_fault E WriteTmp of
        Some e \<Rightarrow> (Inl (Io e), fs(tmp \<mapsto> take (io_short E) out)) | None \<Rightarrow>
      case io_fault E RenameTmp of Some e \<Rightarrow> (Inl (Io e), fs(tmp \<mapsto> out)) | None \<Rightarrow>
        (Inr (), (fs(tmp := None))(p \<mapsto> out)))"

definition vault_bytes :: "8 word \<Rightarrow> bytes option \<Rightarrow> bytes \<Rightarrow> bytes \<Rightarrow> bytes" where
  "vault_bytes kdf_id argon_salt nonce ct =
     vault_magic @ [kdf_id]
     @ (case argon_salt of Some s \<Rightarrow> s | None \<Rightarrow> replicate argon_salt_len 0) @ nonce @ ct"

definition seal_to_path ::
  "cipher \<Rightarrow> os_env \<Rightarrow> path \<Rightarrow> bytes \<Rightarrow> bytes \<Rightarrow> 8 word \<Rightarrow> bytes option \<Rightarrow> files
     \<Rightarrow> (chat_error + unit) \<times> files" where
  "seal_to_path C E p plaintext master kdf_id argon_salt fs =
     (case aead_seal C master (rng_nonce E) plaintext vault_aad of
        Inl e \<Rightarrow> (Inl e, fs)
      | Inr ct \<Rightarrow> write_bytes_atomic E p (vault_bytes kdf_id argon_salt (rng_nonce E) ct) fs)"

subsection \<open>Reading a vault\<close>

definition read_file :: "os_env \<Rightarrow> path \<Rightarrow> files \<Rightarrow> chat_error + bytes" where
  "read_file E p fs =
     (case io_fault E ReadFile of Some e \<Rightarrow> Inl (Io e) | None \<Rightarrow>
      case fs p of None \<Rightarrow> Inl (Io (io_not_found_text E)) | Some bs \<Rightarrow> Inr bs)"

text \<open>\<^verbatim>\<open>read_exact\<close> of the first \<open>n\<close> bytes.\<close>

definition read_exact :: "os_env \<Rightarrow> nat \<Rightarrow> path \<Rightarrow> files \<Rightarrow> chat_error + bytes" where
  "read_exact E n p fs =
     (case read_file E p fs of Inl e \<Rightarrow> Inl e | Inr bs \<Rightarrow>
      if length bs < n then Inl (Io (io_eof_text E)) else Inr (take n bs))"

definition open_from_path :: "cipher \<Rightarrow> os_env \<Rightarrow> path \<Rightarrow> bytes \<Rightarrow> files \<Rightarrow> chat_error + bytes" where
  "open_from_path C E p master fs =
     (case read_file E p fs of Inl e \<Rightarrow> Inl e | Inr bs \<Rightarrow>
      if length bs < header_len then Inl (Invalid ''vault file too short'') else
      if take 4 bs \<noteq> vault_magic then Inl (Invalid ''vault magic mismatch'') else
      let nonce_start = 4 + 1 + argon_salt_len;
          nonce = take aead_nonce_len (drop nonce_start bs);
          ct = drop header_len bs
      in aead_open C master nonce ct vault_aad)"

definition read_kdf_id :: "os_env \<Rightarrow> path \<Rightarrow> files \<Rightarrow> chat_error + 8 word" where
  "read_kdf_id E p fs =
     (case read_exact E 5 p fs of Inl e \<Rightarrow> Inl e | Inr buf \<Rightarrow>
      if take 4 buf \<noteq> vault_magic then Inl (Invalid ''vault magic mismatch'') else Inr (buf ! 4))"

definition read_argon_salt :: "os_env \<Rightarrow> path \<Rightarrow> files \<Rightarrow> chat_error + bytes" where
  "read_argon_salt E p fs =
     (case read_exact E (4 + 1 + argon_salt_len) p fs of Inl e \<Rightarrow> Inl e | Inr buf \<Rightarrow>
      if take 4 buf \<noteq> vault_magic then Inl (Invalid ''vault magic mismatch'') else
      if buf ! 4 \<noteq> kdf_id_argon2 then Inl (Invalid ''vault is not passphrase-mode'') else
      Inr (take argon_salt_len (drop 5 buf)))"

subsection \<open>Facts\<close>

lemmas vault_lens = header_len_def argon_salt_len_def aead_nonce_len_def

lemma length_vault_magic [simp]: "length vault_magic = 4"
  by (simp add: vault_magic_def)

lemma tmp_path_neq: "p \<noteq> [] \<Longrightarrow> tmp_path E p \<noteq> p"
proof
  assume "p \<noteq> []" and eq: "tmp_path E p = p"
  then have "last (tmp_path E p) = last p" by simp
  with \<open>p \<noteq> []\<close> have "last p @ ''.tmp.'' @ hex_encode E (rng_suffix E) = last p"
    by (simp add: tmp_path_def with_file_name_def file_name_def)
  then show False by simp
qed

lemma write_bytes_atomic_ok:
  "write_bytes_atomic E p out fs = (Inr (), fs') \<Longrightarrow> fs' = (fs(tmp_path E p := None))(p \<mapsto> out)"
  by (auto simp: write_bytes_atomic_def Let_def split: option.splits if_splits)

lemma write_bytes_atomic_err:
  assumes "write_bytes_atomic E p out fs = (Inl e, fs')" and "q \<noteq> tmp_path E p"
  shows "fs' q = fs q"
  using assms by (auto simp: write_bytes_atomic_def Let_def split: option.splits if_splits)

lemma write_bytes_atomic_other:
  "q \<noteq> p \<Longrightarrow> q \<noteq> tmp_path E p \<Longrightarrow> snd (write_bytes_atomic E p out fs) q = fs q"
  by (auto simp: write_bytes_atomic_def Let_def split: option.splits)

lemma seal_to_path_ok:
  assumes "seal_to_path C E p pt k kdf salt fs = (Inr (), fs')"
  obtains ct where "encrypt C k (rng_nonce E) pt vault_aad = Inr ct"
    and "fs' p = Some (vault_bytes kdf salt (rng_nonce E) ct)"
  using assms
  by (auto simp: seal_to_path_def aead_seal_def split: sum.splits dest: write_bytes_atomic_ok)

text \<open>The header parses back into its fields.\<close>

lemma vault_bytes_parts:
  assumes "length nonce = aead_nonce_len" and "\<forall>s. salt = Some s \<longrightarrow> length s = argon_salt_len"
  shows "length (vault_bytes kdf salt nonce ct) \<ge> header_len"
    and "take 4 (vault_bytes kdf salt nonce ct) = vault_magic"
    and "vault_bytes kdf salt nonce ct ! 4 = kdf"
    and "take aead_nonce_len (drop (4 + 1 + argon_salt_len) (vault_bytes kdf salt nonce ct)) = nonce"
    and "drop header_len (vault_bytes kdf salt nonce ct) = ct"
    and "take argon_salt_len (drop 5 (vault_bytes kdf salt nonce ct)) =
           (case salt of Some s \<Rightarrow> s | None \<Rightarrow> replicate argon_salt_len 0)"
  using assms
  by (auto simp: vault_bytes_def vault_lens nth_append split: option.splits)


lemma read_file_ok: "io_fault E ReadFile = None \<Longrightarrow> fs p = Some bs \<Longrightarrow> read_file E p fs = Inr bs"
  by (simp add: read_file_def)

lemma open_vault_bytes:
  assumes "io_fault E ReadFile = None" and "fs p = Some (vault_bytes kdf salt nonce ct)"
    and "length nonce = aead_nonce_len" and "\<forall>s. salt = Some s \<longrightarrow> length s = argon_salt_len"
  shows "open_from_path C E p k fs = aead_open C k nonce ct vault_aad"
  using assms(1,2) vault_bytes_parts [OF assms(3,4), of kdf ct]
  by (simp add: open_from_path_def read_file_ok Let_def)

lemma read_kdf_vault_bytes:
  assumes "io_fault E ReadFile = None" and "fs p = Some (vault_bytes kdf salt nonce ct)"
    and "length nonce = aead_nonce_len" and "\<forall>s. salt = Some s \<longrightarrow> length s = argon_salt_len"
  shows "read_kdf_id E p fs = Inr kdf"
  using assms(1,2) vault_bytes_parts [OF assms(3,4), of kdf ct]
  by (auto simp: read_kdf_id_def read_exact_def read_file_ok vault_lens min_def)

lemma read_salt_vault_bytes:
  assumes "io_fault E ReadFile = None" and "fs p = Some (vault_bytes kdf_id_argon2 (Some s) nonce ct)"
    and "length nonce = aead_nonce_len" and "length s = argon_salt_len"
  shows "read_argon_salt E p fs = Inr s"
  using assms(1,2) vault_bytes_parts [of nonce "Some s" kdf_id_argon2 ct] assms(3,4)
  by (auto simp: read_argon_salt_def read_exact_def read_file_ok vault_lens min_def drop_take)

subsection \<open>Properties\<close>

text \<open>
  (C28) A sealed vault opens to what was sealed: after \<open>seal_to_path\<close> reports success, reading
  the file back under the same key with a cipher that decrypts what it encrypts returns the
  plaintext, and the header gives back the KDF id (and, in passphrase mode, the salt) that the
  next boot needs.
\<close>

theorem seal_open_roundtrip:
  assumes sealed: "seal_to_path C E p plaintext master kdf_id salt fs = (Inr (), fs')"
    and cipher: "\<forall>ct. encrypt C master (rng_nonce E) plaintext vault_aad = Inr ct \<longrightarrow>
                  decrypt C master (rng_nonce E) ct vault_aad = Inr plaintext"
    and lens: "length (rng_nonce E) = aead_nonce_len" "\<forall>s. salt = Some s \<longrightarrow> length s = argon_salt_len"
    and reads: "io_fault E' ReadFile = None"
  shows "open_from_path C E' p master fs' = Inr plaintext \<and> read_kdf_id E' p fs' = Inr kdf_id
         \<and> (\<forall>s. salt = Some s \<and> kdf_id = kdf_id_argon2 \<longrightarrow> read_argon_salt E' p fs' = Inr s)"
proof -
  obtain ct where ct: "encrypt C master (rng_nonce E) plaintext vault_aad = Inr ct"
    and contents: "fs' p = Some (vault_bytes kdf_id salt (rng_nonce E) ct)"
    using sealed by (rule seal_to_path_ok)
  have "open_from_path C E' p master fs' = Inr plaintext"
    using open_vault_bytes [of E' fs' p kdf_id salt "rng_nonce E" ct C master] reads contents lens cipher ct by (simp add: aead_open_def)
  moreover have "read_kdf_id E' p fs' = Inr kdf_id"
    using reads contents lens by (rule read_kdf_vault_bytes)
  moreover have "read_argon_salt E' p fs' = Inr s" if "salt = Some s" "kdf_id = kdf_id_argon2" for s
    using that contents lens reads by (auto intro: read_salt_vault_bytes)
  ultimately show ?thesis by blast
qed

text \<open>
  A seal that fails loses nothing: whatever step of the atomic write fails, the vault file
  (and every other file but the temporary sibling) is what it was.
\<close>

lemma seal_failure_keeps_vault:
  assumes "seal_to_path C E p plaintext master kdf_id salt fs = (Inl e, fs')"
    and "p \<noteq> []" and "q \<noteq> tmp_path E p"
  shows "fs' p = fs p \<and> fs' q = fs q"
proof (cases "aead_seal C master (rng_nonce E) plaintext vault_aad")
  case (Inl e')
  then show ?thesis using assms(1) by (simp add: seal_to_path_def)
next
  case (Inr ct)
  with assms(1) have "write_bytes_atomic E p (vault_bytes kdf_id salt (rng_nonce E) ct) fs = (Inl e, fs')"
    by (simp add: seal_to_path_def)
  from write_bytes_atomic_err [OF this] show ?thesis
    using assms(2,3) tmp_path_neq [of p E] by metis
qed

definition demo_os :: "(io_step \<Rightarrow> string option) \<Rightarrow> os_env" where
  "demo_os f = \<lparr> io_fault = f, io_short = 3, io_exists_text = ''exists'', io_not_found_text = ''nf'',
     io_eof_text = ''eof'', rng_nonce = replicate 12 7, rng_suffix = [1], hex_encode = (\<lambda>_. ''01'') \<rparr>"

definition demo_cipher :: cipher where
  "demo_cipher = \<lparr> encrypt = (\<lambda>k n m a. Inr (map (\<lambda>x. x + 1) m)),
                   decrypt = (\<lambda>k n c a. Inr (map (\<lambda>x. x - 1) c)) \<rparr>"

lemma demo_write_ok:
  "tmp_path (demo_os (\<lambda>_. None)) p \<noteq> p \<Longrightarrow>
   write_bytes_atomic (demo_os (\<lambda>_. None)) p out Map.empty =
     (Inr (), Map.empty(p \<mapsto> out))"
  by (auto simp: write_bytes_atomic_def demo_os_def Let_def fun_eq_iff)

theorem seal_open_roundtrip_witness:
  "open_from_path demo_cipher (demo_os (\<lambda>_. None)) [''v''] [9]
     (snd (seal_to_path demo_cipher (demo_os (\<lambda>_. None)) [''v''] [1, 2, 3] [9] kdf_id_argon2
             (Some (replicate 16 5)) Map.empty)) = Inr [1, 2, 3]"
proof -
  let ?r = "seal_to_path demo_cipher (demo_os (\<lambda>_. None)) [''v''] [1, 2, 3] [9] kdf_id_argon2
             (Some (replicate 16 5)) Map.empty"
  have "fst ?r = Inr ()"
    by (simp add: seal_to_path_def aead_seal_def demo_cipher_def demo_write_ok tmp_path_neq)
  then have "?r = (Inr (), snd ?r)" by (metis prod.collapse)
  then show ?thesis
    by (rule seal_open_roundtrip [THEN conjunct1])
       (auto simp: demo_cipher_def demo_os_def vault_lens)
qed

end
