(* ===== verification/Outbox_Store.thy ===== *)
theory Outbox_Store
  imports Outbox_Bubble At_Rest
begin

text \<open>
  The vault-persisted outbox (\<^verbatim>\<open>fetchit-chat/src/outbox/store.rs\<close>) and the locked sections of
  \<^verbatim>\<open>Client::enqueue_dm\<close> that use it. An operation takes the store and the file system and
  returns both; \<open>flush\<close> is the only one that writes. \<^verbatim>\<open>serde_json\<close> is a pair of parameters
  of the vault environment.
\<close>

type_synonym bubble_map = "(string, outbox_bubble) hmap"

record outbox_persist =
  op_path :: path
  op_master :: bytes
  op_kdf_id :: "8 word"
  op_argon_salt :: "bytes option"

record outbox_store =
  os_inner :: bubble_map
  os_persist :: "outbox_persist option"
  os_inflight :: "(string, nat) hmap"

record vault_env =
  v_cipher :: cipher
  v_os :: os_env
  v_to_vec :: "bubble_map \<Rightarrow> string + bytes"
  v_from_slice :: "bytes \<Rightarrow> bubble_map option"

subsection \<open>Loading and persisting\<close>

definition os_new :: outbox_store where
  "os_new = \<lparr> os_inner = hm_empty, os_persist = None, os_inflight = hm_empty \<rparr>"

definition flush :: "vault_env \<Rightarrow> outbox_store \<Rightarrow> files \<Rightarrow> files" where
  "flush V s fs =
     (case os_persist s of None \<Rightarrow> fs | Some p \<Rightarrow>
      case v_to_vec V (os_inner s) of Inl _ \<Rightarrow> fs | Inr bs \<Rightarrow>
        snd (seal_to_path (v_cipher V) (v_os V) (op_path p) bs (op_master p) (op_kdf_id p)
               (op_argon_salt p) fs))"

definition read_map :: "vault_env \<Rightarrow> path \<Rightarrow> bytes \<Rightarrow> files \<Rightarrow> bubble_map option" where
  "read_map V p master fs =
     (if fs p = None then None else
      case open_from_path (v_cipher V) (v_os V) p master fs of
        Inl _ \<Rightarrow> None | Inr plain \<Rightarrow> v_from_slice V plain)"

definition migrate_bubble :: "outbox_bubble \<Rightarrow> outbox_bubble" where
  "migrate_bubble b =
     (if b_state_changed_at_ms b \<noteq> 0 then b
      else b\<lparr> b_status := (case b_status b of Failed \<Rightarrow> Queued
                          | Queued \<Rightarrow> if b_message_id b \<noteq> None then Sent else Queued
                          | other \<Rightarrow> other),
             b_state_changed_at_ms := b_enqueued_at_ms b \<rparr>)"

definition migrate_legacy :: "bubble_map \<Rightarrow> bubble_map" where
  "migrate_legacy m = hm_map_values migrate_bubble m"

definition os_load :: "vault_env \<Rightarrow> outbox_persist \<Rightarrow> files \<Rightarrow> outbox_store" where
  "os_load V p fs =
     (let inner = (case read_map V (op_path p) (op_master p) fs of None \<Rightarrow> hm_empty | Some m \<Rightarrow> m)
      in \<lparr> os_inner = migrate_legacy inner, os_persist = Some p, os_inflight = hm_empty \<rparr>)"

subsection \<open>Reading\<close>

definition os_get :: "outbox_store \<Rightarrow> string \<Rightarrow> outbox_bubble option" where
  "os_get s bid = hm_get (os_inner s) bid"

definition snapshot :: "outbox_store \<Rightarrow> outbox_bubble list" where
  "snapshot s = hm_values (os_inner s)"

definition attachment_bubble_count :: "outbox_store \<Rightarrow> nat" where
  "attachment_bubble_count s = hm_count (\<lambda>b. b_attachment b \<noteq> None) (os_inner s)"

definition has_attachment_capacity :: "outbox_store \<Rightarrow> bool" where
  "has_attachment_capacity s \<longleftrightarrow> attachment_bubble_count s < attachment_bubble_cap"

subsection \<open>Writing\<close>

definition upsert :: "vault_env \<Rightarrow> outbox_bubble \<Rightarrow> outbox_store \<times> files \<Rightarrow> outbox_store \<times> files" where
  "upsert V b sf =
     (let s = fst sf; s' = s\<lparr> os_inner := hm_insert (b_id b) b (os_inner s) \<rparr>
      in (s', flush V s' (snd sf)))"

definition os_remove :: "vault_env \<Rightarrow> string \<Rightarrow> outbox_store \<times> files \<Rightarrow> outbox_store \<times> files" where
  "os_remove V bid sf =
     (let s = fst sf; s' = s\<lparr> os_inner := hm_remove bid (os_inner s) \<rparr>
      in (s', flush V s' (snd sf)))"

definition drop_bubbles_for_peers ::
  "vault_env \<Rightarrow> agent_id list \<Rightarrow> outbox_store \<times> files \<Rightarrow> string list \<times> outbox_store \<times> files" where
  "drop_bubbles_for_peers V peers sf =
     (if peers = [] then ([], sf) else
      let s = fst sf;
          dropped = map b_id (filter (\<lambda>b. b_peer b \<in> set peers) (hm_values (os_inner s)));
          s' = s\<lparr> os_inner := fold hm_remove dropped (os_inner s) \<rparr>
      in (dropped, s', if dropped \<noteq> [] then flush V s' (snd sf) else snd sf))"

definition try_mark_inflight :: "string \<Rightarrow> nat \<Rightarrow> outbox_store \<Rightarrow> bool \<times> outbox_store" where
  "try_mark_inflight bid now_ms s =
     (hm_get (os_inflight s) bid = None, s\<lparr> os_inflight := hm_insert bid now_ms (os_inflight s) \<rparr>)"

definition clear_inflight :: "string \<Rightarrow> outbox_store \<Rightarrow> outbox_store" where
  "clear_inflight bid s = s\<lparr> os_inflight := hm_remove bid (os_inflight s) \<rparr>"

definition clear_all_inflight :: "outbox_store \<Rightarrow> outbox_store" where
  "clear_all_inflight s = s\<lparr> os_inflight := hm_empty \<rparr>"

definition clear_stalled_inflight ::
  "nat \<Rightarrow> nat \<Rightarrow> outbox_store \<Rightarrow> outbox_bubble list \<times> outbox_store" where
  "clear_stalled_inflight now_ms stall_ms s =
     (let stalled = map fst (filter (\<lambda>(bid, claimed_at).
                      now_ms - claimed_at \<ge> stall_ms
                      \<and> (case hm_get (os_inner s) bid of None \<Rightarrow> False
                         | Some b \<Rightarrow> \<not> is_terminal (b_status b))) (os_inflight s))
      in (List.map_filter (hm_get (os_inner s)) stalled,
          s\<lparr> os_inflight := fold hm_remove stalled (os_inflight s) \<rparr>))"

definition deliver_bubble :: "nat \<Rightarrow> outbox_bubble \<Rightarrow> outbox_bubble" where
  "deliver_bubble received_at_ms b =
     release_attachment False (b\<lparr> b_status := Delivered, b_state_changed_at_ms := received_at_ms \<rparr>)"

definition mark_delivered ::
  "vault_env \<Rightarrow> string \<Rightarrow> nat \<Rightarrow> outbox_store \<times> files \<Rightarrow> outbox_bubble option \<times> outbox_store \<times> files" where
  "mark_delivered V mid received_at_ms sf =
     (let s = fst sf in
      case find (\<lambda>(k, b). matches_receipt mid b) (os_inner s) of
        None \<Rightarrow> (None, sf)
      | Some (k, b) \<Rightarrow>
          (let b' = deliver_bubble received_at_ms b;
               s' = s\<lparr> os_inner := hm_insert k b' (os_inner s) \<rparr>
           in (Some b', s', flush V s' (snd sf))))"

text \<open>The superseded id goes to the end of the bounded list, the oldest leaves first.\<close>

definition push_prior :: "string \<Rightarrow> string list \<Rightarrow> string list" where
  "push_prior old ids =
     (if old \<in> set ids then ids
      else (if length ids \<ge> prior_message_id_cap then tl ids else ids) @ [old])"

definition accept_message_id :: "string option \<Rightarrow> outbox_bubble \<Rightarrow> outbox_bubble" where
  "accept_message_id message_id b =
     (case message_id of None \<Rightarrow> b | Some new_id \<Rightarrow>
      (let b' = b\<lparr> b_message_id := Some new_id \<rparr> in
       case b_message_id b of None \<Rightarrow> b'
       | Some old \<Rightarrow> b'\<lparr> b_prior_message_ids := push_prior old (b_prior_message_ids b) \<rparr>))"

definition outcome_bubble ::
  "string option \<Rightarrow> send_failure option \<Rightarrow> nat \<Rightarrow> outbox_bubble \<Rightarrow> outbox_bubble" where
  "outcome_bubble message_id failure now_ms b =
     (case failure of
        Some f \<Rightarrow>
          (let b' = b\<lparr> b_last_error := Some (f_reason f) \<rparr> in
           if f_terminal f \<and> \<not> reached_relay (b_status b')
           then release_attachment True (b'\<lparr> b_status := Failed, b_state_changed_at_ms := now_ms \<rparr>)
           else b')
      | None \<Rightarrow>
          (let b1 = accept_message_id message_id b;
               b2 = (if b_status b1 \<noteq> Sent then b1\<lparr> b_state_changed_at_ms := now_ms \<rparr> else b1)
           in b2\<lparr> b_status := Sent, b_last_error := None \<rparr>))"

definition record_send_outcome ::
  "vault_env \<Rightarrow> string \<Rightarrow> string option \<Rightarrow> send_failure option \<Rightarrow> nat \<Rightarrow> outbox_store \<times> files
     \<Rightarrow> outbox_bubble option \<times> outbox_store \<times> files" where
  "record_send_outcome V bubble_id message_id failure now_ms sf =
     (let s = fst sf in
      case hm_get (os_inner s) bubble_id of None \<Rightarrow> (None, sf) | Some b \<Rightarrow>
      if is_terminal (b_status b) then (None, sf) else
      (let b' = outcome_bubble message_id failure now_ms b;
           s' = s\<lparr> os_inner := hm_insert bubble_id b' (os_inner s) \<rparr>
       in (Some b', s', flush V s' (snd sf))))"

subsection \<open>Enqueueing a direct message\<close>

text \<open>
  The two critical sections of \<^verbatim>\<open>Client::enqueue_dm\<close>: \<open>enqueue_begin\<close> admits the bubble and
  claims it, \<open>enqueue_finish\<close> records the outcome and releases the claim. The send happens
  between them, without the lock.
\<close>

definition enqueue_begin ::
  "vault_env \<Rightarrow> outbox_bubble \<Rightarrow> nat \<Rightarrow> outbox_store \<times> files \<Rightarrow> (chat_error + unit) \<times> outbox_store \<times> files" where
  "enqueue_begin V b now_ms sf =
     (let s = fst sf in
      if b_attachment b \<noteq> None \<and> \<not> has_attachment_capacity s
      then (Inl (OutboxAttachmentsFull (attachment_bubble_count s) attachment_bubble_cap), sf)
      else (let sf' = upsert V b sf
            in (Inr (), snd (try_mark_inflight (b_id b) now_ms (fst sf')), snd sf')))"

definition enqueue_finish ::
  "vault_env \<Rightarrow> string \<Rightarrow> chat_error + string option \<Rightarrow> nat \<Rightarrow> outbox_store \<times> files
     \<Rightarrow> outbox_bubble option \<times> outbox_store \<times> files" where
  "enqueue_finish V bid result now_ms sf =
     (let message_id = (case result of Inr mid \<Rightarrow> mid | Inl _ \<Rightarrow> None);
          failure = (case result of Inr _ \<Rightarrow> None | Inl e \<Rightarrow> Some (classify e));
          r = record_send_outcome V bid message_id failure now_ms sf
      in (fst r, clear_inflight bid (fst (snd r)), snd (snd r)))"

end
