(* ===== verification/Outbox_Invariant.thy ===== *)
theory Outbox_Invariant
  imports Outbox_Store
begin

text \<open>
  The outbox as a machine driven by its operations: the well-formedness invariant every
  operation keeps, the order in which the state of one message can move, and what survives a
  restart.
\<close>

subsection \<open>The machine\<close>

datatype outbox_op =
    EnqueueBegin outbox_bubble nat
  | EnqueueFinish string "chat_error + string option" nat
  | Remove string
  | DropPeers "agent_id list"
  | Claim string nat
  | Release string
  | ReleaseAll
  | SweepStalled nat nat
  | Receipt string nat
  | Outcome string "string option" "send_failure option" nat

fun outbox_step :: "outbox_store \<times> files \<Rightarrow> vault_env \<times> outbox_op \<Rightarrow> outbox_store \<times> files" where
  "outbox_step sf (V, EnqueueBegin b t) = snd (enqueue_begin V b t sf)"
| "outbox_step sf (V, EnqueueFinish bid r t) = snd (enqueue_finish V bid r t sf)"
| "outbox_step sf (V, Remove bid) = os_remove V bid sf"
| "outbox_step sf (V, DropPeers ps) = snd (drop_bubbles_for_peers V ps sf)"
| "outbox_step sf (V, Claim bid t) = (snd (try_mark_inflight bid t (fst sf)), snd sf)"
| "outbox_step sf (V, Release bid) = (clear_inflight bid (fst sf), snd sf)"
| "outbox_step sf (V, ReleaseAll) = (clear_all_inflight (fst sf), snd sf)"
| "outbox_step sf (V, SweepStalled t d) = (snd (clear_stalled_inflight t d (fst sf)), snd sf)"
| "outbox_step sf (V, Receipt mid t) = snd (mark_delivered V mid t sf)"
| "outbox_step sf (V, Outcome bid mid f t) = snd (record_send_outcome V bid mid f t sf)"

text \<open>
  What holds of every stored bubble: the superseded ids are bounded; a terminal bubble holds no
  image; a message no relay accepted has no message id a receipt could match.
\<close>

definition bubble_inv :: "outbox_bubble \<Rightarrow> bool" where
  "bubble_inv b \<longleftrightarrow>
     length (b_prior_message_ids b) \<le> prior_message_id_cap \<and>
     (is_terminal (b_status b) \<longrightarrow> b_attachment b = None) \<and>
     (\<not> reached_relay (b_status b) \<longrightarrow> b_message_id b = None \<and> b_prior_message_ids b = [])"

definition store_inv :: "outbox_store \<Rightarrow> bool" where
  "store_inv s \<longleftrightarrow>
     hm_wf (os_inner s) \<and> hm_wf (os_inflight s) \<and>
     (\<forall>k b. hm_get (os_inner s) k = Some b \<longrightarrow> b_id b = k \<and> bubble_inv b) \<and>
     attachment_bubble_count s \<le> attachment_bubble_cap"

text \<open>The one constructor of the send path makes a queued bubble with no id yet.\<close>

definition fresh_bubble :: "outbox_bubble \<Rightarrow> bool" where
  "fresh_bubble b \<longleftrightarrow> b_status b = Queued \<and> b_message_id b = None \<and> b_prior_message_ids b = []"

fun op_fresh :: "vault_env \<times> outbox_op \<Rightarrow> bool" where
  "op_fresh (V, EnqueueBegin b t) = fresh_bubble b"
| "op_fresh _ = True"

text \<open>Operations that do not enqueue a new bubble under the id \<open>k\<close>.\<close>

fun op_spares :: "string \<Rightarrow> vault_env \<times> outbox_op \<Rightarrow> bool" where
  "op_spares k (V, EnqueueBegin b t) = (fresh_bubble b \<and> b_id b \<noteq> k)"
| "op_spares k _ = True"

text \<open>The transitions of one message.\<close>

inductive may_become :: "send_state \<Rightarrow> send_state \<Rightarrow> bool" where
  stay: "may_become s s"
| from_queued: "may_become Queued s"
| acked: "may_become Sent Delivered"

inductive_simps may_become_simps [simp]:
  "may_become Queued s" "may_become Sent s" "may_become Delivered s" "may_become Failed s"

text \<open>
  How the bubble stored under \<open>k\<close> may change: its payload is fixed, its state follows
  \<open>may_become\<close>, its image is kept while it can still be sent, and the loss of an image is
  announced exactly when the message failed.
\<close>

definition bubble_leads :: "outbox_bubble \<Rightarrow> outbox_bubble \<Rightarrow> bool" where
  "bubble_leads b b' \<longleftrightarrow>
     may_become (b_status b) (b_status b') \<and>
     b_id b' = b_id b \<and> b_peer b' = b_peer b \<and> b_body b' = b_body b \<and> b_group b' = b_group b \<and>
     b_reply_to_message_id b' = b_reply_to_message_id b \<and>
     b_enqueued_at_ms b' = b_enqueued_at_ms b \<and>
     b_attachment b' = (if is_terminal (b_status b') then None else b_attachment b) \<and>
     b_attachment_dropped b' =
       (b_attachment_dropped b \<or> (b_status b' = Failed \<and> b_attachment b \<noteq> None))"

definition slot_leads :: "string \<Rightarrow> outbox_store \<times> files \<Rightarrow> outbox_store \<times> files \<Rightarrow> bool" where
  "slot_leads k sf sf' \<longleftrightarrow>
     (case os_get (fst sf') k of None \<Rightarrow> True
      | Some b' \<Rightarrow> (\<exists>b. os_get (fst sf) k = Some b \<and>
                       (bubble_inv b \<longrightarrow> bubble_inv b' \<and> bubble_leads b b')))"

subsection \<open>One bubble\<close>

lemma in_set_tlD: "x \<in> set (tl xs) \<Longrightarrow> x \<in> set xs"
  by (cases xs) auto

lemma length_push_prior [simp]:
  "length ids \<le> prior_message_id_cap \<Longrightarrow> length (push_prior old ids) \<le> prior_message_id_cap"
  by (auto simp: push_prior_def prior_message_id_cap_def)

lemma accept_message_id_fields [simp]:
  "b_status (accept_message_id m b) = b_status b"
  "b_id (accept_message_id m b) = b_id b"
  "b_peer (accept_message_id m b) = b_peer b"
  "b_body (accept_message_id m b) = b_body b"
  "b_group (accept_message_id m b) = b_group b"
  "b_attachment (accept_message_id m b) = b_attachment b"
  "b_attachment_dropped (accept_message_id m b) = b_attachment_dropped b"
  "b_reply_to_message_id (accept_message_id m b) = b_reply_to_message_id b"
  "b_enqueued_at_ms (accept_message_id m b) = b_enqueued_at_ms b"
  by (auto simp: accept_message_id_def Let_def split: option.splits)

lemma accept_message_id_prior [simp]:
  "length (b_prior_message_ids b) \<le> prior_message_id_cap \<Longrightarrow>
   length (b_prior_message_ids (accept_message_id m b)) \<le> prior_message_id_cap"
  by (auto simp: accept_message_id_def Let_def split: option.splits)

lemma outcome_bubble_leads:
  assumes "bubble_inv b" and "\<not> is_terminal (b_status b)"
  shows "bubble_inv (outcome_bubble m f t b)" and "bubble_leads b (outcome_bubble m f t b)"
proof -
  show "bubble_inv (outcome_bubble m f t b)"
    using assms by (auto simp: outcome_bubble_def bubble_inv_def Let_def split: option.splits)
  show "bubble_leads b (outcome_bubble m f t b)"
    using assms
    by (cases "b_status b")
       (auto simp: outcome_bubble_def bubble_leads_def Let_def release_attachment_dropped
          intro: may_become.intros split: option.splits)
qed

lemma outcome_bubble_attachment:
  "b_attachment (outcome_bubble m f t b) = Some a \<Longrightarrow> b_attachment b = Some a"
  by (auto simp: outcome_bubble_def Let_def split: option.splits if_splits)

lemma deliver_bubble_leads:
  assumes "bubble_inv b" and "matches_receipt mid b"
  shows "bubble_inv (deliver_bubble t b)" and "bubble_leads b (deliver_bubble t b)"
  using assms
  by (cases "b_status b";
      auto simp: deliver_bubble_def bubble_inv_def bubble_leads_def matches_receipt_def
        release_attachment_dropped)+

lemma bubble_leads_refl: "bubble_inv b \<Longrightarrow> bubble_leads b b"
  by (cases "b_status b") (auto simp: bubble_leads_def bubble_inv_def)

lemma may_become_trans: "may_become a b \<Longrightarrow> may_become b c \<Longrightarrow> may_become a c"
  by (cases a; cases b) auto

lemma bubble_leads_trans:
  assumes "bubble_leads a b" and "bubble_leads b c" and "bubble_inv b" and "bubble_inv a"
  shows "bubble_leads a c"
proof -
  have "may_become (b_status a) (b_status c)"
    using assms by (auto simp: bubble_leads_def intro: may_become_trans)
  moreover have "b_status b = b_status c" if "is_terminal (b_status b)"
    using assms(2) that by (cases "b_status b") (auto simp: bubble_leads_def)
  ultimately show ?thesis
    using assms by (cases "b_status b"; cases "b_status c") (auto simp: bubble_leads_def bubble_inv_def)
qed


subsection \<open>The store\<close>

lemma store_inv_bubble: "store_inv s \<Longrightarrow> hm_get (os_inner s) k = Some b \<Longrightarrow> b_id b = k \<and> bubble_inv b"
  by (simp add: store_inv_def)

lemma store_inv_inflight: "store_inv s \<Longrightarrow> hm_wf m \<Longrightarrow> store_inv (s\<lparr> os_inflight := m \<rparr>)"
  by (simp add: store_inv_def attachment_bubble_count_def)

lemma store_inv_replace:
  assumes "store_inv s" and "hm_get (os_inner s) k = Some b" and "bubble_inv b'" and "b_id b' = k"
    and "b_attachment b' \<noteq> None \<Longrightarrow> b_attachment b \<noteq> None"
  shows "store_inv (s\<lparr> os_inner := hm_insert k b' (os_inner s) \<rparr>)"
proof -
  have "hm_count (\<lambda>b. b_attachment b \<noteq> None) (hm_insert k b' (os_inner s))
          \<le> hm_count (\<lambda>b. b_attachment b \<noteq> None) (os_inner s)"
    using assms(2,5) by (intro hm_count_insert_keep) auto
  then show ?thesis
    using assms(1,3,4) by (auto simp: store_inv_def attachment_bubble_count_def hm_simps split: if_splits)
qed

lemma store_inv_remove:
  assumes "store_inv s"
  shows "store_inv (s\<lparr> os_inner := fold hm_remove ks (os_inner s) \<rparr>)"
proof -
  have wf: "hm_wf (os_inner s)" using assms by (simp add: store_inv_def)
  have "attachment_bubble_count (s\<lparr> os_inner := fold hm_remove ks (os_inner s) \<rparr>)
          \<le> attachment_bubble_count s"
    by (simp add: attachment_bubble_count_def hm_count_fold_remove_le)
  then show ?thesis
    using assms wf hm.wf_fold_remove [OF wf] hm.get_fold_remove [OF wf]
    by (auto simp: store_inv_def attachment_bubble_count_def split: if_splits)
qed

lemma store_inv_enqueue:
  assumes "store_inv s" and "fresh_bubble b" and "b_attachment b \<noteq> None \<Longrightarrow> has_attachment_capacity s"
  shows "store_inv (s\<lparr> os_inner := hm_insert (b_id b) b (os_inner s) \<rparr>)"
proof -
  have "bubble_inv b" using assms(2) by (simp add: fresh_bubble_def bubble_inv_def)
  moreover have "attachment_bubble_count (s\<lparr> os_inner := hm_insert (b_id b) b (os_inner s) \<rparr>)
      \<le> attachment_bubble_cap"
    using assms(1,3) hm_count_insert_le [of "\<lambda>b. b_attachment b \<noteq> None" "b_id b" b "os_inner s"]
    by (auto simp: store_inv_def attachment_bubble_count_def has_attachment_capacity_def
        split: if_splits)
  ultimately show ?thesis
    using assms(1) by (auto simp: store_inv_def hm_simps split: if_splits)
qed

subsection \<open>The operations\<close>

lemma find_entry:
  assumes "find (\<lambda>(k, b). P b) m = Some (k, b)"
  shows "(k, b) \<in> set m" and "P b"
  using assms by (auto simp: find_Some_iff in_set_conv_nth)

text \<open>Either no stored bubble matches, or one of them is delivered in place.\<close>

lemma mark_delivered_cases:
  assumes "hm_wf (os_inner (fst sf))"
  obtains (miss) "mark_delivered V mid t sf = (None, sf)"
    and "\<And>k b. hm_get (os_inner (fst sf)) k = Some b \<Longrightarrow> \<not> matches_receipt mid b"
  | (hit) k b where "hm_get (os_inner (fst sf)) k = Some b" and "matches_receipt mid b"
    and "fst (mark_delivered V mid t sf) = Some (deliver_bubble t b)"
    and "fst (snd (mark_delivered V mid t sf)) =
           (fst sf)\<lparr> os_inner := hm_insert k (deliver_bubble t b) (os_inner (fst sf)) \<rparr>"
proof (cases "find (\<lambda>(k, b). matches_receipt mid b) (os_inner (fst sf))")
  case None
  then have "mark_delivered V mid t sf = (None, sf)"
    and "\<And>k b. hm_get (os_inner (fst sf)) k = Some b \<Longrightarrow> \<not> matches_receipt mid b"
    by (auto simp: mark_delivered_def Let_def) (auto simp: find_None_iff dest: hm_get_in_set)
  then show ?thesis by (rule miss)
next
  case (Some kb)
  obtain k b where kb: "kb = (k, b)" by (cases kb)
  with Some have "(k, b) \<in> set (os_inner (fst sf))" and "matches_receipt mid b"
    by (auto dest: find_entry)
  with Some kb show ?thesis
    using assms by (intro hit) (auto simp: mark_delivered_def Let_def hm_get_iff)
qed

lemma record_send_outcome_cases:
  obtains (gone) "record_send_outcome V bid m f t sf = (None, sf)"
    and "\<And>b. hm_get (os_inner (fst sf)) bid = Some b \<Longrightarrow> is_terminal (b_status b)"
  | (hit) b where "hm_get (os_inner (fst sf)) bid = Some b" and "\<not> is_terminal (b_status b)"
    and "fst (record_send_outcome V bid m f t sf) = Some (outcome_bubble m f t b)"
    and "fst (snd (record_send_outcome V bid m f t sf)) =
           (fst sf)\<lparr> os_inner := hm_insert bid (outcome_bubble m f t b) (os_inner (fst sf)) \<rparr>"
proof (cases "hm_get (os_inner (fst sf)) bid")
  case None
  then show ?thesis using gone by (simp add: record_send_outcome_def Let_def)
next
  case (Some b)
  show ?thesis
  proof (cases "is_terminal (b_status b)")
    case True
    with Some show ?thesis using gone by (simp add: record_send_outcome_def Let_def)
  next
    case False
    with Some show ?thesis using hit by (simp add: record_send_outcome_def Let_def)
  qed
qed

lemma inner_try_mark [simp]: "os_inner (snd (try_mark_inflight bid t s)) = os_inner s"
  by (simp add: try_mark_inflight_def)

lemma inner_clear [simp]:
  "os_inner (clear_inflight bid s) = os_inner s" "os_inner (clear_all_inflight s) = os_inner s"
  "os_inner (snd (clear_stalled_inflight t d s)) = os_inner s"
  by (simp_all add: clear_inflight_def clear_all_inflight_def clear_stalled_inflight_def Let_def)

lemma store_inv_claims:
  assumes "store_inv s"
  shows "store_inv (snd (try_mark_inflight bid t s))" "store_inv (clear_inflight bid s)"
    "store_inv (clear_all_inflight s)" "store_inv (snd (clear_stalled_inflight t d s))"
proof -
  have wf: "hm_wf (os_inflight s)" using assms by (simp add: store_inv_def)
  show "store_inv (snd (try_mark_inflight bid t s))" "store_inv (clear_inflight bid s)"
    "store_inv (clear_all_inflight s)" "store_inv (snd (clear_stalled_inflight t d s))"
    using assms wf
    by (auto simp: try_mark_inflight_def clear_inflight_def clear_all_inflight_def
        clear_stalled_inflight_def Let_def intro!: store_inv_inflight hm.wf_fold_remove)
qed

lemma store_inv_outcome:
  assumes "store_inv (fst sf)"
  shows "store_inv (fst (snd (record_send_outcome V bid m f t sf)))"
proof (cases rule: record_send_outcome_cases [of V bid m f t sf])
  case gone
  then show ?thesis using assms by simp
next
  case (hit b)
  have "bubble_inv b" and "b_id b = bid" using assms hit(1) by (auto dest: store_inv_bubble)
  with hit(2) have "bubble_inv (outcome_bubble m f t b)" and "b_id (outcome_bubble m f t b) = bid"
    using outcome_bubble_leads [of b m f t] by (auto simp: bubble_leads_def)
  with hit show ?thesis
    using assms by (auto intro!: store_inv_replace dest: outcome_bubble_attachment)
qed

lemma store_inv_delivered:
  assumes "store_inv (fst sf)"
  shows "store_inv (fst (snd (mark_delivered V mid t sf)))"
proof -
  have wf: "hm_wf (os_inner (fst sf))" using assms by (simp add: store_inv_def)
  show ?thesis
  proof (cases rule: mark_delivered_cases [OF wf, of V mid t])
    case 1
    then show ?thesis using assms by simp
  next
    case (2 k b)
    have "bubble_inv b" and "b_id b = k" using assms 2(1) by (auto dest: store_inv_bubble)
    with 2(2) have "bubble_inv (deliver_bubble t b)" and "b_id (deliver_bubble t b) = k"
      using deliver_bubble_leads [of b mid t] by (auto simp: bubble_leads_def)
    moreover have "b_attachment (deliver_bubble t b) = None" by (simp add: deliver_bubble_def)
    ultimately show ?thesis
      using 2 assms by (auto intro!: store_inv_replace)
  qed
qed

lemma fst_upsert: "fst (upsert V b sf) = (fst sf)\<lparr> os_inner := hm_insert (b_id b) b (os_inner (fst sf)) \<rparr>"
  by (simp add: upsert_def Let_def)

lemma fst_os_remove: "fst (os_remove V bid sf) = (fst sf)\<lparr> os_inner := hm_remove bid (os_inner (fst sf)) \<rparr>"
  by (simp add: os_remove_def Let_def)

lemma drop_bubbles_inner:
  "\<exists>ks. fst (snd (drop_bubbles_for_peers V ps sf)) =
     (fst sf)\<lparr> os_inner := fold hm_remove ks (os_inner (fst sf)) \<rparr>"
proof (cases "ps = []")
  case True
  then have "fst (snd (drop_bubbles_for_peers V ps sf)) =
      (fst sf)\<lparr> os_inner := fold hm_remove [] (os_inner (fst sf)) \<rparr>"
    by (simp add: drop_bubbles_for_peers_def)
  then show ?thesis by blast
next
  case False
  then show ?thesis by (auto simp: drop_bubbles_for_peers_def Let_def)
qed

lemma store_inv_enqueue_begin:
  assumes "store_inv (fst sf)" and "fresh_bubble b"
  shows "store_inv (fst (snd (enqueue_begin V b t sf)))"
proof (cases "b_attachment b \<noteq> None \<and> \<not> has_attachment_capacity (fst sf)")
  case True
  then show ?thesis using assms by (simp add: enqueue_begin_def Let_def)
next
  case False
  then have "store_inv (fst (upsert V b sf))"
    using assms by (auto simp: fst_upsert intro!: store_inv_enqueue)
  then show ?thesis
    using False by (auto simp: enqueue_begin_def Let_def intro: store_inv_claims)
qed

lemma store_inv_step:
  assumes "store_inv (fst sf)" and "op_fresh x"
  shows "store_inv (fst (outbox_step sf x))"
proof -
  obtain V op where x: "x = (V, op)" by (cases x)
  show ?thesis
  proof (cases op)
    case (EnqueueBegin b t)
    then show ?thesis using assms x by (simp add: store_inv_enqueue_begin)
  next
    case (EnqueueFinish bid r t)
    then show ?thesis
      using assms x by (simp add: enqueue_finish_def Let_def store_inv_outcome store_inv_claims)
  next
    case (Remove bid)
    then show ?thesis using assms x store_inv_remove [of "fst sf" "[bid]"] by (simp add: fst_os_remove)
  next
    case (DropPeers ps)
    then show ?thesis
      using assms x drop_bubbles_inner [of V ps sf] by (auto intro: store_inv_remove)
  qed (use assms x in \<open>auto intro: store_inv_claims store_inv_outcome store_inv_delivered\<close>)
qed

interpretation outbox: invariant_system outbox_step op_fresh "\<lambda>sf. store_inv (fst sf)"
  by unfold_locales (rule store_inv_step)


subsection \<open>The life of one bubble\<close>

lemma slot_leads_same: "os_inner (fst sf') = os_inner (fst sf) \<Longrightarrow> slot_leads k sf sf'"
  by (auto simp: slot_leads_def os_get_def bubble_leads_refl split: option.splits)

lemma slot_leads_removed:
  assumes "hm_wf (os_inner (fst sf))"
    and "fst sf' = (fst sf)\<lparr> os_inner := fold hm_remove ks (os_inner (fst sf)) \<rparr>"
  shows "slot_leads k sf sf'"
  using assms hm.get_fold_remove [OF assms(1), of ks k]
  by (auto simp: slot_leads_def os_get_def bubble_leads_refl split: option.splits if_splits)

lemma slot_leads_replace:
  assumes "fst sf' = (fst sf)\<lparr> os_inner := hm_insert j b' (os_inner (fst sf)) \<rparr>"
    and "hm_get (os_inner (fst sf)) j = Some b"
    and "bubble_inv b \<Longrightarrow> bubble_inv b' \<and> bubble_leads b b'"
  shows "slot_leads k sf sf'"
  using assms
  by (auto simp: slot_leads_def os_get_def hm_simps bubble_leads_refl split: option.splits)

lemma slot_leads_trans: "slot_leads k r s \<Longrightarrow> slot_leads k s t \<Longrightarrow> slot_leads k r t"
  by (auto simp: slot_leads_def split: option.splits intro: bubble_leads_trans)

lemma slot_leads_outcome: "slot_leads k sf (snd (record_send_outcome V bid m f t sf))"
proof (cases rule: record_send_outcome_cases [of V bid m f t sf])
  case gone
  then show ?thesis by (simp add: slot_leads_same)
next
  case (hit b)
  then show ?thesis by (intro slot_leads_replace) (auto intro: outcome_bubble_leads)
qed

lemma slot_leads_delivered:
  assumes "hm_wf (os_inner (fst sf))"
  shows "slot_leads k sf (snd (mark_delivered V mid t sf))"
proof (cases rule: mark_delivered_cases [OF assms, of V mid t])
  case 1
  then show ?thesis by (simp add: slot_leads_same)
next
  case (2 j b)
  then show ?thesis by (intro slot_leads_replace) (auto intro: deliver_bubble_leads)
qed

lemma slot_leads_enqueue: "b_id b \<noteq> k \<Longrightarrow> slot_leads k sf (snd (enqueue_begin V b t sf))"
  by (auto simp: slot_leads_def os_get_def enqueue_begin_def Let_def fst_upsert hm_simps
      bubble_leads_refl split: option.splits)

lemma slot_leads_step:
  assumes "store_inv (fst sf)" and "op_spares k x"
  shows "slot_leads k sf (outbox_step sf x)"
proof -
  have wf: "hm_wf (os_inner (fst sf))" using assms by (simp add: store_inv_def)
  obtain V op where x: "x = (V, op)" by (cases x)
  show ?thesis
  proof (cases op)
    case (EnqueueFinish bid r t)
    then show ?thesis
      using x slot_leads_trans [OF slot_leads_outcome slot_leads_same]
      by (simp add: enqueue_finish_def Let_def)
  next
    case (Remove bid)
    then show ?thesis
      using x wf slot_leads_removed [of sf "outbox_step sf x" "[bid]"] by (simp add: fst_os_remove)
  next
    case (DropPeers ps)
    then show ?thesis
      using x wf drop_bubbles_inner [of V ps sf] by (auto intro: slot_leads_removed)
  qed (use assms x wf in
      \<open>auto intro: slot_leads_same slot_leads_outcome slot_leads_delivered slot_leads_enqueue\<close>)
qed

lemma op_spares_fresh: "op_spares k x \<Longrightarrow> op_fresh x"
  by (cases "(k, x)" rule: op_spares.cases) auto

interpretation life: monotone_system outbox_step "op_spares k" "\<lambda>sf. store_inv (fst sf)" "slot_leads k"
  for k
proof unfold_locales
  show "store_inv (fst (outbox_step sf x))" if "store_inv (fst sf)" "op_spares k x" for sf x
    using that by (intro store_inv_step) (auto intro: op_spares_fresh)
qed (auto intro: slot_leads_same slot_leads_trans slot_leads_step)

subsection \<open>Persistence\<close>

lemma flush_load:
  assumes persist: "os_persist s = Some p" and path: "op_path p \<noteq> []"
    and json: "v_to_vec V (os_inner s) = Inr bs" "v_from_slice V bs = Some (os_inner s)"
    and cipher: "encrypt (v_cipher V) (op_master p) (rng_nonce (v_os V)) bs vault_aad = Inr ct"
      "decrypt (v_cipher V) (op_master p) (rng_nonce (v_os V)) ct vault_aad = Inr bs"
    and os: "io_fault (v_os V) = (\<lambda>_. None)" "fs (tmp_path (v_os V) (op_path p)) = None"
    and lens: "length (rng_nonce (v_os V)) = aead_nonce_len"
      "\<forall>x. op_argon_salt p = Some x \<longrightarrow> length x = argon_salt_len"
  shows "os_load V p (flush V s fs) =
           \<lparr> os_inner = migrate_legacy (os_inner s), os_persist = Some p, os_inflight = hm_empty \<rparr>"
proof -
  let ?fs = "flush V s fs"
  have "?fs (op_path p) = Some (vault_bytes (op_kdf_id p) (op_argon_salt p) (rng_nonce (v_os V)) ct)"
    using persist json os cipher by (simp add: flush_def seal_to_path_def aead_seal_def write_bytes_atomic_def Let_def)
  moreover from this have "open_from_path (v_cipher V) (v_os V) (op_path p) (op_master p) ?fs = Inr bs"
    using open_vault_bytes [of "v_os V" ?fs "op_path p"] os lens cipher by (simp add: aead_open_def)
  ultimately show ?thesis
    using json by (simp add: os_load_def read_map_def)
qed

lemma migrate_stamped: "b_state_changed_at_ms b \<noteq> 0 \<Longrightarrow> migrate_bubble b = b"
  by (simp add: migrate_bubble_def)


subsection \<open>Receipts of superseded copies\<close>

text \<open>
  Where the id of an accepted copy sits while the message is re-sent: it is the current id, or
  it is in the superseded list with at most \<open>j\<close> younger ids behind it.
\<close>

definition id_kept :: "nat \<Rightarrow> string \<Rightarrow> outbox_bubble \<Rightarrow> bool" where
  "id_kept j m b \<longleftrightarrow>
     (b_message_id b = Some m \<and> m \<notin> set (b_prior_message_ids b)) \<or>
     (\<exists>xs ys. b_prior_message_ids b = xs @ m # ys \<and> length ys < j)"

lemma id_kept_matches: "id_kept j m b \<Longrightarrow> matches_receipt m b"
  by (auto simp: id_kept_def matches_receipt_def)

lemma id_kept_mono: "id_kept j m b \<Longrightarrow> j \<le> j' \<Longrightarrow> id_kept j' m b"
  by (force simp: id_kept_def)

lemma push_prior_keeps:
  assumes "ids = xs @ m # ys" and "length ys < j" and "j < prior_message_id_cap"
  shows "\<exists>xs' ys'. push_prior old ids = xs' @ m # ys' \<and> length ys' < Suc j"
proof (cases "old \<in> set ids")
  case True
  then have "push_prior old ids = xs @ m # ys" using assms(1) by (simp add: push_prior_def)
  with assms(2) show ?thesis by (meson less_SucI)
next
  case False
  show ?thesis
  proof (cases "length ids \<ge> prior_message_id_cap")
    case True
    with assms obtain x xs' where "xs = x # xs'" by (cases xs) auto
    with True False assms have "push_prior old ids = xs' @ m # (ys @ [old])"
      by (simp add: push_prior_def)
    with assms(2) show ?thesis by (metis Suc_less_eq length_append_singleton)
  next
    case small: False
    with False assms have "push_prior old ids = xs @ m # (ys @ [old])"
      by (simp add: push_prior_def)
    with assms(2) show ?thesis by (metis Suc_less_eq length_append_singleton)
  qed
qed

lemma id_kept_resend:
  assumes "id_kept j m b" and "j < prior_message_id_cap"
  shows "id_kept (Suc j) m (outcome_bubble (Some new) None t b)"
proof -
  let ?b = "outcome_bubble (Some new) None t b"
  have ids: "b_message_id ?b = Some new"
    "b_prior_message_ids ?b = (case b_message_id b of None \<Rightarrow> b_prior_message_ids b
       | Some old \<Rightarrow> push_prior old (b_prior_message_ids b))"
    by (auto simp: outcome_bubble_def accept_message_id_def Let_def split: option.splits)
  show ?thesis
  proof (cases "b_message_id b = Some m \<and> m \<notin> set (b_prior_message_ids b)")
    case True
    then have "b_prior_message_ids ?b =
        (if length (b_prior_message_ids b) \<ge> prior_message_id_cap
         then tl (b_prior_message_ids b) else b_prior_message_ids b) @ m # []"
      using ids by (simp add: push_prior_def)
    then show ?thesis unfolding id_kept_def by fastforce
  next
    case False
    with assms(1) obtain xs ys where "b_prior_message_ids b = xs @ m # ys" "length ys < j"
      by (auto simp: id_kept_def)
    then show ?thesis
      using push_prior_keeps [OF _ _ assms(2)] ids
      by (cases "b_message_id b") (auto simp: id_kept_def intro: less_SucI)
  qed
qed

lemma id_kept_resends:
  "id_kept j m b \<Longrightarrow> j + length ts \<le> prior_message_id_cap \<Longrightarrow>
   id_kept (j + length ts) m (foldl (\<lambda>b (new, t). outcome_bubble (Some new) None t b) b ts)"
proof (induction ts arbitrary: j b)
  case Nil
  then show ?case by simp
next
  case (Cons x ts)
  obtain new t where x: "x = (new, t)" by (cases x)
  have "id_kept (Suc j) m (outcome_bubble (Some new) None t b)"
    using Cons.prems by (intro id_kept_resend) auto
  from Cons.IH [OF this] Cons.prems x show ?case by simp
qed

end
