(* ===== verification/Outbox_Properties.thy ===== *)
theory Outbox_Properties
  imports Outbox_Invariant
begin

text \<open>
  What may move a message from one state to the next, and what a restart finds on disk after
  any operation of the outbox.
\<close>

subsection \<open>Causes of a transition\<close>

text \<open>A send of \<open>k\<close> that a relay accepted, and a verdict on \<open>k\<close> that no retry can change.\<close>

fun relay_acked :: "string \<Rightarrow> outbox_op \<Rightarrow> bool" where
  "relay_acked k (Outcome bid m f t) = (bid = k \<and> f = None)"
| "relay_acked k (EnqueueFinish bid r t) = (bid = k \<and> \<not> isl r)"
| "relay_acked k _ = False"

fun terminal_verdict :: "string \<Rightarrow> outbox_op \<Rightarrow> bool" where
  "terminal_verdict k (Outcome bid m f t) = (bid = k \<and> (\<exists>g. f = Some g \<and> f_terminal g))"
| "terminal_verdict k (EnqueueFinish bid r t) = (bid = k \<and> (\<exists>e. r = Inl e \<and> f_terminal (classify e)))"
| "terminal_verdict k _ = False"

definition caused :: "string \<Rightarrow> outbox_op \<Rightarrow> outbox_bubble \<Rightarrow> outbox_bubble \<Rightarrow> bool" where
  "caused k x b b' \<longleftrightarrow>
     (b_status b = Queued \<and> b_status b' = Sent \<and> relay_acked k x) \<or>
     (b_status b = Sent \<and> b_status b' = Delivered \<and> (\<exists>mid t. x = Receipt mid t \<and> matches_receipt mid b)) \<or>
     (b_status b = Queued \<and> b_status b' = Failed \<and> terminal_verdict k x)"

lemma outcome_status:
  assumes "\<not> is_terminal (b_status b)"
  shows "b_status (outcome_bubble m f t b) =
    (case f of None \<Rightarrow> Sent
     | Some g \<Rightarrow> if f_terminal g \<and> b_status b = Queued then Failed else b_status b)"
  using assms by (cases "b_status b") (auto simp: outcome_bubble_def Let_def split: option.splits)

lemma outcome_change:
  assumes "os_get (fst sf) k = Some b"
    and "os_get (fst (snd (record_send_outcome V bid m f t sf))) k = Some b'"
    and "b_status b' \<noteq> b_status b"
  shows "bid = k \<and> b_status b = Queued \<and>
         (b_status b' = Sent \<and> f = None \<or> b_status b' = Failed \<and> (\<exists>g. f = Some g \<and> f_terminal g))"
proof (cases rule: record_send_outcome_cases [of V bid m f t sf])
  case gone
  then show ?thesis using assms by simp
next
  case (hit b0)
  with assms have "bid = k" and b: "b0 = b" and b': "b' = outcome_bubble m f t b"
    by (auto simp: os_get_def hm_simps split: if_splits)
  from assms(3) hit(2) show ?thesis
    unfolding b' b using \<open>bid = k\<close>
    by (cases "b_status b") (auto simp: outcome_status split: option.splits if_splits)
qed

lemma receipt_change:
  assumes "store_inv (fst sf)" and "os_get (fst sf) k = Some b"
    and "os_get (fst (snd (mark_delivered V mid t sf))) k = Some b'"
    and "b_status b' \<noteq> b_status b"
  shows "b_status b = Sent \<and> b_status b' = Delivered \<and> matches_receipt mid b"
proof -
  have wf: "hm_wf (os_inner (fst sf))" using assms(1) by (simp add: store_inv_def)
  have inv: "bubble_inv b" using assms(1,2) by (auto simp: os_get_def dest: store_inv_bubble)
  show ?thesis
  proof (cases rule: mark_delivered_cases [OF wf, of V mid t])
    case 1
    then show ?thesis using assms by simp
  next
    case (2 j b0)
    with assms have b: "b0 = b" and b': "b' = deliver_bubble t b"
      by (auto simp: os_get_def hm_simps split: if_splits)
    with 2(2) inv assms(4) show ?thesis
      by (cases "b_status b") (auto simp: deliver_bubble_def bubble_inv_def matches_receipt_def)
  qed
qed

subsection \<open>Disk and memory\<close>

text \<open>What the next start would find: the map that \<open>os_load\<close> reads before it migrates.\<close>

definition disk_map :: "vault_env \<Rightarrow> outbox_persist \<Rightarrow> files \<Rightarrow> bubble_map" where
  "disk_map V p fs = (case read_map V (op_path p) (op_master p) fs of None \<Rightarrow> hm_empty | Some m \<Rightarrow> m)"

definition disk_agrees :: "vault_env \<Rightarrow> outbox_persist \<Rightarrow> outbox_store \<times> files \<Rightarrow> bool" where
  "disk_agrees V p sf \<longleftrightarrow> hm_get (disk_map V p (snd sf)) = hm_get (os_inner (fst sf))"

text \<open>
  The vault works for the map \<open>m\<close>: no input or output fault, a fresh temporary name, a nonce
  and a salt of the right length, and a serializer and a cipher that return what they were
  given.
\<close>

definition vault_works :: "vault_env \<Rightarrow> outbox_persist \<Rightarrow> files \<Rightarrow> bubble_map \<Rightarrow> bool" where
  "vault_works V p fs m \<longleftrightarrow>
     io_fault (v_os V) = (\<lambda>_. None) \<and> fs (tmp_path (v_os V) (op_path p)) = None \<and>
     length (rng_nonce (v_os V)) = aead_nonce_len \<and>
     (\<forall>x. op_argon_salt p = Some x \<longrightarrow> length x = argon_salt_len) \<and>
     (\<exists>bs m' ct. v_to_vec V m = Inr bs \<and> v_from_slice V bs = Some m' \<and> hm_get m' = hm_get m \<and>
        encrypt (v_cipher V) (op_master p) (rng_nonce (v_os V)) bs vault_aad = Inr ct \<and>
        decrypt (v_cipher V) (op_master p) (rng_nonce (v_os V)) ct vault_aad = Inr bs)"

lemma disk_after_flush:
  assumes "os_persist s = Some p" and "vault_works V p fs (os_inner s)"
  shows "disk_agrees V p (s, flush V s fs)"
proof -
  from assms(2) obtain bs m' ct where
    json: "v_to_vec V (os_inner s) = Inr bs" "v_from_slice V bs = Some m'" "hm_get m' = hm_get (os_inner s)"
    and enc: "encrypt (v_cipher V) (op_master p) (rng_nonce (v_os V)) bs vault_aad = Inr ct"
    and dec: "decrypt (v_cipher V) (op_master p) (rng_nonce (v_os V)) ct vault_aad = Inr bs"
    by (auto simp: vault_works_def)
  have os: "io_fault (v_os V) = (\<lambda>_. None)" "fs (tmp_path (v_os V) (op_path p)) = None"
    and lens: "length (rng_nonce (v_os V)) = aead_nonce_len"
      "\<forall>x. op_argon_salt p = Some x \<longrightarrow> length x = argon_salt_len"
    using assms(2) by (auto simp: vault_works_def)
  let ?fs = "flush V s fs"
  have "?fs (op_path p) = Some (vault_bytes (op_kdf_id p) (op_argon_salt p) (rng_nonce (v_os V)) ct)"
    using assms(1) json os enc
    by (simp add: flush_def seal_to_path_def aead_seal_def write_bytes_atomic_def Let_def)
  moreover from this have "open_from_path (v_cipher V) (v_os V) (op_path p) (op_master p) ?fs = Inr bs"
    using open_vault_bytes [of "v_os V" ?fs "op_path p"] os lens dec by (simp add: aead_open_def)
  ultimately show ?thesis
    using json by (simp add: disk_agrees_def disk_map_def read_map_def)
qed

text \<open>An operation either rewrites the vault from the new map, or changes neither.\<close>

lemma step_flushes_or_keeps:
  "(\<exists>s. snd (outbox_step sf (V, x)) = flush V s (snd sf) \<and>
        os_inner s = os_inner (fst (outbox_step sf (V, x))) \<and> os_persist s = os_persist (fst sf)) \<or>
   (snd (outbox_step sf (V, x)) = snd sf \<and> os_inner (fst (outbox_step sf (V, x))) = os_inner (fst sf))"
proof (cases x)
qed (auto simp: mark_delivered_def enqueue_begin_def upsert_def enqueue_finish_def os_remove_def drop_bubbles_for_peers_def
    record_send_outcome_def clear_inflight_def try_mark_inflight_def clear_all_inflight_def
    clear_stalled_inflight_def Let_def split: option.splits sum.splits if_splits intro!: exI)

subsection \<open>A concrete outbox\<close>

definition demo_bubble :: outbox_bubble where
  "demo_bubble = with_dm_payload (Some \<lparr> a_mime = ''image/png'', a_width = 1, a_height = 1, a_bytes_b64 = ''AA'' \<rparr>)
     None (queued ''b1'' ''peer'' ''hi'' 5)"

definition demo_map :: bubble_map where
  "demo_map = [(''b1'', demo_bubble)]"

definition demo_vault :: vault_env where
  "demo_vault = \<lparr> v_cipher = demo_cipher, v_os = demo_os (\<lambda>_. None),
     v_to_vec = (\<lambda>m. Inr (if m = demo_map then [1] else [0])),
     v_from_slice = (\<lambda>bs. Some (if bs = [1] then demo_map else hm_empty)) \<rparr>"

definition demo_persist :: outbox_persist where
  "demo_persist = \<lparr> op_path = [''outbox'', ''outbox.json.enc''], op_master = [9], op_kdf_id = 0,
     op_argon_salt = None \<rparr>"

definition demo_store :: outbox_store where
  "demo_store = \<lparr> os_inner = demo_map, os_persist = Some demo_persist, os_inflight = hm_empty \<rparr>"

lemmas demo_defs = demo_bubble_def demo_map_def demo_vault_def demo_persist_def demo_store_def
  queued_def with_dm_payload_def demo_os_def demo_cipher_def

lemma demo_store_inv: "store_inv demo_store"
  by (auto simp: store_inv_def demo_defs hm_wf_def hm_get_def bubble_inv_def attachment_bubble_count_def
      hm_count_def hm_values_def attachment_bubble_cap_def prior_message_id_cap_def)

subsection \<open>Properties\<close>

text \<open>
  (C27) Every state the outbox can reach from empty is well formed: bubbles sit under their own
  ids, at most sixteen of them hold image bytes, none remembers more than eight superseded ids,
  a terminal bubble holds no image, and a message no relay accepted has no id that a receipt
  could match. The operations may come in any order and every write may fail.
\<close>

theorem outbox_reachable_inv:
  assumes "list_all op_fresh xs"
  shows "store_inv (fst (foldl outbox_step (os_new, fs) xs))"
proof -
  have "store_inv os_new"
    by (simp add: store_inv_def os_new_def attachment_bubble_count_def attachment_bubble_cap_def)
  then show ?thesis using outbox.run_inv [of "(os_new, fs)" xs] assms by simp
qed

text \<open>
  (C1) The life of one message, under any interleaving of sends, receipts, sweeps and
  removals: as long as it is in the outbox its payload never changes, its state only moves
  queued to sent to delivered or queued to failed and never backwards, its image stays until
  the state is terminal, and a dropped image is flagged exactly when the message failed.
\<close>

theorem outbox_message_life:
  assumes "store_inv (fst sf)" and "list_all (op_spares k) xs"
    and "os_get (fst (foldl outbox_step sf xs)) k = Some b'"
  shows "\<exists>b. os_get (fst sf) k = Some b \<and> bubble_leads b b'"
proof -
  have "slot_leads k sf (foldl outbox_step sf xs)"
    using assms(1,2) by (rule life.run_below)
  with assms(1,3) show ?thesis by (auto simp: slot_leads_def os_get_def dest: store_inv_bubble)
qed

text \<open>
  Receipts of earlier copies still close the message: the id of an accepted copy keeps
  matching its delivery receipt through eight further accepted re-sends, whatever ids those
  mint.
\<close>

lemma receipt_survives_resends:
  assumes "\<not> matches_receipt m b" and "length ts \<le> prior_message_id_cap"
  shows "matches_receipt m
     (foldl (\<lambda>b (new, t). outcome_bubble (Some new) None t b) (outcome_bubble (Some m) None t0 b) ts)"
proof -
  let ?b = "outcome_bubble (Some m) None t0 b"
  have "b_message_id ?b = Some m"
    by (auto simp: outcome_bubble_def accept_message_id_def Let_def split: option.splits)
  moreover have "m \<notin> set (b_prior_message_ids ?b)"
    using assms(1)
    by (auto simp: outcome_bubble_def accept_message_id_def push_prior_def matches_receipt_def Let_def
        dest: in_set_tlD split: option.splits if_splits)
  ultimately have "id_kept 0 m ?b" by (simp add: id_kept_def)
  then show ?thesis using id_kept_resends [of 0 m ?b ts] assms(2) by (auto intro: id_kept_matches)
qed

theorem outbox_reachable_inv_witness:
  "store_inv (fst (foldl outbox_step (os_new, Map.empty)
     [(demo_vault, EnqueueBegin demo_bubble 5), (demo_vault, EnqueueFinish ''b1'' (Inr (Some ''m'')) 6),
      (demo_vault, Receipt ''m'' 7)]))"
  by (rule outbox_reachable_inv) (simp add: fresh_bubble_def demo_defs)

theorem outbox_message_life_witness:
  "\<exists>b. os_get demo_store ''b1'' = Some b \<and>
     bubble_leads b (outcome_bubble None (Some (classify (Denied ''x''))) 7 demo_bubble)"
proof -
  let ?x = "(demo_vault, Outcome ''b1'' None (Some (classify (Denied ''x''))) 7)"
  have "os_get (fst (foldl outbox_step (demo_store, Map.empty) [?x])) ''b1'' =
          Some (outcome_bubble None (Some (classify (Denied ''x''))) 7 demo_bubble)"
    by (simp add: record_send_outcome_def Let_def os_get_def hm_simps demo_store_def demo_map_def hm_get_def
        demo_bubble_def hm_insert_def)
  from outbox_message_life [OF _ _ this] show ?thesis by (simp add: demo_store_inv)
qed

text \<open>
  (C6) The only causes of a state change: a message becomes sent from queued by a send of that
  message that a relay accepted, delivered from sent by a receipt carrying one of its message
  ids, and failed from queued by a verdict of a send of that message that no retry can change.
  No sweep, claim, retryable error or operation on another message changes its state.
\<close>

theorem status_change_cause:
  assumes "store_inv (fst sf)" and "op_spares k (V, x)" and "os_get (fst sf) k = Some b"
    and "os_get (fst (outbox_step sf (V, x))) k = Some b'" and "b_status b' \<noteq> b_status b"
  shows "caused k x b b'"
proof (cases x)
  case (EnqueueBegin b0 t)
  then show ?thesis
    using assms by (auto simp: os_get_def enqueue_begin_def Let_def fst_upsert hm_simps split: if_splits)
next
  case (EnqueueFinish bid r t)
  let ?m = "case r of Inr mid \<Rightarrow> mid | Inl _ \<Rightarrow> None"
  let ?f = "case r of Inr _ \<Rightarrow> None | Inl e \<Rightarrow> Some (classify e)"
  have "os_get (fst (snd (record_send_outcome V bid ?m ?f t sf))) k = Some b'"
    using assms(4) EnqueueFinish by (simp add: enqueue_finish_def Let_def os_get_def)
  from outcome_change [OF assms(3) this assms(5)] EnqueueFinish show ?thesis
    by (cases r) (auto simp: caused_def)
next
  case (Remove bid)
  then show ?thesis using assms by (auto simp: os_get_def fst_os_remove hm_simps split: if_splits)
next
  case (DropPeers ps)
  then show ?thesis
    using assms drop_bubbles_inner [of V ps sf] hm.get_fold_remove [of "os_inner (fst sf)"]
    by (auto simp: os_get_def store_inv_def split: if_splits)
next
  case (Receipt mid t)
  then show ?thesis using assms receipt_change [of sf k b V mid t b'] by (auto simp: caused_def)
next
  case (Outcome bid m f t)
  then show ?thesis using assms outcome_change [of sf k b V bid m f t b'] by (auto simp: caused_def)
qed (use assms in \<open>auto simp: os_get_def\<close>)

theorem status_change_cause_witness:
  "caused ''b1'' (Outcome ''b1'' (Some ''m'') None 7) demo_bubble
     (outcome_bubble (Some ''m'') None 7 demo_bubble)"
proof -
  let ?x = "Outcome ''b1'' (Some ''m'') None 7"
  let ?b = "outcome_bubble (Some ''m'') None 7 demo_bubble"
  have "os_get (fst (outbox_step (demo_store, Map.empty) (demo_vault, ?x))) ''b1'' = Some ?b"
    by (simp add: record_send_outcome_def Let_def os_get_def hm_simps demo_store_def demo_map_def hm_get_def
        demo_bubble_def hm_insert_def)
  moreover have "b_status ?b \<noteq> b_status demo_bubble"
    by (simp add: outcome_bubble_def Let_def demo_bubble_def)
  moreover have "os_get demo_store ''b1'' = Some demo_bubble"
    by (simp add: os_get_def demo_store_def demo_map_def hm_get_def)
  ultimately show ?thesis
    using status_change_cause [of "(demo_store, Map.empty)" "''b1''" demo_vault ?x demo_bubble ?b]
      demo_store_inv by simp
qed

text \<open>
  (C23) The disk never lags behind: if the vault on disk agrees with the bubble map in memory
  before an operation, it agrees after it, whenever the vault works for the resulting map. A
  crash between two operations loses no message and resurrects none.
\<close>

theorem outbox_op_durable:
  assumes "os_persist (fst sf) = Some p" and "disk_agrees V p sf"
    and "vault_works V p (snd sf) (os_inner (fst (outbox_step sf (V, x))))"
  shows "disk_agrees V p (outbox_step sf (V, x))"
  using step_flushes_or_keeps [of sf V x]
proof
  assume "\<exists>s. snd (outbox_step sf (V, x)) = flush V s (snd sf) \<and>
        os_inner s = os_inner (fst (outbox_step sf (V, x))) \<and> os_persist s = os_persist (fst sf)"
  then obtain s where s: "snd (outbox_step sf (V, x)) = flush V s (snd sf)"
    "os_inner s = os_inner (fst (outbox_step sf (V, x)))" "os_persist s = Some p"
    using assms(1) by auto
  have "disk_agrees V p (s, flush V s (snd sf))"
    using disk_after_flush [OF s(3)] assms(3) s(2) by simp
  then show ?thesis using s(1,2) by (simp add: disk_agrees_def)
next
  assume "snd (outbox_step sf (V, x)) = snd sf \<and> os_inner (fst (outbox_step sf (V, x))) = os_inner (fst sf)"
  then show ?thesis using assms(2) by (simp add: disk_agrees_def)
qed

theorem outbox_op_durable_witness:
  "disk_agrees demo_vault demo_persist
     (outbox_step (demo_store\<lparr> os_inner := hm_empty \<rparr>, Map.empty) (demo_vault, EnqueueBegin demo_bubble 5))"
proof -
  let ?sf = "(demo_store\<lparr> os_inner := hm_empty \<rparr>, Map.empty)"
  let ?x = "EnqueueBegin demo_bubble 5"
  have inner: "os_inner (fst (outbox_step ?sf (demo_vault, ?x))) = demo_map"
    by (simp add: enqueue_begin_def Let_def fst_upsert has_attachment_capacity_def attachment_bubble_count_def
        hm_count_def hm_values_def attachment_bubble_cap_def hm_insert_def demo_map_def demo_bubble_def)
  have "vault_works demo_vault demo_persist (snd ?sf) demo_map"
    by (auto simp: vault_works_def demo_vault_def demo_os_def aead_nonce_len_def demo_persist_def
        demo_cipher_def)
  moreover have "disk_agrees demo_vault demo_persist ?sf"
    by (simp add: disk_agrees_def disk_map_def read_map_def)
  ultimately show ?thesis
    using outbox_op_durable [of ?sf demo_persist demo_vault ?x] inner by (simp add: demo_store_def)
qed

end
