(* ===== verification/Outbox_Driver.thy ===== *)
theory Outbox_Driver
  imports Outbox_Properties
begin

text \<open>
  The retry driver (\<^verbatim>\<open>fetchit-chat/src/outbox/driver.rs\<close>), the transport router it sends
  through (\<^verbatim>\<open>transport/mod.rs\<close>) and the run loop of \<^verbatim>\<open>Client::start_outbox_driver\<close>. A send is
  an await: \<open>r_meanwhile\<close> lists the outbox operations that other tasks ran before it returned.
  \<open>d_sent\<close> records the bubbles handed to the transport and \<open>d_events\<close> the broadcast bubbles.
\<close>

subsection \<open>The router\<close>

datatype reachability = Always | IfReachable | No

record send_receipt =
  sr_accepted_at_ms :: nat
  sr_message_id :: "string option"
  sr_transport_name :: string

record ('env, 'hints) transport =
  t_name :: string
  t_reachability :: "agent_id \<Rightarrow> reachability"
  t_send :: "agent_id \<Rightarrow> 'env \<Rightarrow> 'hints option \<Rightarrow> chat_error + send_receipt"

fun router_loop ::
  "('env, 'hints) transport list \<Rightarrow> agent_id \<Rightarrow> 'env \<Rightarrow> 'hints option \<Rightarrow> bool \<Rightarrow> chat_error option
     \<Rightarrow> chat_error + send_receipt" where
  "router_loop [] to envelope hints any_reachable last_err =
     (if \<not> any_reachable then Inl NoTransportAvailable
      else Inl (case last_err of Some e \<Rightarrow> e | None \<Rightarrow> NoTransportAvailable))"
| "router_loop (t # ts) to envelope hints any_reachable last_err =
     (if t_reachability t to = No then router_loop ts to envelope hints any_reachable last_err
      else case t_send t to envelope hints of
             Inr receipt \<Rightarrow> Inr receipt
           | Inl e \<Rightarrow> router_loop ts to envelope hints True (Some e))"

definition router_send ::
  "('env, 'hints) transport list \<Rightarrow> agent_id \<Rightarrow> 'env \<Rightarrow> 'hints option \<Rightarrow> chat_error + send_receipt" where
  "router_send ts to envelope hints =
     (if ts = [] then Inl NoTransportAvailable else router_loop ts to envelope hints False None)"

subsection \<open>Retry pacing\<close>

definition stalled_claim_ms :: nat where
  "stalled_claim_ms = 15 * 60 * 1000"

definition retry_backoff_base_ms :: nat where
  "retry_backoff_base_ms = 15000"

definition retry_backoff_max_ms :: nat where
  "retry_backoff_max_ms = 15 * 60 * 1000"

definition backoff_ms :: "nat \<Rightarrow> nat" where
  "backoff_ms attempts =
     (let doublings = min (attempts - 1) 6
      in min (u64_sat_mul retry_backoff_base_ms (2 ^ doublings)) retry_backoff_max_ms)"

definition is_queued_retryable :: "outbox_bubble \<Rightarrow> bool" where
  "is_queued_retryable b \<longleftrightarrow> is_retryable b \<and> b_status b = Queued"

record retry_pace =
  rp_attempts :: nat
  rp_last_attempt_ms :: nat

subsection \<open>The driver\<close>

record driver =
  d_store :: outbox_store
  d_files :: files
  d_last_online :: "(agent_id, bool) hmap"
  d_retry_pace :: "(string, retry_pace) hmap"
  d_events :: "outbox_bubble list"
  d_sent :: "outbox_bubble list"

record send_result =
  r_result :: "chat_error + send_receipt"
  r_meanwhile :: "(vault_env \<times> outbox_op) list"

type_synonym outbox_transport = "outbox_bubble \<Rightarrow> send_result"

text \<open>The claims of one flush: the candidates whose \<^verbatim>\<open>try_mark_inflight\<close> returned true.\<close>

fun claim_all :: "nat \<Rightarrow> outbox_bubble list \<Rightarrow> outbox_store \<Rightarrow> outbox_bubble list \<times> outbox_store" where
  "claim_all now_ms [] s = ([], s)"
| "claim_all now_ms (b # bs) s =
     (let (ok, s1) = try_mark_inflight (b_id b) now_ms s; (cs, s2) = claim_all now_ms bs s1
      in (if ok then b # cs else cs, s2))"

definition stamp_pace :: "nat \<Rightarrow> outbox_bubble \<Rightarrow> (string, retry_pace) hmap \<Rightarrow> (string, retry_pace) hmap" where
  "stamp_pace now_ms b pace =
     (let e = (case hm_get pace (b_id b) of Some e \<Rightarrow> e
               | None \<Rightarrow> \<lparr> rp_attempts = 0, rp_last_attempt_ms = now_ms \<rparr>)
      in hm_insert (b_id b)
           \<lparr> rp_attempts = u32_sat_add (rp_attempts e) 1, rp_last_attempt_ms = now_ms \<rparr> pace)"

definition send_one :: "vault_env \<Rightarrow> outbox_transport \<Rightarrow> nat \<Rightarrow> outbox_bubble \<Rightarrow> driver \<Rightarrow> driver" where
  "send_one V T now_ms claimed d =
     (let r = T claimed;
          sf = foldl outbox_step (d_store d, d_files d) (r_meanwhile r);
          message_id = (case r_result r of Inr receipt \<Rightarrow> sr_message_id receipt | Inl _ \<Rightarrow> None);
          failure = (case r_result r of Inr _ \<Rightarrow> None | Inl e \<Rightarrow> Some (classify e));
          (updated, s, fs) = record_send_outcome V (b_id claimed) message_id failure now_ms sf
      in d\<lparr> d_store := clear_inflight (b_id claimed) s, d_files := fs,
           d_sent := d_sent d @ [claimed],
           d_events := d_events d @ (case updated of Some u \<Rightarrow> [u] | None \<Rightarrow> []) \<rparr>)"

definition flush_matching ::
  "vault_env \<Rightarrow> outbox_transport \<Rightarrow> agent_id \<Rightarrow> (outbox_bubble \<Rightarrow> bool) \<Rightarrow> nat \<Rightarrow> driver \<Rightarrow> driver" where
  "flush_matching V T peer eligible now_ms d =
     (let candidates = filter (\<lambda>b. b_peer b = peer \<and> eligible b) (snapshot (d_store d));
          (claims, s) = claim_all now_ms candidates (d_store d);
          d1 = d\<lparr> d_store := s, d_retry_pace := fold (stamp_pace now_ms) claims (d_retry_pace d) \<rparr>
      in fold (send_one V T now_ms) claims d1)"

definition flush_peer :: "vault_env \<Rightarrow> outbox_transport \<Rightarrow> nat \<Rightarrow> agent_id \<Rightarrow> driver \<Rightarrow> driver" where
  "flush_peer V T now_ms peer d = flush_matching V T peer is_retryable now_ms d"

definition on_presence ::
  "vault_env \<Rightarrow> outbox_transport \<Rightarrow> nat \<Rightarrow> agent_id \<Rightarrow> bool \<Rightarrow> driver \<Rightarrow> driver" where
  "on_presence V T now_ms peer online d =
     (let was = hm_get (d_last_online d) peer;
          d1 = d\<lparr> d_last_online := hm_insert peer online (d_last_online d) \<rparr>
      in if online \<and> was \<noteq> Some True then flush_peer V T now_ms peer d1 else d1)"

text \<open>The first occurrence of every peer, as the \<^verbatim>\<open>HashSet::insert\<close> filter keeps it.\<close>

fun distinct_peers :: "agent_id list \<Rightarrow> agent_id list \<Rightarrow> agent_id list" where
  "distinct_peers seen [] = []"
| "distinct_peers seen (p # ps) =
     (if p \<in> set seen then distinct_peers seen ps else p # distinct_peers (p # seen) ps)"

definition sweep_stalled :: "vault_env \<Rightarrow> outbox_transport \<Rightarrow> nat \<Rightarrow> driver \<Rightarrow> driver" where
  "sweep_stalled V T now_ms d =
     (let (freed, s) = clear_stalled_inflight now_ms stalled_claim_ms (d_store d);
          peers = distinct_peers [] (map b_peer freed)
      in fold (\<lambda>peer. flush_matching V T peer is_retryable now_ms) peers (d\<lparr> d_store := s \<rparr>))"

definition pace_due :: "nat \<Rightarrow> retry_pace option \<Rightarrow> bool" where
  "pace_due now_ms p =
     (case p of None \<Rightarrow> True | Some p \<Rightarrow> now_ms - rp_last_attempt_ms p \<ge> backoff_ms (rp_attempts p))"

definition flush_due :: "vault_env \<Rightarrow> outbox_transport \<Rightarrow> nat \<Rightarrow> driver \<Rightarrow> driver" where
  "flush_due V T now_ms d =
     (let queued = filter is_queued_retryable (snapshot (d_store d));
          live = map b_id queued;
          pace = hm_retain (\<lambda>bid _. bid \<in> set live) (d_retry_pace d);
          peers = distinct_peers []
            (map b_peer (filter (\<lambda>b. pace_due now_ms (hm_get pace (b_id b))) queued))
      in fold (\<lambda>peer. flush_matching V T peer is_queued_retryable now_ms) peers
           (d\<lparr> d_retry_pace := pace \<rparr>))"

definition boot_sweep :: "driver \<Rightarrow> driver" where
  "boot_sweep d = d\<lparr> d_store := clear_all_inflight (d_store d) \<rparr>"

definition driver_mark_delivered :: "vault_env \<Rightarrow> string \<Rightarrow> nat \<Rightarrow> driver \<Rightarrow> driver" where
  "driver_mark_delivered V mid received_at_ms d =
     (let (changed, s, fs) = mark_delivered V mid received_at_ms (d_store d, d_files d)
      in d\<lparr> d_store := s, d_files := fs,
           d_events := d_events d @ (case changed of Some u \<Rightarrow> [u] | None \<Rightarrow> []) \<rparr>)"

definition flush_all :: "vault_env \<Rightarrow> outbox_transport \<Rightarrow> nat \<Rightarrow> driver \<Rightarrow> driver" where
  "flush_all V T now_ms d =
     fold (flush_peer V T now_ms)
       (distinct_peers [] (map b_peer (filter is_retryable (snapshot (d_store d))))) d"

subsection \<open>The run loop\<close>

text \<open>
  The loop alternates between opening the event stream, waiting for the reopen deadline, and
  selecting on the open stream. An input that the \<^verbatim>\<open>select!\<close> of the current phase has no arm for
  stays pending: the step leaves the state as it is.
\<close>

datatype loop_phase = Opening | Waiting | Streaming

datatype loop_input =
    OpenOk | OpenErr | DeadlinePassed | RetryTick nat
  | Presence agent_id string nat | OtherEvent | StreamError | StreamEnd
  | SweepTick nat | ManualRetry nat | RetryClosed

record run_loop =
  l_phase :: loop_phase
  l_backoff_secs :: nat
  l_driver :: driver

definition min_backoff :: nat where "min_backoff = 1"
definition max_backoff :: nat where "max_backoff = 60"

definition loop_start :: "driver \<Rightarrow> run_loop" where
  "loop_start d = \<lparr> l_phase = Opening, l_backoff_secs = min_backoff, l_driver = boot_sweep d \<rparr>"

fun loop_step :: "vault_env \<Rightarrow> outbox_transport \<Rightarrow> run_loop \<Rightarrow> loop_input \<Rightarrow> run_loop" where
  "loop_step V T l i =
     (case (l_phase l, i) of
        (Opening, OpenOk) \<Rightarrow> l\<lparr> l_phase := Streaming, l_backoff_secs := min_backoff \<rparr>
      | (Opening, OpenErr) \<Rightarrow> l\<lparr> l_phase := Waiting \<rparr>
      | (Waiting, DeadlinePassed) \<Rightarrow>
          l\<lparr> l_phase := Opening, l_backoff_secs := min (l_backoff_secs l * 2) max_backoff \<rparr>
      | (Waiting, RetryTick now) \<Rightarrow> l\<lparr> l_driver := flush_due V T now (l_driver l) \<rparr>
      | (Streaming, Presence a e now) \<Rightarrow>
          l\<lparr> l_driver := on_presence V T now a (e = ''online'') (l_driver l) \<rparr>
      | (Streaming, OtherEvent) \<Rightarrow> l
      | (Streaming, StreamError) \<Rightarrow> l\<lparr> l_phase := Opening \<rparr>
      | (Streaming, StreamEnd) \<Rightarrow> l\<lparr> l_phase := Opening \<rparr>
      | (Streaming, SweepTick now) \<Rightarrow> l\<lparr> l_driver := sweep_stalled V T now (l_driver l) \<rparr>
      | (Streaming, ManualRetry now) \<Rightarrow> l\<lparr> l_driver := flush_all V T now (l_driver l) \<rparr>
      | (Streaming, RetryClosed) \<Rightarrow> l\<lparr> l_phase := Opening \<rparr>
      | _ \<Rightarrow> l)"

declare loop_step.simps [simp del]

end
