(* ===== verification/Outbox_Driver_Properties.thy ===== *)
theory Outbox_Driver_Properties
  imports Outbox_Driver
begin

text \<open>
  What the retry driver sends: exactly the eligible bubbles that no task has in flight, each at
  most once per flush; what the clock, the sweep and the run loop guarantee, and where the run
  loop does not ask the clock.
\<close>

subsection \<open>Claims\<close>

lemma claim_all_inner [simp]:
  "os_inner (snd (claim_all t bs s)) = os_inner s" "os_persist (snd (claim_all t bs s)) = os_persist s"
  by (induction bs arbitrary: s) (auto simp: try_mark_inflight_def case_prod_beta)

lemma claim_all_claims:
  "distinct (map b_id bs) \<Longrightarrow>
   fst (claim_all t bs s) = filter (\<lambda>b. hm_get (os_inflight s) (b_id b) = None) bs"
proof (induction bs arbitrary: s)
  case Nil
  then show ?case by simp
next
  case (Cons b bs)
  let ?s = "snd (try_mark_inflight (b_id b) t s)"
  have ne: "b_id c \<noteq> b_id b" if "c \<in> set bs" for c
    using Cons.prems that by (metis distinct.simps(2) image_eqI list.set_map list.simps(9))
  have "filter (\<lambda>c. hm_get (os_inflight ?s) (b_id c) = None) bs =
        filter (\<lambda>c. hm_get (os_inflight s) (b_id c) = None) bs"
    by (intro filter_cong refl) (simp add: try_mark_inflight_def hm_simps ne)
  with Cons show ?case by (auto simp: try_mark_inflight_def case_prod_beta)
qed

lemma claim_all_inflight:
  "hm_get (os_inflight (snd (claim_all t bs s))) k =
     (if k \<in> b_id ` set bs then Some t else hm_get (os_inflight s) k)"
  by (induction bs arbitrary: s) (auto simp: try_mark_inflight_def hm_simps case_prod_beta)

lemma claim_all_inv: "store_inv s \<Longrightarrow> store_inv (snd (claim_all t bs s))"
  by (induction bs arbitrary: s) (simp_all add: Let_def case_prod_beta store_inv_claims)

lemma snapshot_ids: "store_inv s \<Longrightarrow> map b_id (snapshot s) = map fst (os_inner s)"
  by (auto simp: snapshot_def hm_values_def store_inv_def hm_get_iff)

lemma snapshot_distinct: "store_inv s \<Longrightarrow> distinct (map b_id (snapshot s))"
  using snapshot_ids by (auto simp: store_inv_def hm_wf_def)

lemma snapshot_iff: "store_inv s \<Longrightarrow> b \<in> set (snapshot s) \<longleftrightarrow> hm_get (os_inner s) (b_id b) = Some b"
  by (auto simp: snapshot_def hm_values_iff store_inv_def)

lemma distinct_map_filter_id: "distinct (map b_id bs) \<Longrightarrow> distinct (map b_id (filter P bs))"
  by (rule distinct_map_filter)

subsection \<open>One send\<close>

lemma send_one_sent [simp]: "d_sent (send_one V T t c d) = d_sent d @ [c]"
  by (simp add: send_one_def Let_def case_prod_beta)

lemma send_one_pace [simp]:
  "d_retry_pace (send_one V T t c d) = d_retry_pace d" "d_last_online (send_one V T t c d) = d_last_online d"
  by (simp_all add: send_one_def Let_def case_prod_beta)

lemma fold_send_sent [simp]: "d_sent (fold (send_one V T t) cs d) = d_sent d @ cs"
  by (induction cs arbitrary: d) auto

lemma fold_send_pace [simp]:
  "d_retry_pace (fold (send_one V T t) cs d) = d_retry_pace d"
  "d_last_online (fold (send_one V T t) cs d) = d_last_online d"
  by (induction cs arbitrary: d) auto

definition quiet :: "outbox_transport \<Rightarrow> bool" where
  "quiet T \<longleftrightarrow> (\<forall>b. r_meanwhile (T b) = [])"

definition polite :: "outbox_transport \<Rightarrow> bool" where
  "polite T \<longleftrightarrow> (\<forall>b. list_all op_fresh (r_meanwhile (T b)))"

lemma quiet_polite: "quiet T \<Longrightarrow> polite T"
  by (simp add: quiet_def polite_def)

lemma send_one_inv: "polite T \<Longrightarrow> store_inv (d_store d) \<Longrightarrow> store_inv (d_store (send_one V T t c d))"
  using outbox.run_inv [of "(d_store d, d_files d)" "r_meanwhile (T c)"]
  by (simp add: send_one_def Let_def case_prod_beta polite_def store_inv_outcome store_inv_claims)

lemma fold_send_inv: "polite T \<Longrightarrow> store_inv (d_store d) \<Longrightarrow> store_inv (d_store (fold (send_one V T t) cs d))"
  by (induction cs arbitrary: d) (auto simp: send_one_inv)

lemma outcome_other:
  "k \<noteq> bid \<Longrightarrow> hm_get (os_inner (fst (snd (record_send_outcome V bid m f t sf)))) k = hm_get (os_inner (fst sf)) k"
  by (cases rule: record_send_outcome_cases [of V bid m f t sf]) (auto simp: hm_simps)

lemma outcome_inflight [simp]:
  "os_inflight (fst (snd (record_send_outcome V bid m f t sf))) = os_inflight (fst sf)"
  by (cases rule: record_send_outcome_cases [of V bid m f t sf]) auto

lemma send_one_quiet:
  assumes "quiet T"
  shows "hm_get (os_inflight (d_store (send_one V T t c d))) k =
           (if k = b_id c then None else hm_get (os_inflight (d_store d)) k)"
    and "k \<noteq> b_id c \<Longrightarrow> hm_get (os_inner (d_store (send_one V T t c d))) k = hm_get (os_inner (d_store d)) k"
  using assms by (simp_all add: send_one_def Let_def case_prod_beta quiet_def clear_inflight_def hm_simps outcome_other)

lemma fold_send_quiet:
  assumes "quiet T"
  shows "hm_get (os_inflight (d_store (fold (send_one V T t) cs d))) k =
           (if k \<in> b_id ` set cs then None else hm_get (os_inflight (d_store d)) k)"
    and "k \<notin> b_id ` set cs \<Longrightarrow>
         hm_get (os_inner (d_store (fold (send_one V T t) cs d))) k = hm_get (os_inner (d_store d)) k"
  by (induction cs arbitrary: d) (auto simp: send_one_quiet [OF assms])

subsection \<open>One flush\<close>

definition candidates_of :: "agent_id \<Rightarrow> (outbox_bubble \<Rightarrow> bool) \<Rightarrow> driver \<Rightarrow> outbox_bubble list" where
  "candidates_of peer eligible d = filter (\<lambda>b. b_peer b = peer \<and> eligible b) (snapshot (d_store d))"

definition claims_of :: "agent_id \<Rightarrow> (outbox_bubble \<Rightarrow> bool) \<Rightarrow> driver \<Rightarrow> outbox_bubble list" where
  "claims_of peer eligible d =
     filter (\<lambda>b. hm_get (os_inflight (d_store d)) (b_id b) = None) (candidates_of peer eligible d)"

lemma flush_matching_eq:
  assumes "store_inv (d_store d)"
  shows "flush_matching V T peer eligible t d =
    fold (send_one V T t) (claims_of peer eligible d)
      (d\<lparr> d_store := snd (claim_all t (candidates_of peer eligible d) (d_store d)),
         d_retry_pace := fold (stamp_pace t) (claims_of peer eligible d) (d_retry_pace d) \<rparr>)"
proof -
  have "distinct (map b_id (candidates_of peer eligible d))"
    using snapshot_distinct [OF assms] by (auto simp: candidates_of_def intro: distinct_map_filter_id)
  from claim_all_claims [OF this, of t "d_store d"] show ?thesis
    by (simp add: flush_matching_def claims_of_def candidates_of_def Let_def case_prod_beta)
qed

lemma flush_sent: "store_inv (d_store d) \<Longrightarrow>
  d_sent (flush_matching V T peer eligible t d) = d_sent d @ claims_of peer eligible d"
  by (simp add: flush_matching_eq)

lemma flush_inv: "polite T \<Longrightarrow> store_inv (d_store d) \<Longrightarrow> store_inv (d_store (flush_matching V T peer eligible t d))"
  by (simp add: flush_matching_eq fold_send_inv claim_all_inv)

lemma claims_of_iff:
  assumes "store_inv (d_store d)"
  shows "b \<in> set (claims_of peer eligible d) \<longleftrightarrow>
    hm_get (os_inner (d_store d)) (b_id b) = Some b \<and> b_peer b = peer \<and> eligible b \<and>
    hm_get (os_inflight (d_store d)) (b_id b) = None"
  using snapshot_iff [OF assms] by (auto simp: claims_of_def candidates_of_def)

lemma flush_inflight:
  assumes "quiet T" and "store_inv (d_store d)"
  shows "hm_get (os_inflight (d_store (flush_matching V T peer eligible t d))) k =
    (if k \<in> b_id ` set (claims_of peer eligible d) then None
     else if k \<in> b_id ` set (candidates_of peer eligible d) then Some t
     else hm_get (os_inflight (d_store d)) k)"
  by (simp add: flush_matching_eq [OF assms(2)] fold_send_quiet [OF assms(1)] claim_all_inflight)

lemma flush_other:
  assumes "quiet T" and "store_inv (d_store d)"
    and "hm_get (os_inner (d_store d)) k = Some b" and "b_peer b \<noteq> peer"
  shows "hm_get (os_inner (d_store (flush_matching V T peer eligible t d))) k = Some b"
    and "hm_get (os_inflight (d_store (flush_matching V T peer eligible t d))) k =
         hm_get (os_inflight (d_store d)) k"
proof -
  have "k \<notin> b_id ` set (candidates_of peer eligible d)"
    using assms(2-4) snapshot_iff [OF assms(2)] by (auto simp: candidates_of_def)
  moreover from this have "k \<notin> b_id ` set (claims_of peer eligible d)"
    by (auto simp: claims_of_def)
  ultimately show "hm_get (os_inner (d_store (flush_matching V T peer eligible t d))) k = Some b"
    and "hm_get (os_inflight (d_store (flush_matching V T peer eligible t d))) k =
         hm_get (os_inflight (d_store d)) k"
    using assms flush_inflight [OF assms(1,2)]
    by (simp_all add: flush_matching_eq fold_send_quiet [OF assms(1)] claim_all_inflight)
qed

subsection \<open>Flushes of several peers\<close>

lemma distinct_peers_set: "set (distinct_peers seen ps) = set ps - set seen"
  by (induction seen ps rule: distinct_peers.induct) auto

lemma distinct_peers_distinct: "distinct (distinct_peers seen ps)"
  by (induction seen ps rule: distinct_peers.induct) (auto simp: distinct_peers_set)

lemma flushes_grow:
  assumes "polite T" and "store_inv (d_store d)"
  shows "\<exists>ys. d_sent (fold (\<lambda>p. flush_matching V T p eligible t) ps d) = d_sent d @ ys"
  using assms(2)
proof (induction ps arbitrary: d)
  case Nil
  then show ?case by simp
next
  case (Cons p ps)
  have "store_inv (d_store (flush_matching V T p eligible t d))"
    using Cons.prems by (rule flush_inv [OF assms(1)])
  from Cons.IH [OF this] show ?case using Cons.prems by (auto simp: flush_sent)
qed

lemma flushes_reach:
  assumes "quiet T" and "store_inv (d_store d)" and "distinct ps" and "b_peer b \<in> set ps"
    and "hm_get (os_inner (d_store d)) (b_id b) = Some b" and "eligible b"
    and "hm_get (os_inflight (d_store d)) (b_id b) = None"
  shows "\<exists>ys. d_sent (fold (\<lambda>p. flush_matching V T p eligible t) ps d) = d_sent d @ ys \<and> b \<in> set ys"
  using assms(2-5,7)
proof (induction ps arbitrary: d)
  case Nil
  then show ?case by simp
next
  case (Cons p ps)
  let ?d = "flush_matching V T p eligible t d"
  have inv: "store_inv (d_store ?d)"
    using Cons.prems(1) assms(1) by (intro flush_inv quiet_polite)
  show ?case
  proof (cases "b_peer b = p")
    case True
    then have "b \<in> set (claims_of p eligible d)"
      using Cons.prems assms(6) by (simp add: claims_of_iff)
    then show ?thesis
      using flushes_grow [OF quiet_polite [OF assms(1)] inv, of V eligible t ps] Cons.prems(1)
      by (auto simp: flush_sent)
  next
    case False
    with Cons.prems have "hm_get (os_inner (d_store ?d)) (b_id b) = Some b"
      and "hm_get (os_inflight (d_store ?d)) (b_id b) = None"
      using flush_other [OF assms(1) Cons.prems(1,4) False] by auto
    from Cons.IH [OF inv _ _ this] False Cons.prems show ?thesis by (auto simp: flush_sent)
  qed
qed


subsection \<open>A concrete driver\<close>

definition demo_receipt :: send_receipt where
  "demo_receipt = \<lparr> sr_accepted_at_ms = 1, sr_message_id = Some ''m1'', sr_transport_name = ''relay'' \<rparr>"

definition demo_transport :: outbox_transport where
  "demo_transport b = \<lparr> r_result = Inr demo_receipt, r_meanwhile = [] \<rparr>"

definition demo_driver :: "(string, nat) hmap \<Rightarrow> driver" where
  "demo_driver claims = \<lparr> d_store = demo_store\<lparr> os_inflight := claims \<rparr>, d_files = Map.empty,
     d_last_online = hm_empty, d_retry_pace = hm_empty, d_events = [], d_sent = [] \<rparr>"

definition demo_loop :: run_loop where
  "demo_loop = \<lparr> l_phase = Streaming, l_backoff_secs = 1, l_driver = demo_driver hm_empty \<rparr>"

lemma demo_quiet: "quiet demo_transport"
  by (simp add: quiet_def demo_transport_def)

lemma demo_driver_inv: "hm_wf c \<Longrightarrow> store_inv (d_store (demo_driver c))"
  by (simp add: demo_driver_def store_inv_inflight demo_store_inv)

lemma demo_driver_bubble:
  "hm_get (os_inner (d_store (demo_driver c))) ''b1'' = Some demo_bubble"
  "b_id demo_bubble = ''b1''" "b_peer demo_bubble = ''peer''" "b_status demo_bubble = Queued"
  "os_inflight (d_store (demo_driver c)) = c" "d_sent (demo_driver c) = []"
  "d_retry_pace (demo_driver c) = hm_empty"
  by (simp_all add: demo_driver_def demo_store_def demo_map_def hm_get_def demo_bubble_def queued_def
      with_dm_payload_def)

lemma demo_claim: "hm_get [(''b1'', 7)] ''b1'' = Some (7::nat)" "hm_wf [(''b1'', 7::nat)]"
  by (simp_all add: hm_get_def hm_wf_def)

lemma demo_retryable: "is_retryable demo_bubble" "is_queued_retryable demo_bubble"
  by (simp_all add: is_retryable_def is_queued_retryable_def demo_driver_bubble)

subsection \<open>Properties\<close>

text \<open>
  (C21) One flush sends exactly the stored bubbles of the peer that are eligible and that no
  other send has in flight, each once. This holds whatever the transport answers and whatever
  other tasks do to the outbox while the sends are awaited: the claim, not the state, is what
  prevents a double send.
\<close>

theorem flush_sends_exactly:
  assumes "store_inv (d_store d)"
  shows "\<exists>claims. d_sent (flush_matching V T peer eligible t d) = d_sent d @ claims \<and>
     distinct (map b_id claims) \<and>
     (\<forall>b. b \<in> set claims \<longleftrightarrow>
        os_get (d_store d) (b_id b) = Some b \<and> b_peer b = peer \<and> eligible b \<and>
        hm_get (os_inflight (d_store d)) (b_id b) = None)"
proof (intro exI conjI)
  show "d_sent (flush_matching V T peer eligible t d) = d_sent d @ claims_of peer eligible d"
    by (rule flush_sent [OF assms])
  show "distinct (map b_id (claims_of peer eligible d))"
    using snapshot_distinct [OF assms]
    by (auto simp: claims_of_def candidates_of_def intro!: distinct_map_filter_id)
  show "\<forall>b. b \<in> set (claims_of peer eligible d) \<longleftrightarrow>
      os_get (d_store d) (b_id b) = Some b \<and> b_peer b = peer \<and> eligible b \<and>
      hm_get (os_inflight (d_store d)) (b_id b) = None"
    by (simp add: claims_of_iff [OF assms] os_get_def)
qed

theorem flush_sends_exactly_witness:
  "\<exists>claims. d_sent (flush_matching demo_vault demo_transport ''peer'' is_retryable 9 (demo_driver hm_empty)) =
      claims \<and> demo_bubble \<in> set claims"
  using flush_sends_exactly [OF demo_driver_inv, of hm_empty demo_vault demo_transport "''peer''" is_retryable 9]
    demo_retryable by (auto simp: demo_driver_bubble os_get_def)

text \<open>
  The clock-driven retry reaches every message no relay has: when \<open>flush_due\<close> runs, each
  queued bubble that is not in flight and whose backoff has elapsed (or that this driver never
  attempted) is handed to the transport, whatever happened to the bubbles of the peers flushed
  before it.
\<close>

lemma flush_due_reaches_queued:
  assumes "quiet T" and "store_inv (d_store d)" and "hm_wf (d_retry_pace d)"
    and "os_get (d_store d) (b_id b) = Some b" and "b_status b = Queued"
    and "hm_get (os_inflight (d_store d)) (b_id b) = None"
    and "pace_due now (hm_get (d_retry_pace d) (b_id b))"
  shows "\<exists>ys. d_sent (flush_due V T now d) = d_sent d @ ys \<and> b \<in> set ys"
proof -
  let ?queued = "filter is_queued_retryable (snapshot (d_store d))"
  let ?pace = "hm_retain (\<lambda>bid _. bid \<in> set (map b_id ?queued)) (d_retry_pace d)"
  let ?ps = "distinct_peers [] (map b_peer (filter (\<lambda>b. pace_due now (hm_get ?pace (b_id b))) ?queued))"
  have elig: "is_queued_retryable b" using assms(5) by (simp add: is_queued_retryable_def is_retryable_def)
  have mem: "b \<in> set ?queued"
    using assms(2,4) elig by (simp add: snapshot_iff os_get_def)
  then have "hm_get ?pace (b_id b) = hm_get (d_retry_pace d) (b_id b)"
    by (auto simp: hm_get_retain [OF assms(3)] split: option.splits)
  then have "b_peer b \<in> set ?ps"
    using mem assms(7) by (auto simp: distinct_peers_set)
  from flushes_reach [where d = "d\<lparr> d_retry_pace := ?pace \<rparr>" and eligible = is_queued_retryable,
      OF assms(1) _ distinct_peers_distinct this] assms(2,4,6) elig
  show ?thesis by (simp add: flush_due_def Let_def os_get_def)
qed

text \<open>
  The stalled-claim sweep un-wedges a message: when the claim on a retryable bubble is at
  least fifteen minutes old, the sweep releases it and sends the bubble again.
\<close>

lemma sweep_resends_stalled:
  assumes "quiet T" and "store_inv (d_store d)" and "os_get (d_store d) (b_id b) = Some b"
    and "is_retryable b" and "hm_get (os_inflight (d_store d)) (b_id b) = Some claimed"
    and "stalled_claim_ms \<le> now - claimed"
  shows "\<exists>ys. d_sent (sweep_stalled V T now d) = d_sent d @ ys \<and> b \<in> set ys"
proof -
  let ?P = "\<lambda>(bid, claimed_at). now - claimed_at \<ge> stalled_claim_ms
      \<and> (case hm_get (os_inner (d_store d)) bid of None \<Rightarrow> False | Some b \<Rightarrow> \<not> is_terminal (b_status b))"
  let ?stalled = "map fst (filter ?P (os_inflight (d_store d)))"
  let ?s = "snd (clear_stalled_inflight now stalled_claim_ms (d_store d))"
  have wf: "hm_wf (os_inflight (d_store d))" using assms(2) by (simp add: store_inv_def)
  have "\<not> is_terminal (b_status b)" using assms(4) terminal_not_retryable by blast
  then have mem: "b_id b \<in> set ?stalled"
    using assms(3,5,6) hm_get_in_set [OF assms(5)] by (force simp: os_get_def)
  have none: "hm_get (os_inflight ?s) (b_id b) = None"
    using mem hm.get_fold_remove [OF wf, of ?stalled] by (simp add: clear_stalled_inflight_def Let_def)
  have "b \<in> set (fst (clear_stalled_inflight now stalled_claim_ms (d_store d)))"
    using mem assms(3) by (force simp: clear_stalled_inflight_def Let_def List.map_filter_def os_get_def)
  then have peer: "b_peer b \<in> set (distinct_peers [] (map b_peer
      (fst (clear_stalled_inflight now stalled_claim_ms (d_store d)))))"
    by (simp add: distinct_peers_set)
  from flushes_reach [where d = "d\<lparr> d_store := ?s \<rparr>" and eligible = is_retryable,
      OF assms(1) _ distinct_peers_distinct peer] none assms(2,3,4)
  show ?thesis by (simp add: sweep_stalled_def Let_def case_prod_beta os_get_def store_inv_claims)
qed

text \<open>
  (C30) A refused claim restarts the stall clock. \<^verbatim>\<open>try_mark_inflight\<close> overwrites the time of
  the claim it fails to take, so a presence edge (or any other flush of the peer) at \<open>t1\<close>
  makes an orphaned claim young again: a sweep less than fifteen minutes after the edge leaves
  the message wedged, however long ago the claim was really taken.
\<close>

theorem refused_claim_restarts_stall_clock:
  assumes "quiet T" and "store_inv (d_store d)" and "os_get (d_store d) (b_id b) = Some b"
    and "is_retryable b" and "hm_get (os_inflight (d_store d)) (b_id b) = Some taken"
    and "t2 - t1 < stalled_claim_ms"
  shows "hm_get (os_inflight (snd (clear_stalled_inflight t2 stalled_claim_ms
           (d_store (flush_peer V T t1 (b_peer b) d))))) (b_id b) = Some t1"
proof -
  let ?s = "d_store (flush_peer V T t1 (b_peer b) d)"
  have "b \<in> set (candidates_of (b_peer b) is_retryable d)"
    using assms(2,3,4) by (simp add: candidates_of_def snapshot_iff os_get_def)
  moreover have "b_id b \<notin> b_id ` set (claims_of (b_peer b) is_retryable d)"
    using assms(5) claims_of_iff [OF assms(2)] by auto
  ultimately have held: "hm_get (os_inflight ?s) (b_id b) = Some t1"
    by (auto simp: flush_peer_def flush_inflight [OF assms(1,2)])
  have "store_inv ?s"
    using assms(1,2) by (simp add: flush_peer_def flush_inv quiet_polite)
  then have wf: "hm_wf (os_inflight ?s)" by (simp add: store_inv_def)
  have "(b_id b, t) \<in> set (os_inflight ?s) \<Longrightarrow> t = t1" for t
    using held wf by (metis hm_get_iff option.inject)
  then show ?thesis
    using held assms(6) hm.get_fold_remove [OF wf]
    by (force simp: clear_stalled_inflight_def Let_def split: if_splits)
qed

theorem refused_claim_restarts_stall_clock_witness:
  "hm_get (os_inflight (snd (clear_stalled_inflight 2000000 stalled_claim_ms
     (d_store (flush_peer demo_vault demo_transport 1900000 ''peer'' (demo_driver [(''b1'', 7)])))))) ''b1''
   = Some 1900000"
  using refused_claim_restarts_stall_clock
    [OF demo_quiet demo_driver_inv, of "[(''b1'', 7)]" demo_bubble 7 2000000 1900000 demo_vault]
  by (simp add: demo_driver_bubble os_get_def demo_retryable stalled_claim_ms_def demo_claim)


subsection \<open>Pacing\<close>

text \<open>
  The backoff of a bubble starts at fifteen seconds, doubles with every attempt until the
  quarter-hour ceiling, and never exceeds it: the unit shift cannot overflow and the driver
  never stops asking.
\<close>

lemma backoff_doubles_to_ceiling:
  "backoff_ms 1 = retry_backoff_base_ms \<and>
   backoff_ms (Suc (Suc n)) = min (2 * backoff_ms (Suc n)) retry_backoff_max_ms \<and>
   retry_backoff_base_ms \<le> backoff_ms n \<and> backoff_ms n \<le> retry_backoff_max_ms"
proof -
  have exact: "backoff_ms (Suc m) = min (15000 * 2 ^ min m 6) 900000" for m
  proof -
    have "(2::nat) ^ min m 6 \<le> 2 ^ 6" by (intro power_increasing) auto
    then show ?thesis
      by (simp add: backoff_ms_def retry_backoff_base_ms_def retry_backoff_max_ms_def sat_simps)
  qed
  have first: "backoff_ms 1 = 15000" using exact [of 0] by simp
  have double: "backoff_ms (Suc (Suc n)) = min (2 * backoff_ms (Suc n)) 900000"
  proof (cases "n < 6")
    case True
    then have "min (Suc n) 6 = Suc n" "min n 6 = n" by auto
    then show ?thesis unfolding exact by simp
  next
    case False
    then have "min (Suc n) 6 = 6" "min n 6 = 6" by auto
    then show ?thesis unfolding exact by simp
  qed
  have "backoff_ms 0 = backoff_ms (Suc 0)" by (simp add: backoff_ms_def)
  then have "15000 \<le> backoff_ms n" "backoff_ms n \<le> 900000"
    using exact [of "n - 1"] by (cases n; simp)+
  with first double show ?thesis
    by (simp only: retry_backoff_base_ms_def retry_backoff_max_ms_def) simp
qed

subsection \<open>The run loop\<close>

text \<open>
  The inputs of a calm night with the event stream up: the retry clock ticks, the sweep ticks,
  peers go offline, other events pass by. Nobody comes online and nobody presses Retry.
\<close>

fun calm :: "loop_input \<Rightarrow> bool" where
  "calm (RetryTick _) = True"
| "calm (SweepTick _) = True"
| "calm OtherEvent = True"
| "calm (Presence _ e _) = (e \<noteq> ''online'')"
| "calm _ = False"

definition idle :: "run_loop \<Rightarrow> bool" where
  "idle l \<longleftrightarrow> l_phase l = Streaming \<and> os_inflight (d_store (l_driver l)) = hm_empty"

definition same_outbox :: "run_loop \<Rightarrow> run_loop \<Rightarrow> bool" where
  "same_outbox l l' \<longleftrightarrow> d_store (l_driver l') = d_store (l_driver l)
     \<and> d_sent (l_driver l') = d_sent (l_driver l) \<and> d_events (l_driver l') = d_events (l_driver l)"

lemma sweep_nothing: "os_inflight (d_store d) = hm_empty \<Longrightarrow> sweep_stalled V T t d = d"
  by (simp add: sweep_stalled_def clear_stalled_inflight_def Let_def)

lemma calm_step:
  "idle l \<Longrightarrow> calm i \<Longrightarrow> idle (loop_step V T l i) \<and> same_outbox l (loop_step V T l i)"
  by (cases i) (auto simp: loop_step.simps idle_def same_outbox_def sweep_nothing on_presence_def Let_def)

interpretation streaming: monotone_system "loop_step V T" calm idle same_outbox for V T
  by unfold_locales (auto simp: calm_step, auto simp: same_outbox_def)

text \<open>
  (C29) While the event stream is open the retry clock is not asked. The \<^verbatim>\<open>select!\<close> of the open
  stream has no \<^verbatim>\<open>retry.tick()\<close> arm, so from an idle streaming loop no sequence of clock ticks,
  sweeps, offline edges and other events ever sends anything: a message queued with no claim
  stays queued and unsent until a peer's online edge, a manual retry or the loss of the stream.
\<close>

theorem open_stream_starves_retry_clock:
  assumes "idle l" and "list_all calm is"
  shows "same_outbox l (foldl (loop_step V T) l is) \<and> l_phase (foldl (loop_step V T) l is) = Streaming"
  using streaming.run_below [OF assms] streaming.run_inv [OF assms] by (simp add: idle_def)

theorem open_stream_starves_retry_clock_witness:
  "same_outbox demo_loop (foldl (loop_step demo_vault demo_transport) demo_loop
     [RetryTick 20000, Presence ''peer'' ''offline'' 30000, SweepTick 300000, RetryTick 1000000]) \<and>
   is_queued_retryable demo_bubble \<and>
   hm_get (os_inner (d_store (l_driver demo_loop))) ''b1'' = Some demo_bubble"
proof -
  have "idle demo_loop" by (simp add: idle_def demo_loop_def demo_driver_bubble)
  from open_stream_starves_retry_clock [OF this,
      of "[RetryTick 20000, Presence ''peer'' ''offline'' 30000, SweepTick 300000, RetryTick 1000000]"
         demo_vault demo_transport]
  show ?thesis by (simp add: demo_retryable demo_driver_bubble demo_loop_def)
qed

subsection \<open>The router\<close>

definition usable :: "agent_id \<Rightarrow> ('env, 'hints) transport list \<Rightarrow> ('env, 'hints) transport list" where
  "usable to ts = filter (\<lambda>t. t_reachability t to \<noteq> No) ts"

definition accepting ::
  "agent_id \<Rightarrow> 'env \<Rightarrow> 'hints option \<Rightarrow> ('env, 'hints) transport list \<Rightarrow> ('env, 'hints) transport list" where
  "accepting to env hints ts = filter (\<lambda>t. \<not> isl (t_send t to env hints)) (usable to ts)"

lemma usable_simps:
  "usable to [] = []" "accepting to env hints [] = []"
  "usable to (t # ts) = (if t_reachability t to = No then usable to ts else t # usable to ts)"
  "accepting to env hints (t # ts) =
     (if t_reachability t to = No \<or> isl (t_send t to env hints) then accepting to env hints ts
      else t # accepting to env hints ts)"
  by (simp_all add: usable_def accepting_def)

lemma router_loop_result:
  "router_loop ts to env hints seen err =
     (if accepting to env hints ts \<noteq> [] then t_send (hd (accepting to env hints ts)) to env hints
      else if usable to ts \<noteq> [] then t_send (last (usable to ts)) to env hints
      else router_loop [] to env hints seen err)"
proof (induction ts arbitrary: seen err)
  case Nil
  show ?case by (simp add: usable_simps)
next
  case (Cons t ts)
  show ?case
    by (cases "t_send t to env hints"; cases "t_reachability t to = No")
       (simp_all add: usable_simps Cons.IH [of True] Cons.IH [of seen err])
qed

text \<open>
  The router returns the answer of the first reachable transport that accepts the message,
  trying them in order; when every reachable transport fails it returns the error of the last
  one, and it reports \<^verbatim>\<open>NoTransportAvailable\<close> when there is none to try.
\<close>

lemma router_first_success:
  "router_send ts to env hints =
     (if accepting to env hints ts \<noteq> [] then t_send (hd (accepting to env hints ts)) to env hints
      else if usable to ts \<noteq> [] then t_send (last (usable to ts)) to env hints
      else Inl NoTransportAvailable)"
proof (cases ts)
  case Nil
  then show ?thesis by (simp add: router_send_def usable_simps)
next
  case (Cons t us)
  then have "router_send ts to env hints = router_loop ts to env hints False None"
    by (simp add: router_send_def)
  then show ?thesis by (simp add: router_loop_result [of ts])
qed

end
