(* ===== verification/Transcript_Overlay.thy ===== *)
theory Transcript_Overlay
  imports Outbox_Bubble
begin

text \<open>
  Folding the live outbox onto a persisted transcript
  (\<^verbatim>\<open>fetchit-chat/src/outbox/overlay.rs\<close>): the accumulated slots per message id, and the
  reconciled state of every entry as a function of the entry and of the copies of its message.
\<close>

subsection \<open>The code\<close>

type_synonym live_slot = "(send_state \<times> nat) \<times> nat option"

definition anchors_of :: "outbox_bubble \<Rightarrow> string list" where
  "anchors_of b =
     (case b_group b of Some g \<Rightarrow> [go_client_message_id g] | None \<Rightarrow> []) @
     (case b_message_id b of Some m \<Rightarrow> [m] | None \<Rightarrow> []) @ b_prior_message_ids b"

definition candidate_of :: "outbox_bubble \<Rightarrow> send_state \<times> nat" where
  "candidate_of b = (b_status b, b_state_changed_at_ms b)"

definition delivered_at_of :: "outbox_bubble \<Rightarrow> nat option" where
  "delivered_at_of b = (if b_status b = Delivered then Some (b_state_changed_at_ms b) else None)"

definition slot_update :: "outbox_bubble \<Rightarrow> live_slot option \<Rightarrow> live_slot" where
  "slot_update b old =
     (let candidate = candidate_of b; delivered_at = delivered_at_of b;
          slot = (case old of Some s \<Rightarrow> s | None \<Rightarrow> (candidate, delivered_at));
          lowest = (if fst candidate < fst (fst slot) then candidate else fst slot);
          receipt = (case snd slot of Some t \<Rightarrow> Some t | None \<Rightarrow> delivered_at)
      in (lowest, receipt))"

definition add_anchor ::
  "outbox_bubble \<Rightarrow> (string, live_slot) hmap \<Rightarrow> string \<Rightarrow> (string, live_slot) hmap" where
  "add_anchor b live anchor =
     (if anchor = [] then live else hm_insert anchor (slot_update b (hm_get live anchor)) live)"

definition add_bubble :: "(string, live_slot) hmap \<Rightarrow> outbox_bubble \<Rightarrow> (string, live_slot) hmap" where
  "add_bubble live b = foldl (add_anchor b) live (anchors_of b)"

definition overlay_entry :: "(string, live_slot) hmap \<Rightarrow> history_entry \<Rightarrow> history_entry" where
  "overlay_entry live e =
     (case hm_get live (h_message_id e) of
        None \<Rightarrow> e
      | Some (lowest, delivered_at) \<Rightarrow>
          (let persisted = send_progress_of e;
               (state, changed_at_ms) =
                 (if sp_state persisted = Delivered then (sp_state persisted, sp_changed_at_ms persisted)
                  else case delivered_at of
                         Some t \<Rightarrow> (Delivered, t)
                       | None \<Rightarrow> if fst lowest < sp_state persisted then lowest
                                 else (sp_state persisted, sp_changed_at_ms persisted))
           in e\<lparr> h_send_state := Some state, h_state_changed_at_ms := changed_at_ms \<rparr>))"

definition overlay_history_send_state ::
  "history_entry list \<Rightarrow> outbox_bubble list \<Rightarrow> history_entry list" where
  "overlay_history_send_state entries bubbles =
     (if bubbles = [] then entries
      else map (overlay_entry (foldl add_bubble hm_empty bubbles)) entries)"

subsection \<open>The slot of a message\<close>

text \<open>The copies of a message: the bubbles that carry its id.\<close>

definition copies :: "string \<Rightarrow> outbox_bubble list \<Rightarrow> outbox_bubble list" where
  "copies m bs = (if m = [] then [] else filter (\<lambda>b. m \<in> set (anchors_of b)) bs)"

lemma copies_Nil [simp]: "copies m [] = []"
  by (simp add: copies_def)

lemma slot_update_idem: "slot_update b (Some (slot_update b s)) = slot_update b s"
  by (auto simp: slot_update_def Let_def split: option.splits)

lemma get_add_anchors:
  "m \<noteq> [] \<Longrightarrow> hm_get (foldl (add_anchor b) live as) m =
     (if m \<in> set as then Some (slot_update b (hm_get live m)) else hm_get live m)"
  by (induction as arbitrary: live) (auto simp: add_anchor_def hm_simps slot_update_idem)

lemma get_add_anchors_empty: "hm_get (foldl (add_anchor b) live as) [] = hm_get live []"
  by (induction as arbitrary: live) (auto simp: add_anchor_def hm_simps)

definition slot_of :: "outbox_bubble list \<Rightarrow> live_slot option" where
  "slot_of cs = foldl (\<lambda>s b. Some (slot_update b s)) None cs"

lemma get_live: "hm_get (foldl add_bubble hm_empty bs) m = slot_of (copies m bs)"
proof (induction bs rule: rev_induct)
  case Nil
  then show ?case by (simp add: slot_of_def copies_def)
next
  case (snoc b bs)
  show ?case
  proof (cases "m = []")
    case True
    then show ?thesis using snoc by (simp add: add_bubble_def get_add_anchors_empty copies_def)
  next
    case False
    then show ?thesis using snoc
      by (simp add: add_bubble_def get_add_anchors copies_def slot_of_def)
  qed
qed

text \<open>The slot holds a least advanced copy and the time of the first receipt.\<close>

lemma slot_of_simps [simp]:
  "slot_of [] = None" "slot_of (cs @ [c]) = Some (slot_update c (slot_of cs))"
  "slot_of [c] = Some (slot_update c None)"
  by (simp_all add: slot_of_def)

lemma slot_of_None [simp]: "slot_of cs = None \<longleftrightarrow> cs = []"
  by (cases cs rule: rev_cases) simp_all

definition receipt_of :: "outbox_bubble list \<Rightarrow> nat option" where
  "receipt_of cs = map_option b_state_changed_at_ms (List.find (\<lambda>c. b_status c = Delivered) cs)"

lemma receipt_of_simps:
  "receipt_of [] = None"
  "receipt_of (cs @ [c]) = (case receipt_of cs of Some t \<Rightarrow> Some t | None \<Rightarrow> delivered_at_of c)"
  by (induction cs) (auto simp: receipt_of_def delivered_at_of_def)

lemma receipt_of_None: "receipt_of cs = None \<longleftrightarrow> Delivered \<notin> b_status ` set cs"
  by (simp add: receipt_of_def find_None_iff image_iff) metis

lemma receipt_of_Some:
  "receipt_of cs = Some t \<Longrightarrow> \<exists>c \<in> set cs. b_status c = Delivered \<and> b_state_changed_at_ms c = t"
  by (auto simp: receipt_of_def find_Some_iff)

lemma slot_of_spec:
  assumes "slot_of cs = Some (lowest, receipt)"
  shows "(\<exists>c \<in> set cs. candidate_of c = lowest) \<and> (\<forall>c \<in> set cs. fst lowest \<le> b_status c) \<and>
     receipt = receipt_of cs"
  using assms
proof (induction cs arbitrary: lowest receipt rule: rev_induct)
  case Nil
  then show ?case by simp
next
  case (snoc c cs)
  show ?case
  proof (cases "slot_of cs")
    case None
    then have "cs = []" by simp
    then show ?thesis using snoc.prems None
      by (auto simp: slot_update_def Let_def candidate_of_def delivered_at_of_def receipt_of_def
          split: if_splits)
  next
    case (Some s)
    obtain low rec where s: "s = (low, rec)" by (cases s)
    have IH: "(\<exists>c \<in> set cs. candidate_of c = low) \<and> (\<forall>c \<in> set cs. fst low \<le> b_status c) \<and>
     rec = receipt_of cs"
      using snoc.IH Some s by blast
    have new: "(lowest, receipt) = slot_update c (Some (low, rec))"
      using snoc.prems Some s by simp
    have low: "lowest = (if b_status c < fst low then candidate_of c else low)"
      and rcp: "receipt = (case rec of Some t \<Rightarrow> Some t | None \<Rightarrow> delivered_at_of c)"
      using new by (simp_all add: slot_update_def Let_def candidate_of_def)
    have "receipt = receipt_of (cs @ [c])"
      using IH rcp by (simp add: receipt_of_simps)
    moreover have "\<exists>c' \<in> set (cs @ [c]). candidate_of c' = lowest" using IH low by auto
    moreover have "\<forall>c' \<in> set (cs @ [c]). fst lowest \<le> b_status c'"
      using IH low by (auto simp: candidate_of_def intro: order_trans less_imp_le)
    ultimately show ?thesis by blast
  qed
qed

subsection \<open>Properties\<close>

text \<open>The state a listing should show for an entry with the given copies in flight.\<close>

definition honest_state :: "history_entry \<Rightarrow> outbox_bubble list \<Rightarrow> send_state" where
  "honest_state e cs =
     (if Delivered \<in> insert (sp_state (send_progress_of e)) (b_status ` set cs) then Delivered
      else Min (insert (sp_state (send_progress_of e)) (b_status ` set cs)))"

lemma overlay_state:
  assumes "cs \<noteq> []" and "slot_of cs = Some (lowest, receipt)"
  shows "sp_state (send_progress_of e) \<noteq> Delivered \<Longrightarrow> receipt = None \<Longrightarrow>
      honest_state e cs = min (fst lowest) (sp_state (send_progress_of e))"
    and "sp_state (send_progress_of e) = Delivered \<or> receipt \<noteq> None \<Longrightarrow> honest_state e cs = Delivered"
proof -
  have spec: "\<exists>c \<in> set cs. candidate_of c = lowest" "\<forall>c \<in> set cs. fst lowest \<le> b_status c"
    "receipt = receipt_of cs"
    using slot_of_spec [OF assms(2)] by blast+
  have rcp: "receipt \<noteq> None \<longleftrightarrow> Delivered \<in> b_status ` set cs"
    using spec(3) by (simp add: receipt_of_None)
  have low: "Min (b_status ` set cs) = fst lowest"
    using spec(1,2) by (intro Min_eqI) (auto simp: candidate_of_def)
  show "honest_state e cs = min (fst lowest) (sp_state (send_progress_of e))"
    if "sp_state (send_progress_of e) \<noteq> Delivered" "receipt = None"
    using that rcp low assms(1) by (auto simp: honest_state_def min.commute)
  show "honest_state e cs = Delivered"
    if "sp_state (send_progress_of e) = Delivered \<or> receipt \<noteq> None"
    using that rcp by (auto simp: honest_state_def)
qed


text \<open>
  The time shown with a reconciled entry is the time of the view that decided its state: the
  entry's own, a receipt's, or that of a least advanced copy.
\<close>

lemma overlay_time_of_decider:
  assumes "e' \<in> set (overlay_history_send_state [e] bubbles)"
    and "copies (h_message_id e) bubbles \<noteq> []"
  shows "(h_send_state e', h_state_changed_at_ms e') \<in>
     insert (Some (sp_state (send_progress_of e)), sp_changed_at_ms (send_progress_of e))
       ((\<lambda>c. (Some (b_status c), b_state_changed_at_ms c)) ` set (copies (h_message_id e) bubbles))"
proof -
  let ?cs = "copies (h_message_id e) bubbles"
  obtain low rec where s: "slot_of ?cs = Some (low, rec)"
    using assms(2) slot_of_None by (metis option.exhaust surj_pair)
  have spec: "\<exists>c \<in> set ?cs. candidate_of c = low"
    "rec = receipt_of ?cs"
    using slot_of_spec [OF s] by blast+
  have rcp: "\<exists>c \<in> set ?cs. b_status c = Delivered \<and> b_state_changed_at_ms c = t" if "rec = Some t" for t
    using that spec(2) by (simp add: receipt_of_Some)
  have ne: "bubbles \<noteq> []" using assms(2) by (auto simp: copies_def split: if_splits)
  have e': "e' = overlay_entry (foldl add_bubble hm_empty bubbles) e"
    using assms(1) ne by (simp add: overlay_history_send_state_def)
  let ?p = "send_progress_of e"
  have out: "(h_send_state e', h_state_changed_at_ms e') =
      (if sp_state ?p = Delivered then (Some Delivered, sp_changed_at_ms ?p)
       else case rec of Some t \<Rightarrow> (Some Delivered, t)
            | None \<Rightarrow> if fst low < sp_state ?p then (Some (fst low), snd low)
                      else (Some (sp_state ?p), sp_changed_at_ms ?p))"
    unfolding e' overlay_entry_def get_live s
    by (simp add: Let_def case_prod_beta split: option.split)
  show ?thesis
  proof (cases "sp_state ?p = Delivered")
    case True
    then show ?thesis unfolding out by simp
  next
    case False
    show ?thesis
    proof (cases rec)
      case None
      then show ?thesis using False spec(1) unfolding out by (auto simp: candidate_of_def)
    next
      case (Some t)
      then obtain c where c: "c \<in> set ?cs" "b_status c = Delivered" "b_state_changed_at_ms c = t"
        using rcp by blast
      then show ?thesis using False Some unfolding out by (auto simp: image_iff intro!: bexI [of _ c])
    qed
  qed
qed

end
