(* ===== verification/Ordered_Map.thy ===== *)
theory Ordered_Map
  imports Fetchit_Prelude
begin

text \<open>
  The model of \<^verbatim>\<open>std::collections::BTreeMap\<close>: an association list sorted by key, without
  duplicates. Iteration is the list, \<^verbatim>\<open>iter().next()\<close> its head. The laws of a keyed store are
  discharged for it, so its clients share the lemmas of \<open>keyed_store\<close>.
\<close>

named_theorems bm_simps \<open>lookup laws of the ordered map model\<close>

type_synonym ('k, 'v) bmap = "('k \<times> 'v) list"

abbreviation bm_empty :: "('k, 'v) bmap" where "bm_empty \<equiv> []"

definition bm_keys :: "('k, 'v) bmap \<Rightarrow> 'k list" where
  "bm_keys m = map fst m"

definition bm_wf :: "('k::linorder, 'v) bmap \<Rightarrow> bool" where
  "bm_wf m \<longleftrightarrow> sorted_wrt (<) (bm_keys m)"

definition bm_get :: "('k, 'v) bmap \<Rightarrow> 'k \<Rightarrow> 'v option" where
  "bm_get m k = map_of m k"

fun bm_insert :: "'k::linorder \<Rightarrow> 'v \<Rightarrow> ('k, 'v) bmap \<Rightarrow> ('k, 'v) bmap" where
  "bm_insert k v [] = [(k, v)]"
| "bm_insert k v ((k', v') # m) =
     (if k < k' then (k, v) # (k', v') # m
      else if k = k' then (k, v) # m
      else (k', v') # bm_insert k v m)"

definition bm_remove :: "'k \<Rightarrow> ('k, 'v) bmap \<Rightarrow> ('k, 'v) bmap" where
  "bm_remove k m = filter (\<lambda>(k', _). k' \<noteq> k) m"

definition bm_retain :: "('k \<Rightarrow> 'v \<Rightarrow> bool) \<Rightarrow> ('k, 'v) bmap \<Rightarrow> ('k, 'v) bmap" where
  "bm_retain P m = filter (\<lambda>(k, v). P k v) m"

subsection \<open>Laws\<close>

lemma bm_wf_Nil [simp]: "bm_wf bm_empty"
  by (simp add: bm_wf_def bm_keys_def)

lemma bm_wf_Cons: "bm_wf ((k, v) # m) \<longleftrightarrow> (\<forall>k' \<in> set (bm_keys m). k < k') \<and> bm_wf m"
  by (auto simp: bm_wf_def bm_keys_def)

lemma bm_keys_Cons [simp]: "bm_keys ((k, v) # m) = k # bm_keys m"
  by (simp add: bm_keys_def)

lemma bm_keys_Nil [simp]: "bm_keys bm_empty = []"
  by (simp add: bm_keys_def)

lemma bm_get_None: "bm_get m k = None \<longleftrightarrow> k \<notin> set (bm_keys m)"
  by (simp add: bm_get_def bm_keys_def map_of_eq_None_iff)

lemma bm_keys_insert [bm_simps]: "set (bm_keys (bm_insert k v m)) = insert k (set (bm_keys m))"
  by (induction k v m rule: bm_insert.induct) auto

lemma bm_wf_insert [simp, intro]: "bm_wf m \<Longrightarrow> bm_wf (bm_insert k v m)"
  by (induction k v m rule: bm_insert.induct) (auto simp: bm_wf_Cons bm_keys_insert)

lemma bm_get_insert [bm_simps]: "bm_get (bm_insert k v m) k' = (if k' = k then Some v else bm_get m k')"
  by (induction k v m rule: bm_insert.induct) (auto simp: bm_get_def)

lemma bm_wf_filter: "bm_wf m \<Longrightarrow> bm_wf (filter P m)"
  unfolding bm_wf_def bm_keys_def sorted_wrt_map by (rule sorted_wrt_filter)

lemma bm_wf_remove [simp, intro]: "bm_wf m \<Longrightarrow> bm_wf (bm_remove k m)"
  by (simp add: bm_remove_def bm_wf_filter)

lemma bm_wf_retain [simp, intro]: "bm_wf m \<Longrightarrow> bm_wf (bm_retain P m)"
  by (simp add: bm_retain_def bm_wf_filter)

lemma bm_get_remove [bm_simps]: "bm_get (bm_remove k m) k' = (if k' = k then None else bm_get m k')"
  by (induction m) (auto simp: bm_get_def bm_remove_def)

lemma bm_keys_remove [bm_simps]: "set (bm_keys (bm_remove k m)) = set (bm_keys m) - {k}"
  by (auto simp: bm_keys_def bm_remove_def)

lemma bm_wf_distinct: "bm_wf m \<Longrightarrow> distinct (bm_keys m)"
  by (simp add: bm_wf_def strict_sorted_iff)

lemma bm_length_keys: "bm_wf m \<Longrightarrow> length m = card (set (bm_keys m))"
  by (metis bm_keys_def bm_wf_distinct distinct_card length_map)

interpretation bm: keyed_store bm_empty bm_get bm_insert bm_remove bm_wf
  by unfold_locales (auto simp: bm_simps bm_get_def [of bm_empty])

text \<open>Dropping the first entries of a map drops its smallest keys.\<close>

lemma bm_wf_drop: "bm_wf m \<Longrightarrow> bm_wf (drop n m)"
  unfolding bm_wf_def bm_keys_def by (simp add: drop_map [symmetric] sorted_wrt_drop)

lemma bm_drop_upper:
  "bm_wf m \<Longrightarrow> n < length m \<Longrightarrow>
   set (bm_keys (drop n m)) = {k \<in> set (bm_keys m). fst (m ! n) \<le> k}"
proof (induction m arbitrary: n)
  case Nil
  then show ?case by simp
next
  case (Cons e m)
  obtain k v where e: "e = (k, v)" by (cases e)
  show ?case
  proof (cases n)
    case 0
    then show ?thesis using Cons.prems e by (auto simp: bm_wf_Cons intro: less_imp_le)
  next
    case (Suc i)
    then have "fst (m ! i) \<in> set (bm_keys m)" using Cons.prems by (auto simp: bm_keys_def)
    then have "k < fst (m ! i)" using Cons.prems e by (auto simp: bm_wf_Cons)
    then show ?thesis using Cons Suc e by (auto simp: bm_wf_Cons)
  qed
qed

end
