(* ===== verification/Seq_Gap.thy ===== *)
theory Seq_Gap
  imports Ordered_Map
begin

text \<open>
  Per-sender sequence tracking (\<^verbatim>\<open>fetchit-chat/src/conversation/seq_gap.rs\<close>): the ledger of
  one sender, the classification of an observed counter, and what the recorded holes mean.
\<close>

subsection \<open>The code\<close>

definition missing_cap :: nat where
  "missing_cap = 128"

record sender_seq_state =
  high_water :: nat
  missing :: "(nat, nat) bmap"

definition sender_seq_default :: sender_seq_state where
  "sender_seq_default = \<lparr> high_water = 0, missing = bm_empty \<rparr>"

datatype seq_observation = First | Consecutive | Gap "nat list" | FilledHole | Duplicate

text \<open>The loop that removes the oldest hole while there are more than \<^verbatim>\<open>MISSING_CAP\<close>.\<close>

function evict_oldest :: "(nat, nat) bmap \<Rightarrow> (nat, nat) bmap" where
  "evict_oldest m =
     (if length m > missing_cap
      then (case m of [] \<Rightarrow> m | (oldest, _) # _ \<Rightarrow> evict_oldest (bm_remove oldest m)) else m)"
  by pat_completeness auto
termination
  by (relation "measure length") (auto simp: bm_remove_def le_imp_less_Suc)

declare evict_oldest.simps [simp del]

text \<open>A 64-bit counter: \<^verbatim>\<open>high_water + 1\<close> wraps.\<close>

definition record_seq :: "nat \<Rightarrow> nat \<Rightarrow> sender_seq_state \<Rightarrow> seq_observation \<times> sender_seq_state" where
  "record_seq seq now_ms s =
     (if seq = 0 then (Duplicate, s)
      else if high_water s = 0 then (First, s\<lparr> high_water := seq \<rparr>)
      else if seq = (high_water s + 1) mod 2 ^ 64 then (Consecutive, s\<lparr> high_water := seq \<rparr>)
      else if seq > high_water s then
        (let first_missing = max (high_water s + 1) (seq - missing_cap);
             newly = [first_missing ..< seq];
             m = fold (\<lambda>k. bm_insert k now_ms) newly (missing s)
         in (Gap newly, s\<lparr> missing := evict_oldest m, high_water := seq \<rparr>))
      else if bm_get (missing s) seq \<noteq> None then
        (FilledHole, s\<lparr> missing := bm_remove seq (missing s) \<rparr>)
      else (Duplicate, s))"

definition stale_missing :: "nat \<Rightarrow> nat \<Rightarrow> sender_seq_state \<Rightarrow> nat list" where
  "stale_missing now_ms grace_ms s =
     map fst (filter (\<lambda>(_, detected_at). now_ms - detected_at \<ge> grace_ms) (missing s))"

subsection \<open>Eviction keeps the newest holes\<close>

lemma evict_oldest_drop:
  "bm_wf m \<Longrightarrow> evict_oldest m = drop (length m - missing_cap) m"
proof (induction m)
  case Nil
  then show ?case by (simp add: evict_oldest.simps)
next
  case (Cons e m)
  obtain k v where e: "e = (k, v)" by (cases e)
  have "bm_remove k (e # m) = m"
    using Cons.prems e by (auto simp: bm_remove_def bm_wf_Cons bm_keys_def filter_id_conv)
  then have "evict_oldest (e # m) = (if length (e # m) > missing_cap then evict_oldest m else e # m)"
    by (subst evict_oldest.simps) (simp add: e)
  then show ?case using Cons e by (auto simp: bm_wf_Cons Suc_diff_le)
qed

lemma evict_oldest_spec:
  assumes "bm_wf m"
  shows "bm_wf (evict_oldest m)" and "length (evict_oldest m) = min (length m) missing_cap"
    and "\<exists>f. set (bm_keys (evict_oldest m)) = {k \<in> set (bm_keys m). f \<le> k}"
proof -
  show "bm_wf (evict_oldest m)" "length (evict_oldest m) = min (length m) missing_cap"
    using assms by (auto simp: evict_oldest_drop bm_wf_drop)
  show "\<exists>f. set (bm_keys (evict_oldest m)) = {k \<in> set (bm_keys m). f \<le> k}"
  proof (cases "length m - missing_cap < length m")
    case True
    then show ?thesis using bm_drop_upper [OF assms True] assms by (auto simp: evict_oldest_drop)
  next
    case False
    then have "evict_oldest m = m" using assms by (cases m) (simp_all add: evict_oldest_drop missing_cap_def)
    then show ?thesis by (intro exI [of _ 0]) simp
  qed
qed

subsection \<open>The ledger tracks the holes\<close>

text \<open>The counters strictly between the first one seen and the high-water mark, from a floor on.\<close>

definition holes :: "nat \<Rightarrow> nat \<Rightarrow> nat set \<Rightarrow> nat \<Rightarrow> nat set" where
  "holes f first obs hw = {m. f \<le> m \<and> first < m \<and> m < hw \<and> m \<notin> obs}"

definition tracks :: "nat \<Rightarrow> nat set \<Rightarrow> sender_seq_state \<Rightarrow> bool" where
  "tracks first obs s \<longleftrightarrow>
     0 < first \<and> bm_wf (missing s) \<and> length (missing s) \<le> missing_cap \<and> first \<in> obs \<and>
     high_water s \<in> obs \<and> high_water s < 2 ^ 64 \<and> (\<forall>k \<in> obs. k \<le> high_water s) \<and>
     (\<exists>f. set (bm_keys (missing s)) = holes f first obs (high_water s))"

lemma keys_fold_insert:
  "set (bm_keys (fold (\<lambda>k. bm_insert k t) ks m)) = set ks \<union> set (bm_keys m)"
  by (induction ks arbitrary: m) (auto simp: bm_simps)

lemma holes_extend:
  assumes "hw \<in> obs" and "\<forall>k \<in> obs. k \<le> hw" and "first \<le> hw" and "hw < seq"
  shows "{hw + 1 ..< seq} \<union> holes f first obs hw = holes (min f hw) first (insert seq obs) seq"
proof (rule set_eqI)
  fix x
  consider "x < hw" | "x = hw" | "hw < x" by linarith
  then show "x \<in> {hw + 1 ..< seq} \<union> holes f first obs hw \<longleftrightarrow>
      x \<in> holes (min f hw) first (insert seq obs) seq"
    using assms by cases (auto simp: holes_def)
qed

lemma holes_above:
  assumes "\<forall>k \<in> obs. k \<le> hw" and "first \<le> hw" and "hw < fm"
  shows "{fm ..< seq} = holes fm first (insert seq obs) seq"
  using assms by (fastforce simp: holes_def)

lemma gap_tracks:
  fixes t :: nat
  assumes tr: "tracks first obs s" and up: "high_water s < seq" and lim: "seq < 2 ^ 64"
  defines "fm \<equiv> max (high_water s + 1) (seq - missing_cap)"
  defines "m \<equiv> fold (\<lambda>k. bm_insert k t) [fm ..< seq] (missing s)"
  shows "tracks first (insert seq obs) (s\<lparr> missing := evict_oldest m, high_water := seq \<rparr>)"
    and "{fm ..< seq} \<subseteq> set (bm_keys (evict_oldest m))"
proof -
  obtain f where keys: "set (bm_keys (missing s)) = holes f first obs (high_water s)"
    using tr by (auto simp: tracks_def)
  have wf: "bm_wf m" using tr by (simp add: m_def tracks_def bm.wf_fold_put)
  have K: "set (bm_keys m) = {fm ..< seq} \<union> holes f first obs (high_water s)"
    by (simp add: m_def keys_fold_insert keys)
  have old: "x < y" if "x \<in> holes f first obs (high_water s)" "y \<in> {fm ..< seq}" for x y
    using that by (auto simp: holes_def fm_def)
  have new: "card {fm ..< seq} \<le> missing_cap" by (simp add: fm_def)
  note ev = evict_oldest_spec [OF wf]
  obtain g where E: "set (bm_keys (evict_oldest m)) = {k \<in> set (bm_keys m). g \<le> k}" using ev(3) by blast
  have cardE: "card (set (bm_keys (evict_oldest m))) = min (card (set (bm_keys m))) missing_cap"
    using ev(1,2) wf by (simp add: bm_length_keys)
  have cardK: "card {fm ..< seq} \<le> card (set (bm_keys m))" by (rule card_mono) (auto simp: K [symmetric], auto simp: K)
  show incl: "{fm ..< seq} \<subseteq> set (bm_keys (evict_oldest m))"
  proof (rule ccontr)
    assume "\<not> ?thesis"
    then obtain x where x0: "x \<in> {fm ..< seq}" "x \<notin> set (bm_keys (evict_oldest m))" by blast
    then have x: "x \<in> {fm ..< seq}" "x < g" using E K by auto
    then have "set (bm_keys (evict_oldest m)) \<subseteq> {fm ..< seq} - {x}"
      using E K old by fastforce
    then have "card (set (bm_keys (evict_oldest m))) < card {fm ..< seq}"
      using x(1) by (metis card_Diff1_less card_mono finite_Diff finite_atLeastLessThan le_less_trans)
    then show False using cardE cardK new by simp
  qed
  have "\<exists>f. set (bm_keys (evict_oldest m)) = holes f first (insert seq obs) seq"
  proof (cases "fm = high_water s + 1")
    case True
    have "set (bm_keys m) = holes (min f (high_water s)) first (insert seq obs) seq"
      unfolding K True using tr up by (intro holes_extend) (auto simp: tracks_def)
    then have "set (bm_keys (evict_oldest m)) = holes (max g (min f (high_water s))) first (insert seq obs) seq"
      by (auto simp: E holes_def)
    then show ?thesis by blast
  next
    case False
    then have fm: "fm = seq - missing_cap" "high_water s + 1 < fm" by (auto simp: fm_def max_def split: if_splits)
    then have full: "card {fm ..< seq} = missing_cap" by (simp add: missing_cap_def)
    have "set (bm_keys (evict_oldest m)) = {fm ..< seq}"
      using full cardE incl by (intro sym [OF card_seteq]) auto
    also have "\<dots> = holes fm first (insert seq obs) seq"
      using tr fm(2) by (intro holes_above [of _ "high_water s"]) (auto simp: tracks_def)
    finally show ?thesis by blast
  qed
  then show "tracks first (insert seq obs) (s\<lparr> missing := evict_oldest m, high_water := seq \<rparr>)"
    using tr up lim ev(1,2) by (auto simp: tracks_def)
qed


lemma record_tracks:
  assumes "tracks first obs s" and "seq < 2 ^ 64" and "seq \<noteq> 0"
  shows "tracks first (insert seq obs) (snd (record_seq seq t s))"
proof -
  obtain f where keys: "set (bm_keys (missing s)) = holes f first obs (high_water s)"
    using assms(1) by (auto simp: tracks_def)
  have hw: "high_water s \<noteq> 0" using assms(1) by (auto simp: tracks_def)
  consider (next_one) "seq = high_water s + 1" | (gap) "high_water s + 1 < seq" | (low) "seq \<le> high_water s"
    by linarith
  then show ?thesis
  proof cases
    case next_one
    then have "holes f first obs (high_water s) = holes f first (insert seq obs) seq"
      using assms(1) by (force simp: holes_def tracks_def less_Suc_eq)
    then show ?thesis using assms hw next_one keys
      by (auto simp: record_seq_def tracks_def le_SucI)
  next
    case gap
    then have "seq \<noteq> (high_water s + 1) mod 2 ^ 64" using assms(2) by simp
    then show ?thesis
      using gap_tracks(1) [OF assms(1) _ assms(2), of t] gap hw
      by (simp add: record_seq_def Let_def)
  next
    case low
    have ne: "seq \<noteq> (high_water s + 1) mod 2 ^ 64"
    proof (cases "high_water s + 1 = 2 ^ 64")
      case True
      then show ?thesis using assms(3) by (metis mod_self)
    next
      case False
      then have "high_water s + 1 < 2 ^ 64" using assms(1) by (simp add: tracks_def)
      then show ?thesis using low by simp
    qed
    have "set (bm_keys (missing s)) - {seq} = holes f first (insert seq obs) (high_water s)"
      by (auto simp: keys holes_def)
    moreover have "length (bm_remove seq (missing s)) \<le> length (missing s)" by (simp add: bm_remove_def)
    ultimately show ?thesis using assms hw low ne
      by (auto simp: record_seq_def tracks_def bm_simps bm_get_None)
  qed
qed

text \<open>A run of the ledger over the counters of a sender, in the order they arrive.\<close>

definition ledger :: "(nat \<times> nat) list \<Rightarrow> sender_seq_state" where
  "ledger xs = foldl (\<lambda>s (seq, t). snd (record_seq seq t s)) sender_seq_default xs"

definition seen :: "(nat \<times> nat) list \<Rightarrow> nat list" where
  "seen xs = filter (\<lambda>k. k \<noteq> 0) (map fst xs)"

lemma ledger_tracks:
  "\<forall>k \<in> fst ` set xs. k < 2 ^ 64 \<Longrightarrow>
   (if seen xs = [] then ledger xs = sender_seq_default
    else tracks (hd (seen xs)) (set (seen xs)) (ledger xs))"
proof (induction xs rule: rev_induct)
  case Nil
  then show ?case by (simp add: ledger_def seen_def)
next
  case (snoc x xs)
  obtain seq t where x: "x = (seq, t)" by (cases x)
  have step: "ledger (xs @ [x]) = snd (record_seq seq t (ledger xs))" by (simp add: ledger_def x)
  have lim: "seq < 2 ^ 64" using snoc.prems x by simp
  show ?case
  proof (cases "seq = 0")
    case True
    then have "ledger (xs @ [x]) = ledger xs" "seen (xs @ [x]) = seen xs"
      unfolding step by (simp_all add: record_seq_def seen_def x)
    then show ?thesis using snoc by simp
  next
    case False
    then have sn: "seen (xs @ [x]) = seen xs @ [seq]" by (simp add: seen_def x)
    show ?thesis
    proof (cases "seen xs = []")
      case True
      then have "ledger xs = sender_seq_default" using snoc by simp
      then have "ledger (xs @ [x]) = \<lparr> high_water = seq, missing = bm_empty \<rparr>"
        unfolding step using False by (simp add: record_seq_def sender_seq_default_def)
      then show ?thesis using False True lim sn
        by (auto simp: tracks_def holes_def intro!: exI [of _ 0])
    next
      case nonempty: False
      then have "tracks (hd (seen xs)) (set (seen xs)) (ledger xs)" using snoc by simp
      from record_tracks [OF this lim False, of t] show ?thesis
        using nonempty by (simp add: sn step hd_append)
    qed
  qed
qed

subsection \<open>Properties\<close>



text \<open>
  A jump of the counter reports the newest skipped counters, at most 128 of them, and every
  reported hole is on record afterwards: eviction never removes a hole it has just reported.
\<close>

lemma gap_reports_newest_holes:
  assumes "tracks first obs s" and "high_water s + 1 < seq" and "seq < 2 ^ 64"
  shows "\<exists>newly. fst (record_seq seq t s) = Gap newly \<and>
     set newly = {max (high_water s + 1) (seq - missing_cap) ..< seq} \<and> length newly \<le> missing_cap \<and>
     set newly \<subseteq> set (bm_keys (missing (snd (record_seq seq t s))))"
proof -
  have "seq \<noteq> (high_water s + 1) mod 2 ^ 64" "high_water s \<noteq> 0"
    using assms by (auto simp: tracks_def)
  then show ?thesis
    using gap_tracks(2) [OF assms(1) _ assms(3), of t] assms(2)
    by (simp add: record_seq_def Let_def)
qed

text \<open>
  The holes surfaced after the grace window are recorded holes, in ascending order: the
  list is sorted, has no repetition, and holds precisely the holes detected at least the grace
  time ago.
\<close>

lemma stale_missing_sorted:
  assumes "bm_wf (missing s)"
  shows "sorted_wrt (<) (stale_missing now_ms grace_ms s) \<and>
     set (stale_missing now_ms grace_ms s) =
       {k. \<exists>t. bm_get (missing s) k = Some t \<and> grace_ms \<le> now_ms - t}"
proof -
  have "sorted_wrt (<) (stale_missing now_ms grace_ms s)"
    using bm_wf_filter [OF assms] by (simp add: stale_missing_def bm_wf_def bm_keys_def)
  moreover have "(k, t) \<in> set (missing s) \<longleftrightarrow> bm_get (missing s) k = Some t" for k t
    using bm_wf_distinct [OF assms] by (simp add: bm_get_def bm_keys_def)
  ultimately show ?thesis by (force simp: stale_missing_def)
qed

end
