(* ===== verification/Relay_Proto.thy ===== *)
theory Relay_Proto
  imports Fetchit_Prelude
begin

text \<open>
  The wire types of the relay (\<^verbatim>\<open>fetchit-relay-proto\<close>): identifiers, the opaque envelope
  and its kind discriminator, regions, capability claims and their resolution, the signing
  inputs, and the frames of the two directions. The postcard codec is not part of the
  repository; where the code writes an encoding by hand (the envelope kind, the feature flag,
  the region tag) the map to and from the wire value is modelled.
\<close>

subsection \<open>Identifiers and regions\<close>

text \<open>Fixed-width identifiers are byte strings; the width is a constant of the crate.\<close>

type_synonym relay_id = bytes
type_synonym group_key = bytes
type_synonym tenant_id = string
type_synonym dedupe_key = bytes

definition agent_id_len :: nat where "agent_id_len = 32"
definition machine_id_len :: nat where "machine_id_len = 32"
definition group_id_len :: nat where "group_id_len = 32"
definition dedupe_key_len :: nat where "dedupe_key_len = 16"

definition agent_id_domain :: bytes where
  "agent_id_domain = ascii ''AUTONOMI_PEER_ID_V2:''"

definition user_id_domain :: bytes where
  "user_id_domain = ascii ''fetchit-user-id-v1:''"

definition derive_agent_id :: "(bytes \<Rightarrow> bytes) \<Rightarrow> bytes \<Rightarrow> relay_id" where
  "derive_agent_id sha256 public_key = sha256 (agent_id_domain @ public_key)"

definition derive_user_id :: "(bytes \<Rightarrow> bytes) \<Rightarrow> bytes \<Rightarrow> bytes" where
  "derive_user_id sha256 public_key = sha256 (user_id_domain @ public_key)"

datatype region = Nyc | Sfo | Fra | Sgp | OtherRegion string

fun region_tag :: "region \<Rightarrow> string" where
  "region_tag Nyc = ''nyc''"
| "region_tag Sfo = ''sfo''"
| "region_tag Fra = ''fra''"
| "region_tag Sgp = ''sgp''"
| "region_tag (OtherRegion t) = t"

definition region_from :: "string \<Rightarrow> region" where
  "region_from s =
     (if s = ''nyc'' then Nyc else if s = ''sfo'' then Sfo else if s = ''fra'' then Fra
      else if s = ''sgp'' then Sgp else OtherRegion s)"

subsection \<open>Signing inputs\<close>

definition auth_challenge_domain :: bytes where
  "auth_challenge_domain = ascii ''fetchit-relay/v1/auth/challenge'' @ [0]"

definition auth_signing_bytes :: "bytes \<Rightarrow> bytes" where
  "auth_signing_bytes challenge = auth_challenge_domain @ challenge"

definition agent_sign_namespace_tag :: "8 word" where
  "agent_sign_namespace_tag = 0xF0"

definition agent_sign_magic :: bytes where
  "agent_sign_magic = ascii ''x0x.external-agent-sign.v1''"

definition agent_sign_context :: bytes where
  "agent_sign_context = ascii ''fetchit.agent-sign.v1''"

definition u32_be :: "nat \<Rightarrow> bytes" where
  "u32_be n = [of_nat (n div 2 ^ 24), of_nat (n div 2 ^ 16), of_nat (n div 2 ^ 8), of_nat n]"

definition assemble_agent_sign_buffer :: "bytes \<Rightarrow> bytes \<Rightarrow> bytes" where
  "assemble_agent_sign_buffer context payload =
     [agent_sign_namespace_tag] @ agent_sign_magic @ u32_be (min (length context) u32_max)
     @ context @ payload"

definition agent_sign_input :: "bytes \<Rightarrow> bytes" where
  "agent_sign_input message = assemble_agent_sign_buffer agent_sign_context message"

subsection \<open>The envelope\<close>

definition wire_version :: nat where "wire_version = 3"

datatype envelope_kind =
    Dm | GroupChat | AdminEvent | DeliveryReceipt | PrivateGroupChat | X0xdGroupMetadataEvent
  | PairRecordPush | Reserved7 | PublicPost | UnknownKind nat

fun kind_disc :: "envelope_kind \<Rightarrow> nat" where
  "kind_disc Dm = 0"
| "kind_disc GroupChat = 1"
| "kind_disc AdminEvent = 2"
| "kind_disc DeliveryReceipt = 3"
| "kind_disc PrivateGroupChat = 4"
| "kind_disc X0xdGroupMetadataEvent = 5"
| "kind_disc PairRecordPush = 6"
| "kind_disc Reserved7 = 7"
| "kind_disc PublicPost = 8"
| "kind_disc (UnknownKind n) = n"

text \<open>The visitor: a discriminator of a byte decodes, a larger one is refused.\<close>

definition kind_of_disc :: "nat \<Rightarrow> envelope_kind option" where
  "kind_of_disc disc =
     (if disc = 0 then Some Dm else if disc = 1 then Some GroupChat
      else if disc = 2 then Some AdminEvent else if disc = 3 then Some DeliveryReceipt
      else if disc = 4 then Some PrivateGroupChat else if disc = 5 then Some X0xdGroupMetadataEvent
      else if disc = 6 then Some PairRecordPush else if disc = 7 then Some Reserved7
      else if disc = 8 then Some PublicPost
      else if disc \<le> 255 then Some (UnknownKind disc) else None)"

record transit_envelope =
  e_version :: nat
  e_kind :: envelope_kind
  e_group_id :: "group_key option"
  e_tenant_id :: "tenant_id option"
  e_sender_agent_id :: relay_id
  e_sender_machine_id :: bytes
  e_timestamp_ms :: nat
  e_epoch :: nat
  e_ciphertext :: bytes
  e_nonce :: bytes
  e_kem_ciphertext :: bytes
  e_sender_signature :: bytes

subsection \<open>Capabilities\<close>

definition default_max_envelopes_per_min :: nat where "default_max_envelopes_per_min = 60"
definition default_max_envelope_bytes :: nat where "default_max_envelope_bytes = 1572864"
definition default_max_group_size :: nat where "default_max_group_size = 10"

datatype feature_flag =
  EncryptedBackup | Voice | Video | FileTransfer | AuditPublish | AuditConsume | UnknownFlag nat

definition flag_from :: "nat \<Rightarrow> feature_flag" where
  "flag_from v =
     (if v = 0 then EncryptedBackup else if v = 1 then Voice else if v = 2 then Video
      else if v = 3 then FileTransfer else if v = 4 then AuditPublish
      else if v = 5 then AuditConsume else UnknownFlag v)"

fun flag_into :: "feature_flag \<Rightarrow> nat" where
  "flag_into EncryptedBackup = 0"
| "flag_into Voice = 1"
| "flag_into Video = 2"
| "flag_into FileTransfer = 3"
| "flag_into AuditPublish = 4"
| "flag_into AuditConsume = 5"
| "flag_into (UnknownFlag v) = v"

datatype capability =
    MaxEnvelopesPerMin nat | MaxEnvelopeBytes nat | MaxGroupSize nat
  | AllowedRegions "region set" | AdminFor tenant_id | Feature feature_flag
  | UnknownCapability nat bytes

record capability_claims =
  cc_agent_id :: relay_id
  cc_tenant_id :: "tenant_id option"
  cc_issued_at_ms :: nat
  cc_expires_at_ms :: nat
  cc_capabilities :: "capability list"
  cc_issuer_key_id :: string

record capability_token =
  ct_claims :: capability_claims
  ct_signature :: bytes

record effective_capabilities =
  max_envelopes_per_min :: nat
  max_envelope_bytes :: nat
  max_group_size :: nat
  allowed_regions :: "region set option"
  admin_for :: "tenant_id set"
  features :: "feature_flag set"

definition default_profile :: effective_capabilities where
  "default_profile =
     \<lparr> max_envelopes_per_min = default_max_envelopes_per_min,
       max_envelope_bytes = default_max_envelope_bytes,
       max_group_size = default_max_group_size,
       allowed_regions = None, admin_for = {}, features = {} \<rparr>"

fun apply_claim :: "effective_capabilities \<Rightarrow> capability \<Rightarrow> effective_capabilities" where
  "apply_claim eff (MaxEnvelopesPerMin n) =
     eff\<lparr> max_envelopes_per_min := max (max_envelopes_per_min eff) n \<rparr>"
| "apply_claim eff (MaxEnvelopeBytes n) =
     eff\<lparr> max_envelope_bytes := max (max_envelope_bytes eff) n \<rparr>"
| "apply_claim eff (MaxGroupSize n) = eff\<lparr> max_group_size := max (max_group_size eff) n \<rparr>"
| "apply_claim eff (AllowedRegions s) = eff\<lparr> allowed_regions := Some s \<rparr>"
| "apply_claim eff (AdminFor t) = eff\<lparr> admin_for := insert t (admin_for eff) \<rparr>"
| "apply_claim eff (Feature f) =
     (case f of UnknownFlag _ \<Rightarrow> eff | _ \<Rightarrow> eff\<lparr> features := insert f (features eff) \<rparr>)"
| "apply_claim eff (UnknownCapability _ _) = eff"

definition from_claims :: "capability list \<Rightarrow> effective_capabilities" where
  "from_claims claims = foldl apply_claim default_profile claims"

definition permits_region :: "effective_capabilities \<Rightarrow> region \<Rightarrow> bool" where
  "permits_region eff r = (case allowed_regions eff of None \<Rightarrow> True | Some s \<Rightarrow> r \<in> s)"

subsection \<open>Frames\<close>

record hello =
  hl_client_version :: string
  hl_tenant_id :: "tenant_id option"
  hl_preferred_region :: "region option"
  hl_capabilities :: "capability_token option"

record ready =
  rd_server_version :: string
  rd_region :: region
  rd_effective_capabilities :: effective_capabilities

record subscribe =
  sb_topic :: string

record watch_presence =
  wp_add :: "relay_id list"
  wp_remove :: "relay_id list"

record presence_update =
  pu_agent_id :: relay_id
  pu_online :: bool

record send_frame =
  sf_to :: relay_id
  sf_envelope :: transit_envelope
  sf_dedupe_key :: dedupe_key

record ack =
  ak_dedupe_key :: dedupe_key
  ak_accepted_at_ms :: nat

record moved =
  mv_dedupe_key :: dedupe_key

record deliver =
  dl_envelope :: transit_envelope
  dl_transit_seq :: nat
  dl_delivered_at_ms :: nat

record transit_ack =
  ta_acked_ids :: "nat list"

datatype log_record_kind = Commit | JoinResult

record log_append =
  la_group_id :: group_key
  la_kind :: log_record_kind
  la_recipient :: "relay_id option"
  la_payload :: bytes

record log_fetch =
  lf_group_id :: group_key
  lf_since_seq :: nat

record log_record_wire =
  lw_seq :: nat
  lw_kind :: log_record_kind
  lw_recipient :: "relay_id option"
  lw_payload :: bytes
  lw_author :: "relay_id option"
  lw_inserted_at_ms :: nat

record log_records =
  lr_group_id :: group_key
  lr_records :: "log_record_wire list"
  lr_done :: bool

datatype throttle_reason = PerRecipientCapacity | PerSenderRate | EnvelopeTooLarge

record throttle =
  th_retry_after_ms :: nat
  th_reason :: throttle_reason

record ping =
  pi_nonce :: nat

record pong =
  po_nonce :: nat

datatype bye_reason =
  ClientGoodbye | ServerShutdown | AuthExpired | ProtocolError | DisplacedByNewSession

record bye =
  by_reason :: bye_reason

datatype client_frame =
    C_Hello hello | C_Subscribe subscribe | C_Send send_frame | C_WatchPresence watch_presence
  | C_Ping ping | C_Bye bye | C_TransitAck transit_ack | C_LogAppend log_append
  | C_LogFetch log_fetch

datatype server_frame =
    S_Ready ready | S_Ack ack | S_Deliver deliver | S_Throttle throttle
  | S_PresenceUpdate presence_update | S_Pong pong | S_Bye bye | S_Moved moved
  | S_LogRecords log_records

subsection \<open>Properties of the encodings\<close>

lemma kind_disc_of_disc: "kind_of_disc d = Some k \<Longrightarrow> kind_disc k = d"
  by (auto simp: kind_of_disc_def split: if_splits)

lemma kind_of_disc_None: "kind_of_disc d = None \<longleftrightarrow> 255 < d"
  by (auto simp: kind_of_disc_def)

text \<open>
  Forward compatibility of the envelope kind: every discriminator of a byte decodes, and a
  relay that decodes an envelope and re-emits it writes back the same discriminator, known to
  it or not; larger discriminators are refused. A named kind is read back as itself.
\<close>

lemma envelope_kind_roundtrip:
  "(case kind_of_disc d of Some k \<Rightarrow> d \<le> 255 \<and> kind_disc k = d | None \<Rightarrow> 255 < d) \<and>
   (kind_of_disc (kind_disc k) = Some k \<longleftrightarrow> k \<notin> UnknownKind ` ({..8} \<union> {256..}))"
proof (intro conjI)
  show "case kind_of_disc d of Some k \<Rightarrow> d \<le> 255 \<and> kind_disc k = d | None \<Rightarrow> 255 < d"
    using kind_disc_of_disc [of d] kind_of_disc_None [of d]
    by (cases "kind_of_disc d") (auto simp: not_less)
  show "kind_of_disc (kind_disc k) = Some k \<longleftrightarrow> k \<notin> UnknownKind ` ({..8} \<union> {256..})"
    by (cases k) (auto simp: kind_of_disc_def image_iff)
qed

lemma region_from_tag: "region_from (region_tag r) = r \<longleftrightarrow> r \<notin> OtherRegion ` {''nyc'', ''sfo'', ''fra'', ''sgp''}"
  by (cases r) (auto simp: region_from_def)

lemma region_tag_from [simp]: "region_tag (region_from s) = s"
  by (simp add: region_from_def)

lemma flag_into_from [simp]: "flag_into (flag_from v) = v"
  by (simp add: flag_from_def)

lemma flag_from_into: "flag_from (flag_into f) = f \<longleftrightarrow> f \<notin> UnknownFlag ` {..5}"
  by (cases f) (auto simp: flag_from_def image_iff)

lemma u32_be_length [simp]: "length (u32_be n) = 4"
  by (simp add: u32_be_def)

lemma of_nat_byte_eq: "(of_nat a :: 8 word) = of_nat b \<Longrightarrow> a mod 256 = b mod 256"
  by (drule arg_cong [of _ _ unat]) (simp add: unat_of_nat)

lemma u32_be_inj:
  assumes "u32_be a = u32_be b" and "a < 2 ^ 32" and "b < 2 ^ 32"
  shows "a = b"
proof -
  have bytes: "a mod 256 = b mod 256" "a div 2 ^ 8 mod 256 = b div 2 ^ 8 mod 256"
    "a div 2 ^ 16 mod 256 = b div 2 ^ 16 mod 256" "a div 2 ^ 24 mod 256 = b div 2 ^ 24 mod 256"
    using assms(1) unfolding u32_be_def list.inject by (blast dest: of_nat_byte_eq)+
  have split: "n = ((n div 2 ^ 24 mod 256 * 256 + n div 2 ^ 16 mod 256) * 256
      + n div 2 ^ 8 mod 256) * 256 + n mod 256" if "n < 2 ^ 32" for n :: nat
  proof -
    have low: "m = m div 256 * 256 + m mod 256" for m :: nat by simp
    have "n div 2 ^ 16 = n div 2 ^ 8 div 256" "n div 2 ^ 24 = n div 2 ^ 16 div 256"
      by (simp_all add: div_mult2_eq [symmetric])
    moreover have "n div 2 ^ 24 mod 256 = n div 2 ^ 24" using that by simp
    ultimately show ?thesis
      using low [of n] low [of "n div 2 ^ 8"] low [of "n div 2 ^ 16"] by simp
  qed
  show ?thesis using split [OF assms(2)] split [OF assms(3)] bytes by metis
qed

text \<open>
  The signing input is unambiguous: two contexts and payloads that give the same bytes are
  the same context and the same payload, so a signature made in one context never verifies as
  one of another context. Contexts are shorter than the four-byte length field can count.
\<close>

lemma agent_sign_buffer_injective:
  assumes "length c < 2 ^ 32" and "length c' < 2 ^ 32"
    and "assemble_agent_sign_buffer c p = assemble_agent_sign_buffer c' p'"
  shows "c = c' \<and> p = p'"
proof -
  have eq: "u32_be (length c) @ c @ p = u32_be (length c') @ c' @ p'"
    using assms by (simp add: assemble_agent_sign_buffer_def min_def)
  then have "u32_be (length c) = u32_be (length c')" by simp
  then have "length c = length c'" using assms by (simp add: u32_be_inj)
  then show ?thesis using eq by simp
qed

subsection \<open>Resolution of claims\<close>

text \<open>What the claims of a token ask for, by kind.\<close>

fun rate_claim :: "capability \<Rightarrow> nat option" where
  "rate_claim (MaxEnvelopesPerMin n) = Some n" | "rate_claim _ = None"

fun size_claim :: "capability \<Rightarrow> nat option" where
  "size_claim (MaxEnvelopeBytes n) = Some n" | "size_claim _ = None"

fun group_claim :: "capability \<Rightarrow> nat option" where
  "group_claim (MaxGroupSize n) = Some n" | "group_claim _ = None"

fun region_claim :: "capability \<Rightarrow> region set option" where
  "region_claim (AllowedRegions s) = Some s" | "region_claim _ = None"

abbreviation claims_by :: "('a \<Rightarrow> 'b option) \<Rightarrow> 'a list \<Rightarrow> 'b list" where
  "claims_by f cs \<equiv> List.map_filter f cs"

definition known_flag :: "feature_flag \<Rightarrow> bool" where
  "known_flag f = (case f of UnknownFlag _ \<Rightarrow> False | _ \<Rightarrow> True)"

lemma claim_caps:
  "max_envelopes_per_min (foldl apply_claim eff cs) = fold max (claims_by rate_claim cs) (max_envelopes_per_min eff)"
  "max_envelope_bytes (foldl apply_claim eff cs) = fold max (claims_by size_claim cs) (max_envelope_bytes eff)"
  "max_group_size (foldl apply_claim eff cs) = fold max (claims_by group_claim cs) (max_group_size eff)"
  "allowed_regions (foldl apply_claim eff cs) =
     (if claims_by region_claim cs = [] then allowed_regions eff else Some (last (claims_by region_claim cs)))"
  "admin_for (foldl apply_claim eff cs) = admin_for eff \<union> {t. AdminFor t \<in> set cs}"
  "features (foldl apply_claim eff cs) = features eff \<union> {f. Feature f \<in> set cs \<and> known_flag f}"
proof (induction cs arbitrary: eff)
  case Nil
  { case 1 show ?case by simp }
  { case 2 show ?case by simp }
  { case 3 show ?case by simp }
  { case 4 show ?case by simp }
  { case 5 show ?case by simp }
  { case 6 show ?case by simp }
next
  case (Cons c cs)
  { case 1 show ?case by (cases c) (auto simp: Cons.IH(1) max.commute split: feature_flag.splits) }
  { case 2 show ?case by (cases c) (auto simp: Cons.IH(2) max.commute split: feature_flag.splits) }
  { case 3 show ?case by (cases c) (auto simp: Cons.IH(3) max.commute split: feature_flag.splits) }
  { case 4 show ?case by (cases c) (auto simp: Cons.IH(4) split: feature_flag.splits) }
  { case 5 show ?case by (cases c) (auto simp: Cons.IH(5) split: feature_flag.splits) }
  { case 6 show ?case
      by (cases c) (auto simp: Cons.IH(6) known_flag_def split: feature_flag.splits) }
qed

text \<open>
  The session limits of a token: every numeric limit is the largest of the default and the
  claims, so a token only widens it; administration and feature rights are exactly those
  claimed, without the flags this version does not know; of several region restrictions the
  last one alone decides, and without one every region is permitted.
\<close>

lemma from_claims_limits:
  "max_envelopes_per_min (from_claims cs) = Max (set (default_max_envelopes_per_min # claims_by rate_claim cs)) \<and>
   max_envelope_bytes (from_claims cs) = Max (set (default_max_envelope_bytes # claims_by size_claim cs)) \<and>
   max_group_size (from_claims cs) = Max (set (default_max_group_size # claims_by group_claim cs)) \<and>
   admin_for (from_claims cs) = {t. AdminFor t \<in> set cs} \<and>
   features (from_claims cs) = {f. Feature f \<in> set cs \<and> known_flag f} \<and>
   (permits_region (from_claims cs) r \<longleftrightarrow>
      claims_by region_claim cs = [] \<or> r \<in> last (claims_by region_claim cs))"
  unfolding from_claims_def claim_caps Max.set_eq_fold
  by (simp add: default_profile_def permits_region_def claim_caps)

end
