(* ===== verification/Pair_Record.thy ===== *)
theory Pair_Record
  imports Relay_Proto
begin

text \<open>
  The signed pairing records (\<^verbatim>\<open>fetchit-relay-proto/src/pair_record.rs\<close>): the per-device record,
  the forwarding record and the user-scoped record with its device list, their canonical signing
  inputs and their stateless verification. Strings are their UTF-8 bytes. The codecs, the hash,
  the URL parser and the ML-DSA-65 backend are third-party code: they are the fields of a
  \<^verbatim>\<open>backend\<close>, an argument of the definitions that call them.
\<close>

named_theorems frame_inj \<open>cancellation laws of the canonical layouts\<close>

type_synonym utf8 = bytes

record url_parts =
  up_scheme :: utf8
  up_host :: "utf8 option"
  up_username :: utf8
  up_password :: "utf8 option"

record ('pk, 'sig) backend =
  b_b64_decode :: "utf8 \<Rightarrow> utf8 + bytes"
  b_hex_encode :: "bytes \<Rightarrow> utf8"
  b_hex_decode :: "utf8 \<Rightarrow> bytes option"
  b_sha256 :: "bytes \<Rightarrow> bytes"
  b_url_parse :: "utf8 \<Rightarrow> url_parts option"
  b_pk_from_bytes :: "bytes \<Rightarrow> utf8 + 'pk"
  b_sig_from_bytes :: "bytes \<Rightarrow> utf8 + 'sig"
  b_verify :: "'pk \<Rightarrow> bytes \<Rightarrow> 'sig \<Rightarrow> utf8 + bool"

subsection \<open>The records\<close>

definition pair_record_domain :: bytes where "pair_record_domain = ascii ''fetchit-pair-record-v1''"
definition forwarding_domain :: bytes where "forwarding_domain = ascii ''fetchit-forwarding-v1''"
definition pair_record_v4_domain :: bytes where "pair_record_v4_domain = ascii ''fetchit-pair-record-v4''"
definition record_version_v1 :: nat where "record_version_v1 = 1"
definition record_version_v4 :: nat where "record_version_v4 = 4"
definition max_devices :: nat where "max_devices = 5"
definition max_relays :: nat where "max_relays = 4"
definition max_url_bytes :: nat where "max_url_bytes = 256"

record pair_record_v1 =
  p1_record_version :: nat
  p1_agent_id_hex :: utf8
  p1_ml_dsa_pubkey_b64 :: utf8
  p1_kem_pubkey_b64 :: utf8
  p1_machine_id :: utf8
  p1_advertised_relays :: "utf8 list"
  p1_issued_at_ms :: nat
  p1_sig_b64 :: utf8

record forwarding_record_v1 =
  fw_agent_id_hex :: utf8
  fw_moved_to_relays :: "utf8 list"
  fw_issued_at_ms :: nat
  fw_sig_b64 :: utf8

record device_entry_v4 =
  d4_agent_id_hex :: utf8
  d4_ml_dsa_pubkey_b64 :: utf8
  d4_kem_pubkey_b64 :: utf8
  d4_advertised_relays :: "utf8 list"
  d4_cert_b64 :: utf8
  d4_added_at_ms :: nat
  d4_primary :: bool

record pair_record_v4 =
  p4_record_version :: nat
  p4_user_id_hex :: utf8
  p4_user_ml_dsa_pubkey_b64 :: utf8
  p4_revision :: nat
  p4_issued_at_ms :: nat
  p4_devices :: "device_entry_v4 list"
  p4_user_signature_b64 :: utf8

record device_signing_view =
  dv_agent_id_hex :: utf8
  dv_ml_dsa_pubkey :: bytes
  dv_kem_pubkey :: bytes
  dv_relays :: "utf8 list"
  dv_cert :: bytes
  dv_added_at_ms :: nat
  dv_primary :: bool

datatype pair_record_error =
    EmptyRelays | TooManyRelays nat | RelayUrlTooLong nat | RelayUrlInvalid | RelayUrlHasCredentials
  | AgentIdMismatch | InvalidAgentIdHex | InvalidUserIdHex | UserIdMismatch
  | EmptyDevices | TooManyDevices nat | NotExactlyOnePrimary nat
  | Base64Error utf8 | PubkeyParse utf8 | SignatureParse utf8 | VerifyBackend utf8
  | SignatureInvalid | FieldTooLong nat

subsection \<open>Structural checks\<close>

definition lower_hex_byte :: "8 word \<Rightarrow> bool" where
  "lower_hex_byte b \<longleftrightarrow> (0x30 \<le> b \<and> b \<le> 0x39) \<or> (0x61 \<le> b \<and> b \<le> 0x66)"

definition validate_user_id_hex :: "utf8 \<Rightarrow> pair_record_error + unit" where
  "validate_user_id_hex s =
     (if length s = 64 \<and> list_all lower_hex_byte s then Inr () else Inl InvalidUserIdHex)"

definition validate_agent_id_hex :: "utf8 \<Rightarrow> pair_record_error + unit" where
  "validate_agent_id_hex s =
     (if length s = 64 \<and> list_all lower_hex_byte s then Inr () else Inl InvalidAgentIdHex)"

definition check_relay_url :: "(utf8 \<Rightarrow> url_parts option) \<Rightarrow> utf8 \<Rightarrow> pair_record_error + unit" where
  "check_relay_url parse relay =
     (if length relay > max_url_bytes then Inl (RelayUrlTooLong (length relay))
      else case parse relay of
             None \<Rightarrow> Inl RelayUrlInvalid
           | Some u \<Rightarrow>
               if up_scheme u \<noteq> ascii ''http'' \<and> up_scheme u \<noteq> ascii ''https'' then Inl RelayUrlInvalid
               else if (case up_host u of None \<Rightarrow> True | Some h \<Rightarrow> h = []) then Inl RelayUrlInvalid
               else if up_username u \<noteq> [] \<or> up_password u \<noteq> None then Inl RelayUrlHasCredentials
               else Inr ())"

fun check_all :: "('a \<Rightarrow> 'e + unit) \<Rightarrow> 'a list \<Rightarrow> 'e + unit" where
  "check_all f [] = Inr ()"
| "check_all f (x # xs) = and_then (f x) (\<lambda>_. check_all f xs)"

definition validate_relays :: "(utf8 \<Rightarrow> url_parts option) \<Rightarrow> utf8 list \<Rightarrow> pair_record_error + unit" where
  "validate_relays parse relays =
     (if relays = [] then Inl EmptyRelays
      else if length relays > max_relays then Inl (TooManyRelays (length relays))
      else check_all (check_relay_url parse) relays)"

definition validate_device_list :: "(utf8 \<Rightarrow> url_parts option) \<Rightarrow> device_signing_view list
    \<Rightarrow> pair_record_error + unit" where
  "validate_device_list parse devices =
     (let primaries = length (filter dv_primary devices)
      in if devices = [] then Inl EmptyDevices
         else if length devices > max_devices then Inl (TooManyDevices (length devices))
         else if primaries \<noteq> 1 then Inl (NotExactlyOnePrimary primaries)
         else check_all (\<lambda>d. and_then (validate_agent_id_hex (dv_agent_id_hex d))
                              (\<lambda>_. validate_relays parse (dv_relays d))) devices)"

subsection \<open>Signing inputs\<close>

definition u64_be :: "nat \<Rightarrow> bytes" where
  "u64_be n = u32_be (n div 2 ^ 32) @ u32_be n"

definition push_lp :: "bytes \<Rightarrow> bytes \<Rightarrow> pair_record_error + bytes" where
  "push_lp out bs =
     (if length bs > u32_max then Inl (FieldTooLong (length bs))
      else Inr (out @ u32_be (length bs) @ bs))"

fun push_relays :: "bytes \<Rightarrow> utf8 list \<Rightarrow> pair_record_error + bytes" where
  "push_relays out [] = Inr out"
| "push_relays out (relay # relays) = and_then (push_lp out relay) (\<lambda>out. push_relays out relays)"

definition push_count :: "(nat \<Rightarrow> pair_record_error) \<Rightarrow> bytes \<Rightarrow> nat \<Rightarrow> pair_record_error + bytes" where
  "push_count too_many out n = (if n > u32_max then Inl (too_many n) else Inr (out @ u32_be n))"

definition pair_signing_input :: "(utf8 \<Rightarrow> url_parts option) \<Rightarrow> utf8 \<Rightarrow> bytes \<Rightarrow> bytes \<Rightarrow> utf8 list \<Rightarrow> nat
    \<Rightarrow> pair_record_error + bytes" where
  "pair_signing_input parse agent_id_hex ml_dsa_pubkey kem_pubkey relays issued_at_ms =
     and_then (validate_agent_id_hex agent_id_hex) (\<lambda>_.
     and_then (validate_relays parse relays) (\<lambda>_.
     and_then (push_lp pair_record_domain agent_id_hex) (\<lambda>out.
     and_then (push_lp out ml_dsa_pubkey) (\<lambda>out.
     and_then (push_lp out kem_pubkey) (\<lambda>out.
     and_then (push_count TooManyRelays out (length relays)) (\<lambda>out.
     and_then (push_relays out relays) (\<lambda>out.
     Inr (out @ u64_be issued_at_ms))))))))"

definition forwarding_signing_input :: "(utf8 \<Rightarrow> url_parts option) \<Rightarrow> utf8 \<Rightarrow> utf8 list \<Rightarrow> nat
    \<Rightarrow> pair_record_error + bytes" where
  "forwarding_signing_input parse agent_id_hex relays issued_at_ms =
     and_then (validate_agent_id_hex agent_id_hex) (\<lambda>_.
     and_then (validate_relays parse relays) (\<lambda>_.
     and_then (push_lp forwarding_domain agent_id_hex) (\<lambda>out.
     and_then (push_count TooManyRelays out (length relays)) (\<lambda>out.
     and_then (push_relays out relays) (\<lambda>out.
     Inr (out @ u64_be issued_at_ms))))))"

definition push_device :: "bytes \<Rightarrow> device_signing_view \<Rightarrow> pair_record_error + bytes" where
  "push_device out d =
     and_then (push_lp out (dv_agent_id_hex d)) (\<lambda>out.
     and_then (push_lp out (dv_ml_dsa_pubkey d)) (\<lambda>out.
     and_then (push_lp out (dv_kem_pubkey d)) (\<lambda>out.
     and_then (push_count TooManyRelays out (length (dv_relays d))) (\<lambda>out.
     and_then (push_relays out (dv_relays d)) (\<lambda>out.
     push_lp (out @ u64_be (dv_added_at_ms d) @ [if dv_primary d then 1 else 0]) (dv_cert d))))))"

fun push_devices :: "bytes \<Rightarrow> device_signing_view list \<Rightarrow> pair_record_error + bytes" where
  "push_devices out [] = Inr out"
| "push_devices out (d # ds) = and_then (push_device out d) (\<lambda>out. push_devices out ds)"

definition pair_record_v4_signing_input :: "(utf8 \<Rightarrow> url_parts option) \<Rightarrow> utf8 \<Rightarrow> bytes \<Rightarrow> nat \<Rightarrow> nat
    \<Rightarrow> device_signing_view list \<Rightarrow> pair_record_error + bytes" where
  "pair_record_v4_signing_input parse user_id_hex user_ml_dsa_pubkey revision issued_at_ms devices =
     and_then (validate_user_id_hex user_id_hex) (\<lambda>_.
     and_then (validate_device_list parse devices) (\<lambda>_.
     and_then (push_lp pair_record_v4_domain user_id_hex) (\<lambda>out.
     and_then (push_lp out user_ml_dsa_pubkey) (\<lambda>out.
     and_then (push_count TooManyDevices (out @ u64_be revision @ u64_be issued_at_ms) (length devices)) (\<lambda>out.
     push_devices out devices)))))"

subsection \<open>Verification\<close>

definition decode_b64 :: "('pk, 'sig) backend \<Rightarrow> utf8 \<Rightarrow> pair_record_error + bytes" where
  "decode_b64 B s = (case b_b64_decode B s of Inl e \<Rightarrow> Inl (Base64Error e) | Inr bs \<Rightarrow> Inr bs)"

definition check_signature :: "('pk, 'sig) backend \<Rightarrow> bytes \<Rightarrow> bytes \<Rightarrow> bytes \<Rightarrow> pair_record_error + unit" where
  "check_signature B pubkey input sig_bytes =
     (case b_pk_from_bytes B pubkey of Inl e \<Rightarrow> Inl (PubkeyParse e)
      | Inr pk \<Rightarrow>
        (case b_sig_from_bytes B sig_bytes of Inl e \<Rightarrow> Inl (SignatureParse e)
         | Inr sig \<Rightarrow>
           (case b_verify B pk input sig of Inl e \<Rightarrow> Inl (VerifyBackend e)
            | Inr ok \<Rightarrow> if ok then Inr () else Inl SignatureInvalid)))"

definition verify_pair_record :: "('pk, 'sig) backend \<Rightarrow> pair_record_v1 \<Rightarrow> pair_record_error + unit" where
  "verify_pair_record B r =
     and_then (validate_agent_id_hex (p1_agent_id_hex r)) (\<lambda>_.
     and_then (validate_relays (b_url_parse B) (p1_advertised_relays r)) (\<lambda>_.
     and_then (decode_b64 B (p1_ml_dsa_pubkey_b64 r)) (\<lambda>ml_dsa_pubkey.
     and_then (decode_b64 B (p1_kem_pubkey_b64 r)) (\<lambda>kem_pubkey.
     and_then (decode_b64 B (p1_sig_b64 r)) (\<lambda>sig_bytes.
     if b_hex_encode B (derive_agent_id (b_sha256 B) ml_dsa_pubkey) \<noteq> p1_agent_id_hex r
     then Inl AgentIdMismatch
     else
       and_then (pair_signing_input (b_url_parse B) (p1_agent_id_hex r) ml_dsa_pubkey kem_pubkey
                   (p1_advertised_relays r) (p1_issued_at_ms r)) (\<lambda>input.
       check_signature B ml_dsa_pubkey (agent_sign_input input) sig_bytes))))))"

definition verify_forwarding_record :: "('pk, 'sig) backend \<Rightarrow> forwarding_record_v1 \<Rightarrow> bytes
    \<Rightarrow> pair_record_error + unit" where
  "verify_forwarding_record B r expected_pubkey =
     and_then (validate_agent_id_hex (fw_agent_id_hex r)) (\<lambda>_.
     and_then (validate_relays (b_url_parse B) (fw_moved_to_relays r)) (\<lambda>_.
     and_then (decode_b64 B (fw_sig_b64 r)) (\<lambda>sig_bytes.
     if b_hex_encode B (derive_agent_id (b_sha256 B) expected_pubkey) \<noteq> fw_agent_id_hex r
     then Inl AgentIdMismatch
     else
       and_then (forwarding_signing_input (b_url_parse B) (fw_agent_id_hex r)
                   (fw_moved_to_relays r) (fw_issued_at_ms r)) (\<lambda>input.
       check_signature B expected_pubkey (agent_sign_input input) sig_bytes))))"

definition view_of_device :: "('pk, 'sig) backend \<Rightarrow> device_entry_v4
    \<Rightarrow> pair_record_error + device_signing_view" where
  "view_of_device B d =
     and_then (validate_agent_id_hex (d4_agent_id_hex d)) (\<lambda>_.
     and_then (validate_relays (b_url_parse B) (d4_advertised_relays d)) (\<lambda>_.
     and_then (decode_b64 B (d4_ml_dsa_pubkey_b64 d)) (\<lambda>ml.
     and_then (decode_b64 B (d4_kem_pubkey_b64 d)) (\<lambda>kem.
     and_then (decode_b64 B (d4_cert_b64 d)) (\<lambda>cert.
     if b_hex_encode B (derive_agent_id (b_sha256 B) ml) \<noteq> d4_agent_id_hex d then Inl AgentIdMismatch
     else Inr \<lparr> dv_agent_id_hex = d4_agent_id_hex d, dv_ml_dsa_pubkey = ml, dv_kem_pubkey = kem,
                dv_relays = d4_advertised_relays d, dv_cert = cert,
                dv_added_at_ms = d4_added_at_ms d, dv_primary = d4_primary d \<rparr>)))))"

fun views_of_devices :: "('pk, 'sig) backend \<Rightarrow> device_entry_v4 list
    \<Rightarrow> pair_record_error + device_signing_view list" where
  "views_of_devices B [] = Inr []"
| "views_of_devices B (d # ds) =
     and_then (view_of_device B d) (\<lambda>v. and_then (views_of_devices B ds) (\<lambda>vs. Inr (v # vs)))"

definition verify_pair_record_v4 :: "('pk, 'sig) backend \<Rightarrow> pair_record_v4 \<Rightarrow> pair_record_error + unit" where
  "verify_pair_record_v4 B r =
     and_then (validate_user_id_hex (p4_user_id_hex r)) (\<lambda>_.
     let primaries = length (filter d4_primary (p4_devices r))
     in if p4_devices r = [] then Inl EmptyDevices
        else if length (p4_devices r) > max_devices then Inl (TooManyDevices (length (p4_devices r)))
        else if primaries \<noteq> 1 then Inl (NotExactlyOnePrimary primaries)
        else
          and_then (decode_b64 B (p4_user_ml_dsa_pubkey_b64 r)) (\<lambda>user_pubkey.
          if b_hex_encode B (derive_user_id (b_sha256 B) user_pubkey) \<noteq> p4_user_id_hex r
          then Inl UserIdMismatch
          else
            and_then (views_of_devices B (p4_devices r)) (\<lambda>views.
            and_then (pair_record_v4_signing_input (b_url_parse B) (p4_user_id_hex r) user_pubkey
                        (p4_revision r) (p4_issued_at_ms r) views) (\<lambda>input.
            and_then (decode_b64 B (p4_user_signature_b64 r)) (\<lambda>sig_bytes.
            check_signature B user_pubkey input sig_bytes)))))"

subsection \<open>The canonical layouts are prefix codes\<close>

lemma nat_mod_256: "n mod (256 * m) = 256 * (n div 256 mod m) + n mod (256 :: nat)"
  by (rule mod_mult2_eq)

lemma u32_bytes_of: "n mod 2 ^ 32 = 256 * (256 * (256 * (n div 2 ^ 24 mod 256) + n div 2 ^ 16 mod 256)
    + n div 2 ^ 8 mod 256) + n mod (256 :: nat)"
  using nat_mod_256 [of n "2 ^ 24"] nat_mod_256 [of "n div 256" "2 ^ 16"] nat_mod_256 [of "n div 256 div 256" "2 ^ 8"]
  by (simp add: div_mult2_eq [symmetric])

lemma u32_be_eq_mod: "u32_be a = u32_be b \<Longrightarrow> a mod 2 ^ 32 = b mod 2 ^ 32"
proof -
  assume "u32_be a = u32_be b"
  then have "a mod 256 = b mod 256" "a div 2 ^ 8 mod 256 = b div 2 ^ 8 mod 256"
    "a div 2 ^ 16 mod 256 = b div 2 ^ 16 mod 256" "a div 2 ^ 24 mod 256 = b div 2 ^ 24 mod 256"
    unfolding u32_be_def list.inject by (blast dest: of_nat_byte_eq)+
  then show ?thesis unfolding u32_bytes_of [of a] u32_bytes_of [of b] by metis
qed

definition lp :: "bytes \<Rightarrow> bytes" where "lp bs = u32_be (length bs) @ bs"

definition short :: "bytes \<Rightarrow> bool" where "short bs \<longleftrightarrow> length bs \<le> u32_max"

lemma u32_be_cancel [frame_inj]:
  "a \<le> u32_max \<Longrightarrow> b \<le> u32_max \<Longrightarrow> u32_be a @ r = u32_be b @ s \<longleftrightarrow> a = b \<and> r = s"
  by (auto simp: append_eq_append_conv dest: u32_be_inj)

lemma u32_be_eq [frame_inj]: "a \<le> u32_max \<Longrightarrow> b \<le> u32_max \<Longrightarrow> u32_be a = u32_be b \<longleftrightarrow> a = b"
  using u32_be_cancel [of a b "[]" "[]"] by simp

lemma u64_be_cancel [frame_inj]:
  assumes "a < 2 ^ 64" and "b < 2 ^ 64"
  shows "u64_be a @ r = u64_be b @ s \<longleftrightarrow> a = b \<and> r = s"
proof
  assume "u64_be a @ r = u64_be b @ s"
  then have hi: "u32_be (a div 2 ^ 32) = u32_be (b div 2 ^ 32)" and lo: "u32_be a = u32_be b" and "r = s"
    by (simp_all add: u64_be_def append_eq_append_conv)
  have "a div 2 ^ 32 = b div 2 ^ 32" using u32_be_inj [OF hi] assms by (simp add: less_mult_imp_div_less)
  then have "a = b" using u32_be_eq_mod [OF lo] by (metis div_mod_decomp)
  then show "a = b \<and> r = s" using \<open>r = s\<close> by simp
qed simp

lemma u64_be_inj [frame_inj]: "a < 2 ^ 64 \<Longrightarrow> b < 2 ^ 64 \<Longrightarrow> u64_be a = u64_be b \<longleftrightarrow> a = b"
  using u64_be_cancel [of a b "[]" "[]"] by simp

lemma lp_cancel [frame_inj]: "short a \<Longrightarrow> short b \<Longrightarrow> lp a @ r = lp b @ s \<longleftrightarrow> a = b \<and> r = s"
  unfolding lp_def short_def append_assoc by (metis append_eq_append_conv u32_be_cancel)

lemma lps_cancel:
  "length rs = length ss \<Longrightarrow> list_all short rs \<Longrightarrow> list_all short ss \<Longrightarrow>
   concat (map lp rs) @ r = concat (map lp ss) @ s \<longleftrightarrow> rs = ss \<and> r = s"
  by (induction rs ss rule: list_induct2) (auto simp: lp_cancel)

lemma push_lp_Inr: "push_lp out bs = Inr o' \<longleftrightarrow> short bs \<and> o' = out @ lp bs"
  by (auto simp: push_lp_def lp_def short_def)

lemma push_relays_Inr: "push_relays out rs = Inr o' \<longleftrightarrow> list_all short rs \<and> o' = out @ concat (map lp rs)"
  by (induction out rs rule: push_relays.induct) (auto simp: and_then_Inr_iff push_lp_Inr)

lemma push_count_Inr: "push_count f out n = Inr o' \<longleftrightarrow> n \<le> u32_max \<and> o' = out @ u32_be n"
  by (auto simp: push_count_def)

lemmas push_Inr = and_then_Inr_iff push_lp_Inr push_relays_Inr push_count_Inr

text \<open>The list of relays as it is written: its count and its length-prefixed entries.\<close>

definition relays_bytes :: "utf8 list \<Rightarrow> bytes" where
  "relays_bytes rs = u32_be (length rs) @ concat (map lp rs)"

definition relays_short :: "utf8 list \<Rightarrow> bool" where
  "relays_short rs \<longleftrightarrow> length rs \<le> u32_max \<and> list_all short rs"

lemma relays_cancel [frame_inj]:
  assumes "relays_short rs" and "relays_short ss"
  shows "relays_bytes rs @ r = relays_bytes ss @ s \<longleftrightarrow> rs = ss \<and> r = s"
  using assms unfolding relays_bytes_def relays_short_def append_assoc
  by (metis lps_cancel u32_be_cancel)

definition device_bytes :: "device_signing_view \<Rightarrow> bytes" where
  "device_bytes d =
     lp (dv_agent_id_hex d) @ lp (dv_ml_dsa_pubkey d) @ lp (dv_kem_pubkey d) @ relays_bytes (dv_relays d)
     @ u64_be (dv_added_at_ms d) @ [if dv_primary d then 1 else 0] @ lp (dv_cert d)"

definition device_short :: "device_signing_view \<Rightarrow> bool" where
  "device_short d \<longleftrightarrow> short (dv_agent_id_hex d) \<and> short (dv_ml_dsa_pubkey d) \<and> short (dv_kem_pubkey d) \<and>
     relays_short (dv_relays d) \<and> short (dv_cert d)"

lemma device_cancel:
  assumes "device_short d" and "device_short e" and "dv_added_at_ms d < 2 ^ 64" and "dv_added_at_ms e < 2 ^ 64"
    and eq: "device_bytes d @ r = device_bytes e @ s"
  shows "d = e \<and> r = s"
  using eq assms(1-4) unfolding device_bytes_def device_short_def append_assoc
  by (cases d; cases e) (auto simp: frame_inj split: if_splits)

lemma push_device_Inr: "push_device out d = Inr o' \<longleftrightarrow> device_short d \<and> o' = out @ device_bytes d"
  by (auto simp: push_device_def push_Inr device_short_def relays_short_def device_bytes_def relays_bytes_def)

lemma push_devices_Inr:
  "push_devices out ds = Inr o' \<longleftrightarrow> list_all device_short ds \<and> o' = out @ concat (map device_bytes ds)"
  by (induction out ds rule: push_devices.induct) (auto simp: and_then_Inr_iff push_device_Inr)

lemma devices_cancel:
  "length ds = length es \<Longrightarrow> list_all device_short ds \<Longrightarrow> list_all device_short es \<Longrightarrow>
   list_all (\<lambda>d. dv_added_at_ms d < 2 ^ 64) ds \<Longrightarrow> list_all (\<lambda>d. dv_added_at_ms d < 2 ^ 64) es \<Longrightarrow>
   concat (map device_bytes ds) @ r = concat (map device_bytes es) @ s \<Longrightarrow> ds = es \<and> r = s"
proof (induction ds es rule: list_induct2)
  case (Cons d ds e es)
  have "device_bytes d @ (concat (map device_bytes ds) @ r) = device_bytes e @ (concat (map device_bytes es) @ s)"
    using Cons.prems by simp
  then have "d = e" and rest: "concat (map device_bytes ds) @ r = concat (map device_bytes es) @ s"
    using device_cancel Cons.prems by auto
  moreover have "ds = es \<and> r = s" using Cons.IH [OF _ _ _ _ rest] Cons.prems by simp
  ultimately show ?case by simp
qed simp

subsection \<open>What a signature can mean\<close>

text \<open>
  Everything an identity key of the system signs for a relay: the answer to an authentication
  challenge, a per-device record, a forwarding record, and, with the user key, a device list.
  \<^term>\<open>signed_bytes\<close> is the message the verifier hands to ML-DSA for it.
\<close>

datatype signed_content =
    ChallengeContent bytes
  | PairContent utf8 bytes bytes "utf8 list" nat
  | ForwardContent utf8 "utf8 list" nat
  | UserContent utf8 bytes nat nat "device_signing_view list"

fun signed_bytes :: "(utf8 \<Rightarrow> url_parts option) \<Rightarrow> signed_content \<Rightarrow> pair_record_error + bytes" where
  "signed_bytes parse (ChallengeContent c) = Inr (agent_sign_input (auth_signing_bytes c))"
| "signed_bytes parse (PairContent a ml kem rs t) =
     and_then (pair_signing_input parse a ml kem rs t) (\<lambda>m. Inr (agent_sign_input m))"
| "signed_bytes parse (ForwardContent a rs t) =
     and_then (forwarding_signing_input parse a rs t) (\<lambda>m. Inr (agent_sign_input m))"
| "signed_bytes parse (UserContent u pk rv t ds) = pair_record_v4_signing_input parse u pk rv t ds"

text \<open>The integers of the records are 64 bits wide.\<close>

fun content_width :: "signed_content \<Rightarrow> bool" where
  "content_width (ChallengeContent c) = True"
| "content_width (PairContent a ml kem rs t) = (t < 2 ^ 64)"
| "content_width (ForwardContent a rs t) = (t < 2 ^ 64)"
| "content_width (UserContent u pk rv t ds) =
     (rv < 2 ^ 64 \<and> t < 2 ^ 64 \<and> list_all (\<lambda>d. dv_added_at_ms d < 2 ^ 64) ds)"

lemma pair_input_Inr:
  "pair_signing_input parse a ml kem rs t = Inr m \<Longrightarrow>
   m = pair_record_domain @ lp a @ lp ml @ lp kem @ relays_bytes rs @ u64_be t \<and>
   short a \<and> short ml \<and> short kem \<and> relays_short rs"
  by (auto simp: pair_signing_input_def push_Inr relays_bytes_def relays_short_def)

lemma forward_input_Inr:
  "forwarding_signing_input parse a rs t = Inr m \<Longrightarrow>
   m = forwarding_domain @ lp a @ relays_bytes rs @ u64_be t \<and> short a \<and> relays_short rs"
  by (auto simp: forwarding_signing_input_def push_Inr relays_bytes_def relays_short_def)

lemma v4_input_Inr:
  "pair_record_v4_signing_input parse u pk rv t ds = Inr m \<Longrightarrow>
   m = pair_record_v4_domain @ lp u @ lp pk @ u64_be rv @ u64_be t @ u32_be (length ds) @ concat (map device_bytes ds) \<and>
   short u \<and> short pk \<and> length ds \<le> u32_max \<and> list_all device_short ds"
  by (auto simp: pair_record_v4_signing_input_def push_Inr push_devices_Inr)

lemma agent_sign_input_inj: "agent_sign_input m = agent_sign_input m' \<longleftrightarrow> m = m'"
  by (simp add: agent_sign_input_def assemble_agent_sign_buffer_def)

lemma domains_apart:
  "auth_challenge_domain @ x \<noteq> pair_record_domain @ y"
  "auth_challenge_domain @ x \<noteq> forwarding_domain @ y"
  "pair_record_domain @ x \<noteq> forwarding_domain @ y"
  "agent_sign_input x \<noteq> pair_record_v4_domain @ y"
  by (simp_all add: auth_challenge_domain_def pair_record_domain_def forwarding_domain_def
      pair_record_v4_domain_def agent_sign_input_def assemble_agent_sign_buffer_def
      agent_sign_namespace_tag_def ascii_def)

lemma pair_content_inj:
  assumes "pair_signing_input parse a ml kem rs t = Inr m" and "t < 2 ^ 64"
    and "pair_signing_input parse a' ml' kem' rs' t' = Inr m" and "t' < 2 ^ 64"
  shows "a = a' \<and> ml = ml' \<and> kem = kem' \<and> rs = rs' \<and> t = t'"
proof -
  note l = pair_input_Inr [OF assms(1)] and r = pair_input_Inr [OF assms(3)]
  have "lp a @ lp ml @ lp kem @ relays_bytes rs @ u64_be t =
      lp a' @ lp ml' @ lp kem' @ relays_bytes rs' @ u64_be t'"
    using l r by simp
  then show ?thesis using l r assms(2,4) by (simp add: frame_inj)
qed

lemma forward_content_inj:
  assumes "forwarding_signing_input parse a rs t = Inr m" and "t < 2 ^ 64"
    and "forwarding_signing_input parse a' rs' t' = Inr m" and "t' < 2 ^ 64"
  shows "a = a' \<and> rs = rs' \<and> t = t'"
proof -
  note l = forward_input_Inr [OF assms(1)] and r = forward_input_Inr [OF assms(3)]
  have "lp a @ relays_bytes rs @ u64_be t = lp a' @ relays_bytes rs' @ u64_be t'"
    using l r by simp
  then show ?thesis using l r assms(2,4) by (simp add: frame_inj)
qed

lemma v4_content_inj:
  assumes "pair_record_v4_signing_input parse u pk rv t ds = Inr m"
    and "content_width (UserContent u pk rv t ds)"
    and "pair_record_v4_signing_input parse u' pk' rv' t' ds' = Inr m"
    and "content_width (UserContent u' pk' rv' t' ds')"
  shows "u = u' \<and> pk = pk' \<and> rv = rv' \<and> t = t' \<and> ds = ds'"
proof -
  note l = v4_input_Inr [OF assms(1)] and r = v4_input_Inr [OF assms(3)]
  have "lp u @ lp pk @ u64_be rv @ u64_be t @ u32_be (length ds) @ concat (map device_bytes ds) =
      lp u' @ lp pk' @ u64_be rv' @ u64_be t' @ u32_be (length ds') @ concat (map device_bytes ds')"
    using l r by simp
  then have head: "u = u' \<and> pk = pk' \<and> rv = rv' \<and> t = t' \<and> length ds = length ds'"
    and tl: "concat (map device_bytes ds) = concat (map device_bytes ds')"
    using l r assms(2,4) by (simp_all add: frame_inj)
  have "ds = ds' \<and> ([] :: bytes) = []"
    by (rule devices_cancel) (use head tl l r assms(2,4) in simp_all)
  then show ?thesis using head by simp
qed

subsection \<open>Accepted records\<close>

definition id_hex :: "utf8 \<Rightarrow> bool" where
  "id_hex s \<longleftrightarrow> length s = 64 \<and> list_all lower_hex_byte s"

definition url_ok :: "(utf8 \<Rightarrow> url_parts option) \<Rightarrow> utf8 \<Rightarrow> bool" where
  "url_ok parse s \<longleftrightarrow> length s \<le> max_url_bytes \<and>
     (case parse s of None \<Rightarrow> False
      | Some u \<Rightarrow> (up_scheme u = ascii ''http'' \<or> up_scheme u = ascii ''https'') \<and>
          (case up_host u of None \<Rightarrow> False | Some h \<Rightarrow> h \<noteq> []) \<and> up_username u = [] \<and> up_password u = None)"

definition relays_ok :: "(utf8 \<Rightarrow> url_parts option) \<Rightarrow> utf8 list \<Rightarrow> bool" where
  "relays_ok parse rs \<longleftrightarrow> rs \<noteq> [] \<and> length rs \<le> max_relays \<and> list_all (url_ok parse) rs"

definition signature_ok :: "('pk, 'sig) backend \<Rightarrow> bytes \<Rightarrow> bytes \<Rightarrow> bytes \<Rightarrow> bool" where
  "signature_ok B key m sg \<longleftrightarrow>
     (\<exists>pk s. b_pk_from_bytes B key = Inr pk \<and> b_sig_from_bytes B sg = Inr s \<and> b_verify B pk m s = Inr True)"

lemma validate_id_Inr:
  "validate_agent_id_hex s = Inr x \<longleftrightarrow> id_hex s" "validate_user_id_hex s = Inr x \<longleftrightarrow> id_hex s"
  by (auto simp: validate_agent_id_hex_def validate_user_id_hex_def id_hex_def)

lemma check_url_Inr: "check_relay_url parse s = Inr x \<longleftrightarrow> url_ok parse s"
  by (auto simp: check_relay_url_def url_ok_def split: option.splits)

lemma check_all_Inr: "check_all f xs = Inr x \<longleftrightarrow> list_all (\<lambda>y. f y = Inr ()) xs"
  by (induction xs) (auto simp: and_then_Inr_iff)

lemma validate_relays_Inr: "validate_relays parse rs = Inr x \<longleftrightarrow> relays_ok parse rs"
  by (auto simp: validate_relays_def relays_ok_def check_all_Inr check_url_Inr)

lemma decode_Inr: "decode_b64 B s = Inr bs \<longleftrightarrow> b_b64_decode B s = Inr bs"
  by (auto simp: decode_b64_def split: sum.splits)

lemma check_signature_Inr: "check_signature B key m sg = Inr x \<longleftrightarrow> signature_ok B key m sg"
  by (auto simp: check_signature_def signature_ok_def split: sum.splits if_splits)

lemma guard_Inr: "(if P then Inl e else x) = Inr y \<longleftrightarrow> \<not> P \<and> x = Inr y"
  by simp

lemmas verify_Inr = and_then_Inr_iff guard_Inr validate_id_Inr validate_relays_Inr decode_Inr check_signature_Inr

lemma relays_ok_short: "relays_ok parse rs \<Longrightarrow> relays_short rs"
  by (auto simp: relays_ok_def relays_short_def list_all_iff url_ok_def short_def max_relays_def max_url_bytes_def)

lemma id_hex_short: "id_hex s \<Longrightarrow> short s"
  by (simp add: id_hex_def short_def)

text \<open>Structurally valid forwarding content always has a signing input.\<close>

lemma forward_input_total:
  assumes "id_hex a" and "relays_ok parse rs"
  shows "forwarding_signing_input parse a rs t = Inr (forwarding_domain @ lp a @ relays_bytes rs @ u64_be t)"
  using assms relays_ok_short [OF assms(2)] id_hex_short [OF assms(1)]
  unfolding forwarding_signing_input_def verify_Inr
  by (simp add: verify_Inr push_Inr relays_short_def relays_bytes_def)

lemma pair_input_total:
  assumes "id_hex a" and "relays_ok parse rs" and "short ml" and "short kem"
  shows "pair_signing_input parse a ml kem rs t =
    Inr (pair_record_domain @ lp a @ lp ml @ lp kem @ relays_bytes rs @ u64_be t)"
  using assms relays_ok_short [OF assms(2)] id_hex_short [OF assms(1)]
  unfolding pair_signing_input_def verify_Inr
  by (simp add: verify_Inr push_Inr relays_short_def relays_bytes_def)

text \<open>The decoded device a record entry stands for.\<close>

definition device_view :: "('pk, 'sig) backend \<Rightarrow> device_entry_v4 \<Rightarrow> device_signing_view \<Rightarrow> bool" where
  "device_view B d v \<longleftrightarrow>
     id_hex (d4_agent_id_hex d) \<and> relays_ok (b_url_parse B) (d4_advertised_relays d) \<and>
     b_b64_decode B (d4_ml_dsa_pubkey_b64 d) = Inr (dv_ml_dsa_pubkey v) \<and>
     b_b64_decode B (d4_kem_pubkey_b64 d) = Inr (dv_kem_pubkey v) \<and>
     b_b64_decode B (d4_cert_b64 d) = Inr (dv_cert v) \<and>
     b_hex_encode B (derive_agent_id (b_sha256 B) (dv_ml_dsa_pubkey v)) = d4_agent_id_hex d \<and>
     dv_agent_id_hex v = d4_agent_id_hex d \<and> dv_relays v = d4_advertised_relays d \<and>
     dv_added_at_ms v = d4_added_at_ms d \<and> dv_primary v = d4_primary d"

lemma view_of_device_Inr: "view_of_device B d = Inr v \<longleftrightarrow> device_view B d v"
  by (cases v) (auto simp: view_of_device_def device_view_def verify_Inr)

lemma views_Inr: "views_of_devices B ds = Inr vs \<longleftrightarrow> list_all2 (device_view B) ds vs"
  by (induction ds arbitrary: vs) (auto simp: verify_Inr view_of_device_Inr list_all2_Cons1)

fun kind_of_content :: "signed_content \<Rightarrow> nat" where
  "kind_of_content (ChallengeContent _) = 0"
| "kind_of_content (PairContent _ _ _ _ _) = 1"
| "kind_of_content (ForwardContent _ _ _) = 2"
| "kind_of_content (UserContent _ _ _ _ _) = 3"

lemma signed_bytes_head:
  "signed_bytes parse c = Inr m \<Longrightarrow>
   (kind_of_content c = 0 \<and> (\<exists>y. m = agent_sign_input (auth_challenge_domain @ y))) \<or>
   (kind_of_content c = 1 \<and> (\<exists>y. m = agent_sign_input (pair_record_domain @ y))) \<or>
   (kind_of_content c = 2 \<and> (\<exists>y. m = agent_sign_input (forwarding_domain @ y))) \<or>
   (kind_of_content c = 3 \<and> (\<exists>y. m = pair_record_v4_domain @ y))"
  by (cases c) (auto simp: and_then_Inr_iff auth_signing_bytes_def
      dest: pair_input_Inr forward_input_Inr v4_input_Inr)

lemma signed_bytes_same_kind:
  "signed_bytes parse c = Inr m \<Longrightarrow> signed_bytes parse c' = Inr m \<Longrightarrow> kind_of_content c = kind_of_content c'"
  by (drule signed_bytes_head)+
     (auto simp: agent_sign_input_inj domains_apart domains_apart [symmetric])

text \<open>
  (C36) Signatures cannot be moved between meanings. The bytes an identity key signs determine
  what was signed: an answer to a challenge, a pairing record, a forwarding record or a device
  list, with every field of it. So a signature that verifies for one of them verifies for no
  other content, of the same kind or of another, and a challenge answered for a relay can never
  be replayed as a record.
\<close>

theorem signed_bytes_unambiguous:
  assumes "signed_bytes parse c = Inr m" and "content_width c"
    and "signed_bytes parse c' = Inr m" and "content_width c'"
  shows "c = c'"
proof (cases c)
  case (ChallengeContent x)
  then show ?thesis using assms signed_bytes_same_kind [OF assms(1,3)]
    by (cases c') (auto simp: agent_sign_input_inj auth_signing_bytes_def)
next
  case (PairContent a ml kem rs t)
  then obtain a' ml' kem' rs' t' where c': "c' = PairContent a' ml' kem' rs' t'"
    using signed_bytes_same_kind [OF assms(1,3)] by (cases c') auto
  obtain x where "pair_signing_input parse a ml kem rs t = Inr x" "pair_signing_input parse a' ml' kem' rs' t' = Inr x"
    using assms(1,3) unfolding PairContent c' by (auto simp: and_then_Inr_iff agent_sign_input_inj)
  then show ?thesis using pair_content_inj assms(2,4) unfolding PairContent c' by simp
next
  case (ForwardContent a rs t)
  then obtain a' rs' t' where c': "c' = ForwardContent a' rs' t'"
    using signed_bytes_same_kind [OF assms(1,3)] by (cases c') auto
  obtain x where "forwarding_signing_input parse a rs t = Inr x" "forwarding_signing_input parse a' rs' t' = Inr x"
    using assms(1,3) unfolding ForwardContent c' by (auto simp: and_then_Inr_iff agent_sign_input_inj)
  then show ?thesis using forward_content_inj assms(2,4) unfolding ForwardContent c' by simp
next
  case (UserContent u pk rv t ds)
  then obtain u' pk' rv' t' ds' where c': "c' = UserContent u' pk' rv' t' ds'"
    using signed_bytes_same_kind [OF assms(1,3)] by (cases c') auto
  show ?thesis using v4_content_inj assms unfolding UserContent c' signed_bytes.simps by blast
qed

text \<open>A backend that decodes and parses every input and accepts every signature.\<close>

definition open_backend :: "(bytes, bytes) backend" where
  "open_backend = \<lparr> b_b64_decode = Inr, b_hex_encode = (\<lambda>_. replicate 64 0x61), b_hex_decode = (\<lambda>_. Some (replicate 32 0xAA)),
     b_sha256 = (\<lambda>_. replicate 32 0xAA),
     b_url_parse = (\<lambda>_. Some \<lparr> up_scheme = ascii ''https'', up_host = Some [0x61], up_username = [], up_password = None \<rparr>),
     b_pk_from_bytes = Inr, b_sig_from_bytes = Inr, b_verify = (\<lambda>_ _ _. Inr True) \<rparr>"

definition demo_id :: utf8 where "demo_id = replicate 64 0x61"

lemma demo_id_hex: "id_hex demo_id"
  by (simp add: id_hex_def demo_id_def lower_hex_byte_def list_all_iff)

lemma demo_relays: "relays_ok (b_url_parse open_backend) [[0x61]]"
  by (simp add: relays_ok_def url_ok_def open_backend_def max_relays_def max_url_bytes_def)

theorem signed_bytes_unambiguous_witness:
  "signed_bytes (b_url_parse open_backend) (ForwardContent demo_id [[0x61]] 1) \<noteq>
   signed_bytes (b_url_parse open_backend) (ForwardContent demo_id [[0x61]] 2)"
proof
  let ?p = "b_url_parse open_backend"
  assume eq: "signed_bytes ?p (ForwardContent demo_id [[0x61]] 1) = signed_bytes ?p (ForwardContent demo_id [[0x61]] 2)"
  obtain m where m: "signed_bytes ?p (ForwardContent demo_id [[0x61]] 1) = Inr m"
    unfolding signed_bytes.simps forward_input_total [OF demo_id_hex demo_relays] and_then_simps by blast
  have "ForwardContent demo_id [[0x61]] 1 = ForwardContent demo_id [[0x61]] 2"
    by (rule signed_bytes_unambiguous [OF m _ m [unfolded eq]]) simp_all
  then show False by simp
qed

text \<open>
  Acceptance of a pairing record and of a forwarding record, exactly: the fields decode, one
  to four relays are http or https URLs of at most 256 bytes with a host and no credentials, the
  agent id is the one derived from the key, and the signature verifies under that key over the
  record's own content. The record version and the machine id play no part in it.
\<close>

lemma record_accepted_iff:
  "(verify_pair_record B r = Inr () \<longleftrightarrow>
     (\<exists>key kem sg m. b_b64_decode B (p1_ml_dsa_pubkey_b64 r) = Inr key \<and>
        b_b64_decode B (p1_kem_pubkey_b64 r) = Inr kem \<and> b_b64_decode B (p1_sig_b64 r) = Inr sg \<and>
        id_hex (p1_agent_id_hex r) \<and> relays_ok (b_url_parse B) (p1_advertised_relays r) \<and>
        p1_agent_id_hex r = b_hex_encode B (derive_agent_id (b_sha256 B) key) \<and>
        signed_bytes (b_url_parse B)
          (PairContent (p1_agent_id_hex r) key kem (p1_advertised_relays r) (p1_issued_at_ms r)) = Inr m \<and>
        signature_ok B key m sg)) \<and>
   (verify_forwarding_record B f key = Inr () \<longleftrightarrow>
     (\<exists>sg m. b_b64_decode B (fw_sig_b64 f) = Inr sg \<and>
        id_hex (fw_agent_id_hex f) \<and> relays_ok (b_url_parse B) (fw_moved_to_relays f) \<and>
        fw_agent_id_hex f = b_hex_encode B (derive_agent_id (b_sha256 B) key) \<and>
        signed_bytes (b_url_parse B)
          (ForwardContent (fw_agent_id_hex f) (fw_moved_to_relays f) (fw_issued_at_ms f)) = Inr m \<and>
        signature_ok B key m sg))"
  unfolding verify_pair_record_def verify_forwarding_record_def signed_bytes.simps verify_Inr sum.inject
  by (intro conjI) (safe, (metis | blast)+)

text \<open>
  Acceptance of a user-scoped record, exactly: one to five devices, exactly one of them
  primary, every device with a well-formed id derived from its own key and valid relays, a user
  id derived from the account key, and a signature of the account key over the whole list.
\<close>

lemma device_list_accepted_iff:
  "verify_pair_record_v4 B r = Inr () \<longleftrightarrow>
     id_hex (p4_user_id_hex r) \<and> p4_devices r \<noteq> [] \<and> length (p4_devices r) \<le> max_devices \<and>
     length (filter d4_primary (p4_devices r)) = 1 \<and>
     (\<exists>key views sg m. b_b64_decode B (p4_user_ml_dsa_pubkey_b64 r) = Inr key \<and>
        b_hex_encode B (derive_user_id (b_sha256 B) key) = p4_user_id_hex r \<and>
        list_all2 (device_view B) (p4_devices r) views \<and>
        b_b64_decode B (p4_user_signature_b64 r) = Inr sg \<and>
        signed_bytes (b_url_parse B)
          (UserContent (p4_user_id_hex r) key (p4_revision r) (p4_issued_at_ms r) views) = Inr m \<and>
        signature_ok B key m sg)"
  unfolding verify_pair_record_v4_def signed_bytes.simps Let_def
  unfolding verify_Inr views_Inr not_less not_not by blast

definition demo_pair :: pair_record_v1 where
  "demo_pair = \<lparr> p1_record_version = 1, p1_agent_id_hex = demo_id, p1_ml_dsa_pubkey_b64 = [1], p1_kem_pubkey_b64 = [2],
     p1_machine_id = [], p1_advertised_relays = [[0x61]], p1_issued_at_ms = 7, p1_sig_b64 = [3] \<rparr>"

lemma demo_pair_verified: "verify_pair_record open_backend demo_pair = Inr ()"
  unfolding verify_pair_record_def verify_Inr
  using pair_input_total [OF demo_id_hex demo_relays, of "[1]" "[2]" 7] demo_id_hex demo_relays
  by (simp add: demo_pair_def short_def signature_ok_def) (simp add: open_backend_def demo_id_def)

end
