(* ===== verification/Relay_Rate_Limit.thy ===== *)
theory Relay_Rate_Limit
  imports Complex_Main Relay_Proto
begin

text \<open>
  The token bucket per agent (\<^verbatim>\<open>fetchit-relay-server/src/ratelimit.rs\<close>). An \<^verbatim>\<open>f64\<close> is a
  rational number and every floating-point operation is the exact one followed by a rounding
  \<open>rnd\<close>, a parameter; \<open>rounding\<close> states what IEEE 754 says of it: rounding is monotone and
  exact on the integers of a \<^verbatim>\<open>u32\<close>. An \<^verbatim>\<open>Instant\<close> is a number of nanoseconds.
\<close>

subsection \<open>The code\<close>

definition as_secs_f64 :: "(rat \<Rightarrow> rat) \<Rightarrow> nat \<Rightarrow> rat" where
  "as_secs_f64 rnd d = rnd (rnd (of_nat (d div 10 ^ 9)) + rnd (of_nat (d mod 10 ^ 9) / 10 ^ 9))"

record bucket =
  bk_tokens :: rat
  bk_capacity :: rat
  bk_refill_per_sec :: rat
  bk_last_refill :: nat
  bk_max_per_min :: nat

type_synonym rate_limiter = "(relay_id, bucket) hmap"

definition adopt_cap :: "(rat \<Rightarrow> rat) \<Rightarrow> nat \<Rightarrow> bucket \<Rightarrow> bucket" where
  "adopt_cap rnd max_per_min b =
     (if bk_max_per_min b \<noteq> max_per_min
      then b\<lparr> bk_tokens := min (bk_tokens b) (of_nat max_per_min), bk_capacity := of_nat max_per_min,
              bk_refill_per_sec := rnd (of_nat max_per_min / 60), bk_max_per_min := max_per_min \<rparr>
      else b)"

definition refill :: "(rat \<Rightarrow> rat) \<Rightarrow> nat \<Rightarrow> bucket \<Rightarrow> bucket" where
  "refill rnd now b =
     (let elapsed = as_secs_f64 rnd (now - bk_last_refill b)
      in b\<lparr> bk_last_refill := now,
            bk_tokens := min (rnd (bk_tokens b + rnd (elapsed * bk_refill_per_sec b))) (bk_capacity b) \<rparr>)"

definition allow :: "(rat \<Rightarrow> rat) \<Rightarrow> nat \<Rightarrow> relay_id \<Rightarrow> nat \<Rightarrow> rate_limiter \<Rightarrow> bool \<times> rate_limiter" where
  "allow rnd now agent max_per_min s =
     (let cap = of_nat max_per_min;
          b0 = (case hm_get s agent of Some b \<Rightarrow> b
                | None \<Rightarrow> \<lparr> bk_tokens = cap, bk_capacity = cap, bk_refill_per_sec = rnd (cap / 60),
                            bk_last_refill = now, bk_max_per_min = max_per_min \<rparr>);
          b = refill rnd now (adopt_cap rnd max_per_min b0)
      in if bk_tokens b \<ge> 1
         then (True, hm_insert agent (b\<lparr> bk_tokens := rnd (bk_tokens b - 1) \<rparr>) s)
         else (False, hm_insert agent b s))"

definition sweep_idle :: "nat \<Rightarrow> nat \<Rightarrow> rate_limiter \<Rightarrow> rate_limiter" where
  "sweep_idle now idle s = hm_retain (\<lambda>_ b. now - bk_last_refill b < idle) s"

definition tracked_agents :: "rate_limiter \<Rightarrow> nat" where
  "tracked_agents s = length s"

subsection \<open>What a burst can take\<close>

definition rounding :: "(rat \<Rightarrow> rat) \<Rightarrow> bool" where
  "rounding rnd \<longleftrightarrow> (\<forall>x y. x \<le> y \<longrightarrow> rnd x \<le> rnd y) \<and> (\<forall>n \<le> 2 ^ 32. rnd (of_nat n) = of_nat n)"

definition buckets_ok :: "rate_limiter \<Rightarrow> bool" where
  "buckets_ok s \<longleftrightarrow> (\<forall>a b. hm_get s a = Some b \<longrightarrow> bk_capacity b = of_nat (bk_max_per_min b))"

lemma rounding_mono: "rounding rnd \<Longrightarrow> x \<le> y \<Longrightarrow> rnd x \<le> rnd y"
  by (simp add: rounding_def)

lemma rounding_nat: "rounding rnd \<Longrightarrow> n \<le> 2 ^ 32 \<Longrightarrow> rnd (of_nat n) = of_nat n"
  by (simp add: rounding_def)

lemma rounding_zero: "rounding rnd \<Longrightarrow> rnd 0 = 0"
  using rounding_nat [of rnd 0] by simp

lemma refill_fields [simp]:
  "bk_capacity (refill rnd now b) = bk_capacity b" "bk_max_per_min (refill rnd now b) = bk_max_per_min b"
  "bk_last_refill (refill rnd now b) = now" "bk_tokens (refill rnd now b) \<le> bk_capacity b"
  by (simp_all add: refill_def Let_def)

lemma allow_ok: "buckets_ok s \<Longrightarrow> buckets_ok (snd (allow rnd now a m s))"
  by (auto simp: buckets_ok_def allow_def Let_def adopt_cap_def hm_simps split: option.splits if_splits)

text \<open>What the limiter holds for an agent after a call: a bucket stamped now, with tokens at
  most the cap less the one taken.\<close>

definition holds :: "nat \<Rightarrow> relay_id \<Rightarrow> nat \<Rightarrow> rate_limiter \<Rightarrow> bool" where
  "holds now a k s \<longleftrightarrow> (\<exists>b. hm_get s a = Some b \<and> bk_last_refill b = now \<and> bk_tokens b \<le> of_nat k)"

lemma taken:
  assumes "rounding rnd" and "k \<le> 2 ^ 32" and "t \<le> of_nat k" and "t \<ge> 1"
  shows "0 < k" and "rnd (t - 1) \<le> of_nat (k - 1)"
proof -
  show k: "0 < k" using assms(3,4) by (cases k) auto
  have "t - 1 \<le> of_nat (k - 1)" using assms(3) k by (simp add: of_nat_diff)
  then have "rnd (t - 1) \<le> rnd (of_nat (k - 1))" by (rule rounding_mono [OF assms(1)])
  moreover have "rnd (of_nat (k - 1)) = of_nat (k - 1)" using assms(1,2) by (intro rounding_nat) auto
  ultimately show "rnd (t - 1) \<le> of_nat (k - 1)" by simp
qed

lemma first_call:
  assumes "rounding rnd" and "buckets_ok s" and "m \<le> 2 ^ 32"
  shows "if fst (allow rnd now a m s) then 0 < m \<and> holds now a (m - 1) (snd (allow rnd now a m s))
         else holds now a m (snd (allow rnd now a m s))"
proof -
  let ?new = "\<lparr> bk_tokens = of_nat m, bk_capacity = of_nat m, bk_refill_per_sec = rnd (of_nat m / 60),
                bk_last_refill = now, bk_max_per_min = m \<rparr>"
  let ?old = "case hm_get s a of Some b \<Rightarrow> b | None \<Rightarrow> ?new"
  let ?b = "refill rnd now (adopt_cap rnd m ?old)"
  have "bk_capacity (adopt_cap rnd m ?old) = of_nat m"
    using assms(2) by (auto simp: adopt_cap_def buckets_ok_def split: option.splits)
  then have le: "bk_tokens ?b \<le> of_nat m" by (metis refill_fields(4))
  have now: "bk_last_refill ?b = now" by simp
  show ?thesis
  proof (cases "bk_tokens ?b \<ge> 1")
    case True
    then show ?thesis using taken [OF assms(1,3) le True] now
      by (simp add: allow_def Let_def holds_def hm_simps)
  next
    case False
    then show ?thesis using le now by (simp add: allow_def Let_def holds_def hm_simps)
  qed
qed

lemma next_call:
  assumes r: "rounding rnd" and "buckets_ok s" and k: "k \<le> 2 ^ 32" and "holds now a k s"
  shows "if fst (allow rnd now a m s) then 0 < k \<and> holds now a (k - 1) (snd (allow rnd now a m s))
         else holds now a k (snd (allow rnd now a m s))"
proof -
  obtain b0 where b0: "hm_get s a = Some b0" "bk_last_refill b0 = now" "bk_tokens b0 \<le> of_nat k"
    using assms(4) by (auto simp: holds_def)
  let ?adopted = "adopt_cap rnd m b0" and ?b = "refill rnd now (adopt_cap rnd m b0)"
  have z: "as_secs_f64 rnd 0 = 0" using rounding_zero [OF r] by (simp add: as_secs_f64_def)
  have b1: "bk_last_refill ?adopted = now" "bk_tokens ?adopted \<le> of_nat k"
    using b0 by (auto simp: adopt_cap_def min_def)
  have "rnd (bk_tokens ?adopted) \<le> rnd (of_nat k)" using b1(2) by (rule rounding_mono [OF r])
  then have "rnd (bk_tokens ?adopted) \<le> of_nat k" using rounding_nat [OF r k] by simp
  then have le: "bk_tokens ?b \<le> of_nat k"
    using b1(1) z rounding_zero [OF r] by (simp add: refill_def Let_def min_def)
  have now: "bk_last_refill ?b = now" by simp
  show ?thesis
  proof (cases "bk_tokens ?b \<ge> 1")
    case True
    then show ?thesis using taken [OF r k le True] now b0(1)
      by (simp add: allow_def Let_def holds_def hm_simps)
  next
    case False
    then show ?thesis using le now b0(1) by (simp add: allow_def Let_def holds_def hm_simps)
  qed
qed

text \<open>A burst: calls of one agent at one instant, each with the cap its session has then.\<close>

fun burst :: "(rat \<Rightarrow> rat) \<Rightarrow> nat \<Rightarrow> relay_id \<Rightarrow> nat list \<Rightarrow> rate_limiter \<Rightarrow> nat" where
  "burst rnd now a [] s = 0"
| "burst rnd now a (m # ms) s =
     (if fst (allow rnd now a m s) then 1 else 0) + burst rnd now a ms (snd (allow rnd now a m s))"

lemma burst_le:
  "rounding rnd \<Longrightarrow> buckets_ok s \<Longrightarrow> k \<le> 2 ^ 32 \<Longrightarrow> holds now a k s \<Longrightarrow> burst rnd now a ms s \<le> k"
proof (induction ms arbitrary: s k)
  case (Cons m ms)
  let ?s = "snd (allow rnd now a m s)"
  have ok: "buckets_ok ?s" using Cons.prems(2) by (rule allow_ok)
  note step = next_call [OF Cons.prems, of m]
  show ?case
  proof (cases "fst (allow rnd now a m s)")
    case True
    then have "0 < k" "burst rnd now a ms ?s \<le> k - 1"
      using step Cons.IH [OF Cons.prems(1) ok, of "k - 1"] Cons.prems(3) by auto
    then show ?thesis using True by simp
  next
    case False
    then show ?thesis using step Cons.IH [OF Cons.prems(1) ok Cons.prems(3)] by simp
  qed
qed simp

text \<open>
  A burst never exceeds the cap, and changing the cap mid-burst gains nothing: of any number
  of calls of one agent at one instant, each with a cap of at most \<open>M\<close>, at most \<open>M\<close> are
  admitted, whatever the limiter held before.
\<close>

lemma burst_at_most_cap:
  assumes "rounding rnd" and "buckets_ok s" and "\<forall>m \<in> set ms. m \<le> M" and "M \<le> 2 ^ 32"
  shows "burst rnd now a ms s \<le> M"
proof (cases ms)
  case (Cons m ms')
  let ?s = "snd (allow rnd now a m s)"
  have m: "m \<le> M" "m \<le> 2 ^ 32" using assms(3,4) Cons by auto
  have ok: "buckets_ok ?s" using assms(2) by (rule allow_ok)
  note step = first_call [OF assms(1,2) m(2), of now a]
  show ?thesis
  proof (cases "fst (allow rnd now a m s)")
    case True
    then have "0 < m" "burst rnd now a ms' ?s \<le> m - 1"
      using step burst_le [OF assms(1) ok, of "m - 1"] m(2) by auto
    then show ?thesis using True Cons m(1) by simp
  next
    case False
    then have "burst rnd now a ms' ?s \<le> m" using step burst_le [OF assms(1) ok m(2)] by simp
    then show ?thesis using False Cons m(1) by simp
  qed
qed simp

end
