(* ===== verification/Relay_Transit.thy ===== *)
theory Relay_Transit
  imports Relay_Proto
begin

text \<open>
  The store of undelivered envelopes (\<^verbatim>\<open>fetchit-relay-server/src/transit.rs\<close>): the error type
  of the server, the in-memory \<^verbatim>\<open>TransitBuffer\<close> with its byte budget, and the contract of the
  \<^verbatim>\<open>TransitStore\<close> trait as a locale that the buffer is shown to satisfy. The clock is an
  argument of the operations that read it; an operation on the map and its atomic counters is
  one step.
\<close>

subsection \<open>Errors\<close>

datatype server_error =
    Io string | Config string | Proto string | AuthRejected string | BearerInvalid
  | CapabilityInvalid string | RegionDenied string | RateLimited | EnvelopeTooLargeErr nat nat
  | TransitBufferFull | TransitStoreErr string | GroupLogFull | GroupLogErr string

subsection \<open>The buffer\<close>

definition envelope_fixed_overhead :: nat where
  "envelope_fixed_overhead = 128"

definition envelope_size :: "transit_envelope \<Rightarrow> nat" where
  "envelope_size e =
     u64_sat_add (u64_sat_add (u64_sat_add (u64_sat_add envelope_fixed_overhead
       (length (e_ciphertext e))) (length (e_nonce e))) (length (e_kem_ciphertext e)))
       (length (e_sender_signature e))"

record transit_entry =
  te_envelope :: transit_envelope
  te_enqueued_at_ms :: nat

record stored_entry =
  se_id :: nat
  se_envelope :: transit_envelope
  se_enqueued_at_ms :: nat

record transit_buffer =
  tb_by_recipient :: "(relay_id, (nat \<times> transit_entry) list) hmap"
  tb_ttl_ms :: nat
  tb_cap_per_recipient :: nat
  tb_max_total_bytes :: nat
  tb_total_bytes :: nat
  tb_next_id :: nat

definition tb_new :: "nat \<Rightarrow> nat \<Rightarrow> nat \<Rightarrow> transit_buffer" where
  "tb_new ttl_ms cap_per_recipient max_total_bytes =
     \<lparr> tb_by_recipient = hm_empty, tb_ttl_ms = min ttl_ms u64_max,
       tb_cap_per_recipient = cap_per_recipient, tb_max_total_bytes = max_total_bytes,
       tb_total_bytes = 0, tb_next_id = 1 \<rparr>"

definition reserve_bytes :: "nat \<Rightarrow> transit_buffer \<Rightarrow> server_error + transit_buffer" where
  "reserve_bytes sz s =
     (let next = u64_sat_add (tb_total_bytes s) sz
      in if next > tb_max_total_bytes s then Inl TransitBufferFull
         else Inr (s\<lparr> tb_total_bytes := next \<rparr>))"

definition queue_of :: "transit_buffer \<Rightarrow> relay_id \<Rightarrow> (nat \<times> transit_entry) list" where
  "queue_of s to = (case hm_get (tb_by_recipient s) to of Some q \<Rightarrow> q | None \<Rightarrow> [])"

definition enqueue :: "nat \<Rightarrow> relay_id \<Rightarrow> transit_envelope \<Rightarrow> transit_buffer
    \<Rightarrow> (server_error + nat) \<times> transit_buffer" where
  "enqueue now_ms to envelope s =
     (let sz = envelope_size envelope
      in case reserve_bytes sz s of
           Inl e \<Rightarrow> (Inl e, s)
         | Inr s1 \<Rightarrow>
             (let q = queue_of s1 to;
                  s2 = s1\<lparr> tb_by_recipient := hm_insert to q (tb_by_recipient s1) \<rparr>
              in if length q \<ge> tb_cap_per_recipient s2
                 then (Inl TransitBufferFull,
                       s2\<lparr> tb_total_bytes := u64_wrap_sub (tb_total_bytes s2) sz \<rparr>)
                 else
                   (let i = tb_next_id s2;
                        entry = \<lparr> te_envelope = envelope, te_enqueued_at_ms = now_ms \<rparr>
                    in (Inr i, s2\<lparr> tb_next_id := u64_wrap_add i 1,
                          tb_by_recipient := hm_insert to (q @ [(i, entry)]) (tb_by_recipient s2) \<rparr>))))"

definition stored_of :: "nat \<times> transit_entry \<Rightarrow> stored_entry" where
  "stored_of item =
     \<lparr> se_id = fst item, se_envelope = te_envelope (snd item),
       se_enqueued_at_ms = te_enqueued_at_ms (snd item) \<rparr>"

definition read_all :: "transit_buffer \<Rightarrow> relay_id \<Rightarrow> stored_entry list" where
  "read_all s to = map stored_of (queue_of s to)"

definition freed_bytes :: "(nat \<times> transit_entry) list \<Rightarrow> nat \<Rightarrow> nat" where
  "freed_bytes dropped freed = foldl (\<lambda>f (_, e). u64_sat_add f (envelope_size (te_envelope e))) freed dropped"

definition transit_delete :: "relay_id \<Rightarrow> nat list \<Rightarrow> transit_buffer \<Rightarrow> nat \<times> transit_buffer" where
  "transit_delete to ids s =
     (case hm_get (tb_by_recipient s) to of
        None \<Rightarrow> (0, s)
      | Some q \<Rightarrow>
          (let kept = filter (\<lambda>item. fst item \<notin> set ids) q;
               freed = freed_bytes (filter (\<lambda>item. fst item \<in> set ids) q) 0
           in (length q - length kept,
               s\<lparr> tb_by_recipient := hm_insert to kept (tb_by_recipient s),
                  tb_total_bytes := u64_wrap_sub (tb_total_bytes s) freed \<rparr>)))"

definition item_alive :: "nat \<Rightarrow> nat \<Rightarrow> nat \<times> transit_entry \<Rightarrow> bool" where
  "item_alive ttl_ms now item \<longleftrightarrow> now - te_enqueued_at_ms (snd item) < ttl_ms"

definition transit_sweep_expired :: "nat \<Rightarrow> transit_buffer \<Rightarrow> nat \<times> transit_buffer" where
  "transit_sweep_expired now s =
     (let alive = item_alive (tb_ttl_ms s) now;
          dropped = concat (map (filter (\<lambda>x. \<not> alive x)) (hm_values (tb_by_recipient s)));
          swept = hm_map_values (filter alive) (tb_by_recipient s)
      in (length dropped,
          s\<lparr> tb_by_recipient := hm_retain (\<lambda>_ q. q \<noteq> []) swept,
             tb_total_bytes := u64_wrap_sub (tb_total_bytes s) (freed_bytes dropped 0) \<rparr>))"

definition transit_len :: "transit_buffer \<Rightarrow> nat" where
  "transit_len s = sum_list (map length (hm_values (tb_by_recipient s)))"

subsection \<open>The contract\<close>

datatype transit_op =
    EnqueueOp nat relay_id transit_envelope | DeleteOp relay_id "nat list" | SweepOp nat

locale transit_store =
  fixes enq :: "nat \<Rightarrow> relay_id \<Rightarrow> transit_envelope \<Rightarrow> 's \<Rightarrow> (server_error + nat) \<times> 's"
    and read :: "'s \<Rightarrow> relay_id \<Rightarrow> stored_entry list"
    and del :: "relay_id \<Rightarrow> nat list \<Rightarrow> 's \<Rightarrow> nat \<times> 's"
    and sweep :: "nat \<Rightarrow> 's \<Rightarrow> nat \<times> 's"
    and ttl :: "'s \<Rightarrow> nat"
    and inv :: "'s \<Rightarrow> bool"
  assumes enq_ok: "inv s \<Longrightarrow> enq t to e s = (Inr i, s') \<Longrightarrow> read s' to' =
        (if to' = to then read s to @ [\<lparr> se_id = i, se_envelope = e, se_enqueued_at_ms = t \<rparr>] else read s to')"
    and enq_err: "inv s \<Longrightarrow> enq t to e s = (Inl x, s') \<Longrightarrow> read s' to' = read s to'"
    and del_read: "inv s \<Longrightarrow> read (snd (del to ids s)) to' =
        (if to' = to then filter (\<lambda>x. se_id x \<notin> set ids) (read s to) else read s to')"
    and del_count: "inv s \<Longrightarrow> fst (del to ids s) = length (filter (\<lambda>x. se_id x \<in> set ids) (read s to))"
    and sweep_read: "inv s \<Longrightarrow> read (snd (sweep now s)) to =
        filter (\<lambda>x. now - se_enqueued_at_ms x < ttl s) (read s to)"
    and ttl_enq: "ttl (snd (enq t to e s)) = ttl s"
    and ttl_del: "ttl (snd (del to ids s)) = ttl s"
    and ttl_sweep: "ttl (snd (sweep now s)) = ttl s"
    and inv_enq: "inv s \<Longrightarrow> inv (snd (enq t to e s))"
    and inv_del: "inv s \<Longrightarrow> inv (snd (del to ids s))"
    and inv_sweep: "inv s \<Longrightarrow> inv (snd (sweep now s))"
begin

fun step :: "'s \<Rightarrow> transit_op \<Rightarrow> 's" where
  "step s (EnqueueOp t to e) = snd (enq t to e s)"
| "step s (DeleteOp to ids) = snd (del to ids s)"
| "step s (SweepOp now) = snd (sweep now s)"

fun spares :: "relay_id \<Rightarrow> nat \<Rightarrow> stored_entry \<Rightarrow> transit_op \<Rightarrow> bool" where
  "spares to life x (DeleteOp to' ids) = (to' = to \<longrightarrow> se_id x \<notin> set ids)"
| "spares to life x (SweepOp now) = (now - se_enqueued_at_ms x < life)"
| "spares to life x (EnqueueOp _ _ _) = True"

lemma step_inv: "inv s \<Longrightarrow> inv (step s op) \<and> ttl (step s op) = ttl s"
  by (cases op) (simp_all add: inv_enq inv_del inv_sweep ttl_enq ttl_del ttl_sweep)

lemma step_keeps: "inv s \<Longrightarrow> x \<in> set (read s to) \<Longrightarrow> spares to (ttl s) x op \<Longrightarrow> x \<in> set (read (step s op) to)"
proof (cases op)
  case (EnqueueOp t to' e)
  assume "inv s" "x \<in> set (read s to)"
  then show ?thesis
    by (cases "enq t to' e s"; cases "fst (enq t to' e s)") (auto simp: EnqueueOp enq_ok enq_err)
qed (auto simp: del_read sweep_read)

lemma run_keeps:
  "inv s \<Longrightarrow> x \<in> set (read s to) \<Longrightarrow> list_all (spares to (ttl s) x) ops \<Longrightarrow>
   x \<in> set (read (foldl step s ops) to)"
  by (induction ops arbitrary: s) (simp_all add: step_keeps step_inv)

end

subsection \<open>The buffer satisfies the contract\<close>

definition queue_bytes :: "(nat \<times> transit_entry) list \<Rightarrow> nat" where
  "queue_bytes q = sum_list (map (\<lambda>(_, e). envelope_size (te_envelope e)) q)"

definition transit_inv :: "transit_buffer \<Rightarrow> bool" where
  "transit_inv s \<longleftrightarrow>
     hm_wf (tb_by_recipient s) \<and> tb_max_total_bytes s < u64_max \<and>
     tb_total_bytes s = hm_sum queue_bytes (tb_by_recipient s) \<and>
     tb_total_bytes s \<le> tb_max_total_bytes s \<and>
     (\<forall>to. length (queue_of s to) \<le> tb_cap_per_recipient s)"

lemma queue_bytes_simps [simp]:
  "queue_bytes [] = 0" "queue_bytes (x # q) = envelope_size (te_envelope (snd x)) + queue_bytes q"
  "queue_bytes (q @ r) = queue_bytes q + queue_bytes r"
  by (simp_all add: queue_bytes_def case_prod_beta)

lemma queue_bytes_filter: "queue_bytes (filter P q) + queue_bytes (filter (\<lambda>x. \<not> P x) q) = queue_bytes q"
  by (induction q) auto

lemma freed_bytes_exact: "queue_bytes q + f \<le> u64_max \<Longrightarrow> freed_bytes q f = queue_bytes q + f"
proof (induction q arbitrary: f)
  case Nil
  then show ?case by (simp add: freed_bytes_def)
next
  case (Cons x q)
  let ?g = "f + envelope_size (te_envelope (snd x))"
  have "u64_sat_add f (envelope_size (te_envelope (snd x))) = ?g" using Cons.prems by simp
  then have "freed_bytes (x # q) f = freed_bytes q ?g" by (simp add: freed_bytes_def case_prod_beta)
  then show ?case using Cons by simp
qed

lemma queue_of_insert: "queue_of (s\<lparr> tb_by_recipient := hm_insert to q m \<rparr>) to' =
    (if to' = to then q else queue_of (s\<lparr> tb_by_recipient := m \<rparr>) to')"
  by (simp add: queue_of_def hm_simps)

lemma queue_of_id [simp]:
  "queue_of (s\<lparr> tb_total_bytes := n \<rparr>) to = queue_of s to"
  "queue_of (s\<lparr> tb_next_id := n \<rparr>) to = queue_of s to"
  "queue_of (s\<lparr> tb_by_recipient := tb_by_recipient s \<rparr>) to = queue_of s to"
  by (simp_all add: queue_of_def)

lemma sum_insert_queue:
  "hm_sum queue_bytes (hm_insert to q (tb_by_recipient s)) + queue_bytes (queue_of s to) =
   hm_sum queue_bytes (tb_by_recipient s) + queue_bytes q"
  by (cases "hm_get (tb_by_recipient s) to")
     (simp_all add: queue_of_def hm_sum_insert_new hm_sum_insert_old)

lemma queue_bytes_le: "transit_inv s \<Longrightarrow> queue_bytes (queue_of s to) \<le> tb_total_bytes s"
  by (cases "hm_get (tb_by_recipient s) to")
     (auto simp: transit_inv_def queue_of_def hm_sum_get_le)

text \<open>The result of an enqueue, by cases on the two caps.\<close>

lemma enqueue_cases:
  assumes "transit_inv s"
  obtains
    (bytes) "tb_total_bytes s + envelope_size e > tb_max_total_bytes s"
      "enqueue t to e s = (Inl TransitBufferFull, s)"
  | (cap) "tb_total_bytes s + envelope_size e \<le> tb_max_total_bytes s"
      "length (queue_of s to) \<ge> tb_cap_per_recipient s"
      "enqueue t to e s = (Inl TransitBufferFull,
         s\<lparr> tb_by_recipient := hm_insert to (queue_of s to) (tb_by_recipient s) \<rparr>)"
  | (ok) "tb_total_bytes s + envelope_size e \<le> tb_max_total_bytes s"
      "length (queue_of s to) < tb_cap_per_recipient s"
      "enqueue t to e s = (Inr (tb_next_id s),
         s\<lparr> tb_total_bytes := tb_total_bytes s + envelope_size e,
            tb_next_id := u64_wrap_add (tb_next_id s) 1,
            tb_by_recipient := hm_insert to (queue_of s to @ [(tb_next_id s,
               \<lparr> te_envelope = e, te_enqueued_at_ms = t \<rparr>)])
                 (hm_insert to (queue_of s to) (tb_by_recipient s)) \<rparr>)"
proof -
  have max: "tb_max_total_bytes s < u64_max" "tb_total_bytes s \<le> tb_max_total_bytes s"
    using assms by (auto simp: transit_inv_def)
  consider (a) "tb_total_bytes s + envelope_size e > tb_max_total_bytes s"
    | (b) "tb_total_bytes s + envelope_size e \<le> tb_max_total_bytes s" by linarith
  then show thesis
  proof cases
    case a
    then have "u64_sat_add (tb_total_bytes s) (envelope_size e) > tb_max_total_bytes s"
      using max by (simp add: u64_sat_add_def)
    then show thesis using bytes a by (simp add: enqueue_def reserve_bytes_def Let_def)
  next
    case b
    then have add: "u64_sat_add (tb_total_bytes s) (envelope_size e) = tb_total_bytes s + envelope_size e"
      using max by simp
    have sub: "u64_wrap_sub (tb_total_bytes s + envelope_size e) (envelope_size e) = tb_total_bytes s"
      using b max by (subst u64_wrap_sub_exact) auto
    show thesis
      using b cap ok add sub
      by (cases "length (queue_of s to) \<ge> tb_cap_per_recipient s")
         (simp_all add: enqueue_def reserve_bytes_def Let_def)
  qed
qed

lemma enqueue_inv:
  assumes inv: "transit_inv s"
  shows "transit_inv (snd (enqueue t to e s))"
  using inv
proof (cases rule: enqueue_cases [where e = e and t = t and to = to])
  case cap
  then show ?thesis using inv sum_insert_queue [of to "queue_of s to" s]
    by (auto simp: transit_inv_def queue_of_insert)
next
  case ok
  let ?m = "hm_insert to (queue_of s to) (tb_by_recipient s)"
  let ?q = "queue_of s to @ [(tb_next_id s, \<lparr> te_envelope = e, te_enqueued_at_ms = t \<rparr>)]"
  have m: "hm_sum queue_bytes ?m = hm_sum queue_bytes (tb_by_recipient s)"
    using sum_insert_queue [of to "queue_of s to" s] by simp
  have "hm_sum queue_bytes (hm_insert to ?q ?m) + queue_bytes (queue_of s to) =
      hm_sum queue_bytes ?m + queue_bytes ?q"
    using sum_insert_queue [of to ?q "s\<lparr> tb_by_recipient := ?m \<rparr>"] by (simp add: queue_of_insert)
  then have "hm_sum queue_bytes (hm_insert to ?q ?m) = tb_total_bytes s + envelope_size e"
    using m inv by (simp add: transit_inv_def)
  then show ?thesis using inv ok by (auto simp: transit_inv_def queue_of_insert)
qed (use inv in auto)

lemma delete_eq:
  assumes "transit_inv s"
  shows "snd (transit_delete to ids s) =
    (if hm_get (tb_by_recipient s) to = None then s
     else s\<lparr> tb_by_recipient := hm_insert to (filter (\<lambda>item. fst item \<notin> set ids) (queue_of s to)) (tb_by_recipient s),
             tb_total_bytes := tb_total_bytes s - queue_bytes (filter (\<lambda>item. fst item \<in> set ids) (queue_of s to)) \<rparr>)"
proof (cases "hm_get (tb_by_recipient s) to")
  case (Some q)
  let ?d = "filter (\<lambda>item. fst item \<in> set ids) q"
  have "queue_bytes ?d \<le> tb_total_bytes s"
    using queue_bytes_le [OF assms, of to] queue_bytes_filter [of "\<lambda>item. fst item \<in> set ids" q] Some
    by (simp add: queue_of_def)
  moreover have "tb_total_bytes s < u64_max" using assms by (auto simp: transit_inv_def)
  ultimately show ?thesis
    using Some by (simp add: transit_delete_def Let_def queue_of_def freed_bytes_exact)
qed (simp add: transit_delete_def)

lemma delete_inv:
  assumes "transit_inv s"
  shows "transit_inv (snd (transit_delete to ids s))"
proof (cases "hm_get (tb_by_recipient s) to")
  case None
  then show ?thesis using assms by (simp add: delete_eq)
next
  case (Some q)
  let ?k = "filter (\<lambda>item. fst item \<notin> set ids) (queue_of s to)"
  let ?d = "filter (\<lambda>item. fst item \<in> set ids) (queue_of s to)"
  have "queue_bytes ?d + queue_bytes ?k = queue_bytes (queue_of s to)"
    using queue_bytes_filter [of "\<lambda>item. fst item \<in> set ids" "queue_of s to"] by simp
  then have "hm_sum queue_bytes (hm_insert to ?k (tb_by_recipient s)) =
      tb_total_bytes s - queue_bytes ?d"
    using sum_insert_queue [of to ?k s] assms by (simp add: transit_inv_def)
  moreover have "length ?k \<le> tb_cap_per_recipient s"
    using assms by (meson length_filter_le order_trans transit_inv_def)
  ultimately show ?thesis
    using assms Some by (auto simp: delete_eq transit_inv_def queue_of_insert)
qed

lemma sum_split: "hm_sum queue_bytes (hm_map_values (filter P) m) +
    queue_bytes (concat (map (filter (\<lambda>x. \<not> P x)) (hm_values m))) = hm_sum queue_bytes m"
  unfolding hm_sum_def hm_values_def hm_map_values_def
proof (induction m)
  case (Cons e m)
  then show ?case using queue_bytes_filter [of P "snd e"] by (cases e) simp
qed simp

lemma sweep_eq:
  assumes "transit_inv s"
  shows "snd (transit_sweep_expired now s) =
    s\<lparr> tb_by_recipient := hm_retain (\<lambda>_ q. q \<noteq> [])
         (hm_map_values (filter (item_alive (tb_ttl_ms s) now)) (tb_by_recipient s)),
       tb_total_bytes := hm_sum queue_bytes
         (hm_map_values (filter (item_alive (tb_ttl_ms s) now)) (tb_by_recipient s)) \<rparr>"
proof -
  let ?P = "item_alive (tb_ttl_ms s) now"
  let ?d = "concat (map (filter (\<lambda>x. \<not> ?P x)) (hm_values (tb_by_recipient s)))"
  have total: "hm_sum queue_bytes (hm_map_values (filter ?P) (tb_by_recipient s)) + queue_bytes ?d
      = tb_total_bytes s" "tb_total_bytes s < u64_max"
    using sum_split [of ?P "tb_by_recipient s"] assms by (auto simp: transit_inv_def)
  then have "freed_bytes ?d 0 = queue_bytes ?d" by (simp add: freed_bytes_exact)
  moreover have "u64_wrap_sub (tb_total_bytes s) (queue_bytes ?d) =
      hm_sum queue_bytes (hm_map_values (filter ?P) (tb_by_recipient s))"
    using total by (subst u64_wrap_sub_exact) auto
  ultimately show ?thesis by (simp add: transit_sweep_expired_def Let_def)
qed

lemma sweep_queue:
  assumes "transit_inv s"
  shows "queue_of (snd (transit_sweep_expired now s)) to = filter (item_alive (tb_ttl_ms s) now) (queue_of s to)"
proof -
  have "hm_wf (hm_map_values (filter (item_alive (tb_ttl_ms s) now)) (tb_by_recipient s))"
    using assms by (simp add: transit_inv_def)
  then show ?thesis
    by (auto simp: sweep_eq [OF assms] queue_of_def hm_get_retain hm_get_map_values split: option.split)
qed

lemma sweep_inv: "transit_inv s \<Longrightarrow> transit_inv (snd (transit_sweep_expired now s))"
proof -
  assume inv: "transit_inv s"
  let ?m = "hm_map_values (filter (item_alive (tb_ttl_ms s) now)) (tb_by_recipient s)"
  have "hm_sum queue_bytes (hm_retain (\<lambda>_ q. q \<noteq> []) ?m) = hm_sum queue_bytes ?m"
    by (rule hm_sum_retain) simp
  moreover have "hm_sum queue_bytes ?m \<le> tb_total_bytes s"
    using sum_split [of "item_alive (tb_ttl_ms s) now" "tb_by_recipient s"] inv by (simp add: transit_inv_def)
  moreover have "length (queue_of (snd (transit_sweep_expired now s)) to) \<le> tb_cap_per_recipient s" for to
    unfolding sweep_queue [OF inv] using inv by (meson length_filter_le order_trans transit_inv_def)
  ultimately show ?thesis using inv
    by (auto simp: transit_inv_def sweep_eq [OF inv])
qed

lemma enqueue_read:
  assumes "transit_inv s"
  shows "enqueue t to e s = (Inr i, s') \<Longrightarrow> read_all s' to' =
      (if to' = to then read_all s to @ [\<lparr> se_id = i, se_envelope = e, se_enqueued_at_ms = t \<rparr>]
       else read_all s to')"
    and "enqueue t to e s = (Inl x, s') \<Longrightarrow> read_all s' to' = read_all s to'"
  using assms by (cases rule: enqueue_cases [where e = e and t = t and to = to];
      auto simp: read_all_def queue_of_insert stored_of_def)+

lemma delete_queue: "transit_inv s \<Longrightarrow> queue_of (snd (transit_delete to ids s)) to' =
    (if to' = to then filter (\<lambda>item. fst item \<notin> set ids) (queue_of s to) else queue_of s to')"
  by (auto simp: delete_eq queue_of_def hm_simps)

lemma map_stored_filter: "map stored_of (filter (\<lambda>item. P (fst item)) q) = filter (\<lambda>x. P (se_id x)) (map stored_of q)"
  by (induction q) (simp_all add: stored_of_def)

lemma delete_count:
  "fst (transit_delete to ids s) = length (filter (\<lambda>x. se_id x \<in> set ids) (read_all s to))"
proof (cases "hm_get (tb_by_recipient s) to")
  case (Some q)
  have "length q - length (filter (\<lambda>item. fst item \<notin> set ids) q) = length (filter (\<lambda>item. fst item \<in> set ids) q)"
    using sum_length_filter_compl [of "\<lambda>item. fst item \<in> set ids" q] by simp
  moreover have "length (filter (\<lambda>x. se_id x \<in> set ids) (map stored_of q)) =
      length (filter (\<lambda>item. fst item \<in> set ids) q)"
    by (simp flip: map_stored_filter [of "\<lambda>i. i \<in> set ids"])
  ultimately show ?thesis using Some
    by (simp add: transit_delete_def Let_def read_all_def queue_of_def)
qed (simp add: transit_delete_def read_all_def queue_of_def)

lemma transit_ttl [simp]:
  "tb_ttl_ms (snd (enqueue t to e s)) = tb_ttl_ms s"
  "tb_ttl_ms (snd (transit_delete to ids s)) = tb_ttl_ms s"
  "tb_ttl_ms (snd (transit_sweep_expired now s)) = tb_ttl_ms s"
  by (simp_all add: enqueue_def reserve_bytes_def transit_delete_def transit_sweep_expired_def Let_def
      split: option.split)

lemma map_stored_alive:
  "map stored_of (filter (item_alive n now) q) = filter (\<lambda>x. now - se_enqueued_at_ms x < n) (map stored_of q)"
  by (induction q) (simp_all add: stored_of_def item_alive_def)

lemma delete_read: "transit_inv s \<Longrightarrow> read_all (snd (transit_delete to ids s)) to' =
    (if to' = to then filter (\<lambda>x. se_id x \<notin> set ids) (read_all s to) else read_all s to')"
  using map_stored_filter [of "\<lambda>i. i \<notin> set ids" "queue_of s to"] by (simp add: read_all_def delete_queue)

lemma sweep_read: "transit_inv s \<Longrightarrow> read_all (snd (transit_sweep_expired now s)) to =
    filter (\<lambda>x. now - se_enqueued_at_ms x < tb_ttl_ms s) (read_all s to)"
  by (simp add: read_all_def sweep_queue map_stored_alive)

interpretation tb: transit_store enqueue read_all transit_delete transit_sweep_expired tb_ttl_ms transit_inv
  by unfold_locales
     (simp_all add: enqueue_read enqueue_inv delete_inv sweep_inv delete_count delete_read sweep_read)

subsection \<open>Ids\<close>

text \<open>Every id in the buffer is one the counter has handed out, and no two entries share one.\<close>

definition ids_ok :: "transit_buffer \<Rightarrow> bool" where
  "ids_ok s \<longleftrightarrow>
     (\<forall>to. \<forall>x \<in> set (read_all s to). 0 < se_id x \<and> se_id x < tb_next_id s) \<and>
     (\<forall>to. distinct (map se_id (read_all s to))) \<and>
     (\<forall>to to'. to \<noteq> to' \<longrightarrow> se_id ` set (read_all s to) \<inter> se_id ` set (read_all s to') = {})"

lemma ids_ok_sub:
  assumes "ids_ok s" and "tb_next_id s' = tb_next_id s"
    and "\<And>to. \<exists>P. read_all s' to = filter P (read_all s to)"
  shows "ids_ok s'"
proof -
  have sub: "set (read_all s' to) \<subseteq> set (read_all s to)" for to
    using assms(3) [of to] by auto
  have dist: "distinct (map se_id (read_all s' to))" for to
    using assms(1) assms(3) [of to] by (auto simp: ids_ok_def distinct_map_filter)
  have disj: "se_id ` set (read_all s' to) \<inter> se_id ` set (read_all s' to') = {}" if "to \<noteq> to'" for to to'
  proof -
    have "se_id ` set (read_all s to) \<inter> se_id ` set (read_all s to') = {}"
      using assms(1) that by (simp add: ids_ok_def)
    then show ?thesis using sub [of to] sub [of to'] by blast
  qed
  have "0 < se_id x \<and> se_id x < tb_next_id s'" if "x \<in> set (read_all s' to)" for to x
    using assms(1,2) sub [of to] that by (auto simp: ids_ok_def)
  then show ?thesis using dist disj by (simp add: ids_ok_def)
qed

lemma ids_enqueue:
  assumes inv: "transit_inv s" and ok: "ids_ok s" and lim: "0 < tb_next_id s" "tb_next_id s < u64_max"
  shows "ids_ok (snd (enqueue t to e s)) \<and> 0 < tb_next_id (snd (enqueue t to e s)) \<and>
    tb_next_id (snd (enqueue t to e s)) \<le> tb_next_id s + 1"
proof (cases "fst (enqueue t to e s)")
  case (Inl x)
  have nxt: "tb_next_id (snd (enqueue t to e s)) = tb_next_id s"
    using inv by (cases rule: enqueue_cases [where e = e and t = t and to = to]) (use Inl in auto)
  have "read_all (snd (enqueue t to e s)) to' = read_all s to'" for to'
    using tb.enq_err [OF inv] Inl by (metis prod.collapse)
  then have "ids_ok (snd (enqueue t to e s))"
    by (intro ids_ok_sub [OF ok nxt]) (auto intro: exI [of _ "\<lambda>_. True"])
  then show ?thesis using nxt lim by simp
next
  case (Inr i)
  let ?s = "snd (enqueue t to e s)"
  have i: "i = tb_next_id s" "tb_next_id ?s = tb_next_id s + 1"
    using inv lim by (cases rule: enqueue_cases [where e = e and t = t and to = to]; use Inr in auto)+
  have rd: "read_all ?s to' = (if to' = to then read_all s to @ [\<lparr> se_id = i, se_envelope = e, se_enqueued_at_ms = t \<rparr>]
      else read_all s to')" for to'
    using tb.enq_ok [OF inv] Inr by (metis prod.collapse)
  have old: "\<forall>to. \<forall>x \<in> set (read_all s to). 0 < se_id x \<and> se_id x < i"
    "\<forall>to. distinct (map se_id (read_all s to))"
    "\<forall>to to'. to \<noteq> to' \<longrightarrow> se_id ` set (read_all s to) \<inter> se_id ` set (read_all s to') = {}"
    using ok i(1) by (auto simp: ids_ok_def)
  have "\<forall>to. \<forall>x \<in> set (read_all ?s to). 0 < se_id x \<and> se_id x < tb_next_id ?s"
    using old(1) i lim by (auto simp: rd less_Suc_eq)
  moreover have "\<forall>to. distinct (map se_id (read_all ?s to))"
    using old(1,2) by (auto simp: rd)
  moreover have "\<forall>to to'. to \<noteq> to' \<longrightarrow> se_id ` set (read_all ?s to) \<inter> se_id ` set (read_all ?s to') = {}"
    using old(1,3) by (force simp: rd)
  ultimately show ?thesis using i(2) lim by (simp add: ids_ok_def)
qed

lemma ids_step:
  assumes "transit_inv s" and "ids_ok s" and "0 < tb_next_id s" and "tb_next_id s < u64_max"
  shows "ids_ok (tb.step s op) \<and> 0 < tb_next_id (tb.step s op) \<and> tb_next_id (tb.step s op) \<le> tb_next_id s + 1"
proof (cases op)
  case (EnqueueOp t to e)
  then show ?thesis using ids_enqueue [OF assms] by simp
next
  case (DeleteOp to ids)
  have nxt: "tb_next_id (snd (transit_delete to ids s)) = tb_next_id s"
    by (simp add: transit_delete_def Let_def split: option.split)
  have "\<exists>P. read_all (snd (transit_delete to ids s)) to' = filter P (read_all s to')" for to'
    unfolding delete_read [OF assms(1)] by (cases "to' = to") (auto intro: exI [of _ "\<lambda>_. True"])
  then show ?thesis using DeleteOp assms nxt ids_ok_sub [OF assms(2) nxt] by simp
next
  case (SweepOp now)
  have nxt: "tb_next_id (snd (transit_sweep_expired now s)) = tb_next_id s"
    by (simp add: transit_sweep_expired_def Let_def)
  have "\<exists>P. read_all (snd (transit_sweep_expired now s)) to' = filter P (read_all s to')" for to'
    unfolding sweep_read [OF assms(1)] by blast
  then show ?thesis using SweepOp assms nxt ids_ok_sub [OF assms(2) nxt] by simp
qed

lemma new_inv: "cap < u64_max \<Longrightarrow> transit_inv (tb_new ttl n cap)"
  by (simp add: transit_inv_def tb_new_def queue_of_def)

lemma new_ids: "ids_ok (tb_new ttl n cap)"
  by (simp add: ids_ok_def tb_new_def read_all_def queue_of_def)

lemma transit_run_inv: "transit_inv s \<Longrightarrow> transit_inv (foldl tb.step s ops)"
  by (induction ops arbitrary: s) (simp_all add: tb.step_inv)

lemma transit_run_ids:
  "transit_inv s \<Longrightarrow> ids_ok s \<Longrightarrow> 0 < tb_next_id s \<Longrightarrow> tb_next_id s + length ops \<le> u64_max \<Longrightarrow>
   ids_ok (foldl tb.step s ops)"
proof (induction ops arbitrary: s)
  case (Cons op ops)
  note st = ids_step [of s op]
  have "tb_next_id s < u64_max" using Cons.prems by simp
  then show ?case using Cons.IH [of "tb.step s op"] Cons.prems st tb.step_inv [of s op] by simp
qed simp

subsection \<open>Properties\<close>

text \<open>
  The byte budget is exact. After any sequence of enqueues, deletions and sweeps on a fresh
  buffer the counter equals the sum of the sizes of the stored envelopes, never exceeds the
  global cap (so the atomic subtraction never wraps), and no recipient holds more envelopes
  than the cap per recipient.
\<close>

lemma transit_budget_exact:
  assumes "cap < u64_max" and s_def: "s = foldl tb.step (tb_new ttl_ms n cap) ops"
  shows "tb_total_bytes s = hm_sum queue_bytes (tb_by_recipient s) \<and> tb_total_bytes s \<le> cap \<and>
     length (read_all s to) \<le> n"
proof -
  have inv: "transit_inv s" unfolding s_def by (intro transit_run_inv new_inv assms)
  have keep: "tb_max_total_bytes (tb.step r op) = tb_max_total_bytes r \<and>
      tb_cap_per_recipient (tb.step r op) = tb_cap_per_recipient r" for r op
    by (cases op) (auto simp: enqueue_def reserve_bytes_def transit_delete_def transit_sweep_expired_def Let_def
        split: option.split)
  have "tb_max_total_bytes (foldl tb.step r ops) = tb_max_total_bytes r \<and>
      tb_cap_per_recipient (foldl tb.step r ops) = tb_cap_per_recipient r" for r
    by (induction ops arbitrary: r) (simp_all add: keep)
  then have "tb_max_total_bytes s = cap" "tb_cap_per_recipient s = n" by (simp_all add: s_def tb_new_def)
  then show ?thesis using inv by (auto simp: transit_inv_def read_all_def)
qed

definition demo_envelope :: transit_envelope where
  "demo_envelope =
     \<lparr> e_version = 3, e_kind = Dm, e_group_id = None, e_tenant_id = None, e_sender_agent_id = [1],
       e_sender_machine_id = [2], e_timestamp_ms = 5, e_epoch = 0, e_ciphertext = [7, 7],
       e_nonce = [8], e_kem_ciphertext = [], e_sender_signature = [9] \<rparr>"

text \<open>
  The id of a stored envelope is never reused: after any sequence of fewer operations than a
  64-bit counter has values, the ids in the store are positive, pairwise distinct across all
  recipients, and below the next id, so an acknowledgement names at most one envelope.
\<close>

lemma transit_ids_unique:
  assumes "cap < u64_max" and "length ops < u64_max"
  shows "ids_ok (foldl tb.step (tb_new ttl_ms n cap) ops)"
  using assms by (intro transit_run_ids new_inv new_ids) (auto simp: tb_new_def)

end
