(* ===== verification/Relay_Auth.thy ===== *)
theory Relay_Auth
  imports Relay_Transit
begin

text \<open>
  Authentication and capabilities of the relay (\<^verbatim>\<open>fetchit-relay-server/src/auth.rs\<close> and
  \<^verbatim>\<open>capability.rs\<close>): challenges, bearer tokens and the resolution of a capability token into the
  limits of a session. The signature verifier, the hash, the random bytes, the base64 and
  postcard encoders and both clocks are arguments; instants and durations are nanoseconds.
\<close>

type_synonym verifier = "bytes \<Rightarrow> bytes \<Rightarrow> bytes \<Rightarrow> bool"

subsection \<open>Challenges and bearer tokens\<close>

record auth_challenge =
  ac_challenge :: bytes
  ac_expires_at_ms :: nat

record auth_verify_request =
  vr_agent_id :: relay_id
  vr_agent_public_key :: bytes
  vr_challenge :: bytes
  vr_signature :: bytes

record auth_verify_response =
  vp_token :: string
  vp_expires_at_ms :: nat

record auth_token_state =
  at_agent_id :: relay_id
  at_agent_public_key :: bytes
  at_expires_at :: nat

record auth_service =
  as_pending :: "(bytes, nat) hmap"
  as_tokens :: "(string, auth_token_state) hmap"
  as_challenge_ttl :: nat
  as_bearer_ttl :: nat

definition auth_new :: "nat \<Rightarrow> nat \<Rightarrow> auth_service" where
  "auth_new challenge_ttl bearer_ttl =
     \<lparr> as_pending = hm_empty, as_tokens = hm_empty, as_challenge_ttl = challenge_ttl, as_bearer_ttl = bearer_ttl \<rparr>"

definition ms_from_now :: "nat \<Rightarrow> nat \<Rightarrow> nat" where
  "ms_from_now unix d = min ((unix + d) div 10 ^ 6) u64_max"

definition issue_challenge :: "bytes \<Rightarrow> nat \<Rightarrow> nat \<Rightarrow> auth_service \<Rightarrow> auth_challenge \<times> auth_service" where
  "issue_challenge bs now unix s =
     (\<lparr> ac_challenge = bs, ac_expires_at_ms = ms_from_now unix (as_challenge_ttl s) \<rparr>,
      s\<lparr> as_pending := hm_insert bs (now + as_challenge_ttl s) (as_pending s) \<rparr>)"

definition mint_bearer :: "(bytes \<Rightarrow> string) \<Rightarrow> bytes \<Rightarrow> string" where
  "mint_bearer encode bs = encode bs"

definition auth_verify_req :: "(bytes \<Rightarrow> bytes) \<Rightarrow> verifier \<Rightarrow> (bytes \<Rightarrow> string) \<Rightarrow> nat \<Rightarrow> nat \<Rightarrow> bytes
    \<Rightarrow> auth_verify_request \<Rightarrow> auth_service \<Rightarrow> (server_error + auth_verify_response) \<times> auth_service" where
  "auth_verify_req sha256 V encode now unix rnd req s =
     (case hm_get (as_pending s) (vr_challenge req) of
        None \<Rightarrow> (Inl (AuthRejected ''unknown challenge''), s)
      | Some expires_at \<Rightarrow>
          (let s1 = s\<lparr> as_pending := hm_remove (vr_challenge req) (as_pending s) \<rparr>
           in if expires_at \<le> now then (Inl (AuthRejected ''challenge expired''), s1)
              else if derive_agent_id sha256 (vr_agent_public_key req) \<noteq> vr_agent_id req
              then (Inl (AuthRejected ''public_key does not match agent_id''), s1)
              else if \<not> V (vr_agent_public_key req)
                        (agent_sign_input (auth_signing_bytes (vr_challenge req))) (vr_signature req)
              then (Inl (AuthRejected ''signature verification failed''), s1)
              else
                (let token = mint_bearer encode rnd
                 in (Inr \<lparr> vp_token = token, vp_expires_at_ms = ms_from_now unix (as_bearer_ttl s) \<rparr>,
                     s1\<lparr> as_tokens := hm_insert token
                            \<lparr> at_agent_id = vr_agent_id req, at_agent_public_key = vr_agent_public_key req,
                              at_expires_at = now + as_bearer_ttl s \<rparr> (as_tokens s1) \<rparr>))))"

definition validate_bearer :: "nat \<Rightarrow> string \<Rightarrow> auth_service \<Rightarrow> auth_token_state option \<times> auth_service" where
  "validate_bearer now token s =
     (case hm_get (as_tokens s) token of
        None \<Rightarrow> (None, s)
      | Some entry \<Rightarrow>
          if at_expires_at entry \<le> now then (None, s\<lparr> as_tokens := hm_remove token (as_tokens s) \<rparr>)
          else (Some entry, s))"

definition auth_sweep_expired :: "nat \<Rightarrow> auth_service \<Rightarrow> nat \<times> auth_service" where
  "auth_sweep_expired now s =
     (let p = hm_retain (\<lambda>_ exp. exp > now) (as_pending s);
          t = hm_retain (\<lambda>_ st. at_expires_at st > now) (as_tokens s)
      in ((length (as_pending s) - length p) + (length (as_tokens s) - length t),
          s\<lparr> as_pending := p, as_tokens := t \<rparr>))"

subsection \<open>Capability tokens\<close>

definition resolve :: "(string, bytes) hmap \<Rightarrow> (capability_claims \<Rightarrow> string + bytes) \<Rightarrow> verifier \<Rightarrow> nat
    \<Rightarrow> capability_token option \<Rightarrow> relay_id \<Rightarrow> region \<Rightarrow> server_error + effective_capabilities" where
  "resolve issuer_keys to_bytes V now_ms token bound_agent reg =
     (case token of
        None \<Rightarrow> Inr default_profile
      | Some t \<Rightarrow>
          (case hm_get issuer_keys (cc_issuer_key_id (ct_claims t)) of
             None \<Rightarrow> Inl (CapabilityInvalid ''unknown issuer key id'')
           | Some issuer_pk \<Rightarrow>
               if cc_agent_id (ct_claims t) \<noteq> bound_agent
               then Inl (CapabilityInvalid ''agent_id does not match session'')
               else if cc_expires_at_ms (ct_claims t) \<le> now_ms
               then Inl (CapabilityInvalid ''token expired'')
               else
                 (case to_bytes (ct_claims t) of
                    Inl e \<Rightarrow> Inl (Proto e)
                  | Inr claim_bytes \<Rightarrow>
                      if \<not> V issuer_pk claim_bytes (ct_signature t)
                      then Inl (CapabilityInvalid ''issuer signature invalid'')
                      else
                        (let eff = from_claims (cc_capabilities (ct_claims t))
                         in if \<not> permits_region eff reg then Inl (RegionDenied (region_tag reg))
                            else Inr eff))))"

subsection \<open>Runs of the authentication service\<close>

datatype auth_op =
    IssueOp bytes nat nat | VerifyOp nat nat bytes auth_verify_request
  | ValidateOp nat string | AuthSweepOp nat

fun auth_step :: "(bytes \<Rightarrow> bytes) \<Rightarrow> verifier \<Rightarrow> (bytes \<Rightarrow> string) \<Rightarrow> auth_service \<Rightarrow> auth_op \<Rightarrow> auth_service" where
  "auth_step sha256 V encode s (IssueOp bs now unix) = snd (issue_challenge bs now unix s)"
| "auth_step sha256 V encode s (VerifyOp now unix rnd req) = snd (auth_verify_req sha256 V encode now unix rnd req s)"
| "auth_step sha256 V encode s (ValidateOp now token) = snd (validate_bearer now token s)"
| "auth_step sha256 V encode s (AuthSweepOp now) = snd (auth_sweep_expired now s)"

lemmas auth_defs = issue_challenge_def auth_verify_req_def validate_bearer_def auth_sweep_expired_def Let_def

definition auth_wf :: "nat \<Rightarrow> nat \<Rightarrow> auth_service \<Rightarrow> bool" where
  "auth_wf ct bt s \<longleftrightarrow> hm_wf (as_pending s) \<and> hm_wf (as_tokens s) \<and> as_challenge_ttl s = ct \<and> as_bearer_ttl s = bt"

lemma auth_wf_step: "auth_wf ct bt s \<Longrightarrow> auth_wf ct bt (auth_step H V E s op)"
  by (cases op) (auto simp: auth_wf_def auth_defs split: option.split)

lemma auth_wf_new [simp]: "auth_wf ct bt (auth_new ct bt)"
  by (simp add: auth_wf_def auth_new_def)

interpretation auth: invariant_system "auth_step H V E" "\<lambda>_. True" "auth_wf ct bt" for H V E ct bt
  by unfold_locales (rule auth_wf_step)

abbreviation auth_run :: "(bytes \<Rightarrow> bytes) \<Rightarrow> verifier \<Rightarrow> (bytes \<Rightarrow> string) \<Rightarrow> nat \<Rightarrow> nat \<Rightarrow> auth_op list \<Rightarrow> auth_service" where
  "auth_run H V E ct bt ops \<equiv> foldl (auth_step H V E) (auth_new ct bt) ops"

lemma auth_run_wf: "auth_wf ct bt (auth_run H V E ct bt ops)"
  by (intro auth.run_inv) (simp_all add: list_all_iff)

text \<open>Where a pending challenge and a stored token come from.\<close>

lemma pending_step:
  assumes "auth_wf ct bt s" and "hm_get (as_pending (auth_step H V E s op)) c = Some e"
  shows "hm_get (as_pending s) c = Some e \<or> (\<exists>now unix. op = IssueOp c now unix \<and> e = now + ct)"
  using assms by (cases op) (auto simp: auth_wf_def auth_defs hm_simps hm_get_retain split: option.splits if_splits)

lemma pending_issued:
  "hm_get (as_pending (auth_run H V E ct bt ops)) c = Some e \<Longrightarrow>
   \<exists>now unix. IssueOp c now unix \<in> set ops \<and> e = now + ct"
proof (induction ops arbitrary: e rule: rev_induct)
  case Nil
  then show ?case by (simp add: auth_new_def)
next
  case (snoc op ops)
  from snoc.prems have "hm_get (as_pending (auth_step H V E (auth_run H V E ct bt ops) op)) c = Some e"
    by simp
  from pending_step [OF auth_run_wf this] show ?case using snoc.IH by fastforce
qed

definition minted :: "(bytes \<Rightarrow> bytes) \<Rightarrow> verifier \<Rightarrow> (bytes \<Rightarrow> string) \<Rightarrow> nat \<Rightarrow> nat \<Rightarrow> auth_op \<Rightarrow> auth_op list
    \<Rightarrow> string \<Rightarrow> auth_token_state \<Rightarrow> bool" where
  "minted H V E ct bt op before token st \<longleftrightarrow>
     (case op of
        VerifyOp now unix rnd req \<Rightarrow>
          token = E rnd \<and> at_agent_id st = derive_agent_id H (at_agent_public_key st) \<and>
          V (at_agent_public_key st) (agent_sign_input (auth_signing_bytes (vr_challenge req))) (vr_signature req) \<and>
          at_expires_at st = now + bt \<and>
          (\<exists>t u. IssueOp (vr_challenge req) t u \<in> set before \<and> now < t + ct)
      | _ \<Rightarrow> False)"

lemma token_step:
  assumes "hm_get (as_tokens (auth_step H V E (auth_run H V E ct bt ops) op)) token = Some st"
  shows "hm_get (as_tokens (auth_run H V E ct bt ops)) token = Some st \<or> minted H V E ct bt op ops token st"
proof (cases op)
  case (VerifyOp now unix rnd req)
  let ?s = "auth_run H V E ct bt ops"
  show ?thesis
  proof (cases "hm_get (as_pending ?s) (vr_challenge req)")
    case None
    then show ?thesis using assms VerifyOp by (simp add: auth_verify_req_def)
  next
    case (Some e)
    have "as_bearer_ttl ?s = bt" using auth_run_wf [of ct bt H V E ops] by (simp add: auth_wf_def)
    then show ?thesis using assms VerifyOp Some pending_issued [OF Some]
      by (auto simp: auth_verify_req_def minted_def mint_bearer_def Let_def hm_simps split: if_splits)
  qed
next
  case (AuthSweepOp now)
  then show ?thesis using assms auth_run_wf [of ct bt H V E ops]
    by (auto simp: auth_sweep_expired_def auth_wf_def Let_def hm_get_retain split: option.splits if_splits)
qed (use assms in \<open>auto simp: auth_defs hm_simps split: option.splits if_splits\<close>)

lemma token_minted:
  "hm_get (as_tokens (auth_run H V E ct bt ops)) token = Some st \<Longrightarrow>
   \<exists>pre op post. ops = pre @ op # post \<and> minted H V E ct bt op pre token st"
proof (induction ops rule: rev_induct)
  case Nil
  then show ?case by (simp add: auth_new_def)
next
  case (snoc op ops)
  from snoc.prems have "hm_get (as_tokens (auth_step H V E (auth_run H V E ct bt ops) op)) token = Some st"
    by simp
  from token_step [OF this] show ?case
  proof
    assume "hm_get (as_tokens (auth_run H V E ct bt ops)) token = Some st"
    from snoc.IH [OF this] show ?thesis by (metis append_Cons append_assoc)
  qed blast
qed

subsection \<open>Properties\<close>

text \<open>
  (C13) A bearer token is proof of key control. If the relay accepts a token, then at some point a
  client answered a challenge that the relay itself had issued less than the challenge lifetime
  before; the signature over exactly that challenge verified under the client's key; the session's
  agent id is derived from that key; and the token is younger than the bearer lifetime.
\<close>

theorem bearer_proves_key:
  assumes "fst (validate_bearer now token (auth_run H V E ct bt ops)) = Some st"
  shows "\<exists>pre t0 u rnd req post t. ops = pre @ VerifyOp t0 u rnd req # post \<and> token = E rnd \<and>
     (\<exists>u. IssueOp (vr_challenge req) t u \<in> set pre) \<and> t0 < t + ct \<and>
     V (at_agent_public_key st) (agent_sign_input (auth_signing_bytes (vr_challenge req))) (vr_signature req) \<and>
     at_agent_id st = derive_agent_id H (at_agent_public_key st) \<and> now < t0 + bt"
proof -
  have tok: "hm_get (as_tokens (auth_run H V E ct bt ops)) token = Some st" and live: "now < at_expires_at st"
    using assms by (auto simp: validate_bearer_def split: option.splits if_splits)
  obtain pre op post where "ops = pre @ op # post" and m: "minted H V E ct bt op pre token st"
    using token_minted [OF tok] by blast
  moreover obtain t0 u rnd req where "op = VerifyOp t0 u rnd req" using m by (cases op) (simp_all add: minted_def)
  ultimately show ?thesis using live unfolding minted_def by fastforce
qed

text \<open>A concrete service: the hash and the verifier accept what the client sends.\<close>

definition demo_request :: "bytes \<Rightarrow> auth_verify_request" where
  "demo_request c = \<lparr> vr_agent_id = [1], vr_agent_public_key = [2], vr_challenge = c, vr_signature = [3] \<rparr>"

abbreviation demo_auth_ops :: "auth_op list" where
  "demo_auth_ops \<equiv> [IssueOp [9] 100 0, VerifyOp 110 0 [7] (demo_request [9])]"

theorem bearer_proves_key_witness:
  "\<exists>pre t0 u rnd req post t. demo_auth_ops = pre @ VerifyOp t0 u rnd req # post \<and>
     (\<exists>u. IssueOp (vr_challenge req) t u \<in> set pre) \<and> t0 < t + 60 \<and> 200 < t0 + (900 :: nat)"
proof -
  have "\<exists>st. fst (validate_bearer 200 ''tok'' (auth_run (\<lambda>_. [1]) (\<lambda>_ _ _. True) (\<lambda>_. ''tok'') 60 900 demo_auth_ops)) = Some st"
    by (simp add: auth_defs auth_new_def demo_request_def derive_agent_id_def mint_bearer_def hm_simps)
  then obtain st where "fst (validate_bearer 200 ''tok''
      (auth_run (\<lambda>_. [1]) (\<lambda>_ _ _. True) (\<lambda>_. ''tok'') 60 900 demo_auth_ops)) = Some st" ..
  from bearer_proves_key [OF this] show ?thesis by blast
qed

lemma spent_stays_spent:
  "hm_get (as_pending s) c = None \<Longrightarrow> auth_wf ct bt s \<Longrightarrow> (\<And>t u. IssueOp c t u \<notin> set ops) \<Longrightarrow>
   hm_get (as_pending (foldl (auth_step H V E) s ops)) c = None"
proof (induction ops arbitrary: s)
  case (Cons op ops)
  have "hm_get (as_pending (auth_step H V E s op)) c = None"
    using pending_step [OF Cons.prems(2), of H V E op c] Cons.prems(1,3)
    by (cases "hm_get (as_pending (auth_step H V E s op)) c") auto
  then show ?case using Cons by (simp add: auth_wf_step)
qed simp

text \<open>
  (C25) A challenge is spent by the first answer, right or wrong. Once a verification named a
  challenge, every later verification that names it is refused as an unknown challenge, whatever
  happens in between, as long as the relay does not draw the same random bytes again.
\<close>

theorem challenge_single_use:
  assumes "s = auth_run H V E ct bt ops" and "\<And>t u. IssueOp (vr_challenge req) t u \<notin> set later"
    and "vr_challenge req' = vr_challenge req"
  shows "fst (auth_verify_req H V E now' unix' rnd' req'
      (foldl (auth_step H V E) (snd (auth_verify_req H V E now unix rnd req s)) later)) =
     Inl (AuthRejected ''unknown challenge'')"
proof -
  have wf: "auth_wf ct bt s" unfolding assms(1) by (rule auth_run_wf)
  let ?s = "snd (auth_verify_req H V E now unix rnd req s)"
  have "hm_get (as_pending ?s) (vr_challenge req) = None"
    by (auto simp: auth_verify_req_def Let_def hm_simps split: option.split)
  moreover have "auth_wf ct bt ?s" using auth_wf_step [OF wf, of H V E "VerifyOp now unix rnd req"] by simp
  ultimately have "hm_get (as_pending (foldl (auth_step H V E) ?s later)) (vr_challenge req) = None"
    using spent_stays_spent assms(2) by blast
  then show ?thesis using assms(3) by (simp add: auth_verify_req_def)
qed

theorem challenge_single_use_witness:
  "fst (auth_verify_req (\<lambda>_. [1]) (\<lambda>_ _ _. True) (\<lambda>_. ''tok'') 120 0 [8] (demo_request [9])
      (foldl (auth_step (\<lambda>_. [1]) (\<lambda>_ _ _. True) (\<lambda>_. ''tok''))
        (snd (auth_verify_req (\<lambda>_. [1]) (\<lambda>_ _ _. True) (\<lambda>_. ''tok'') 110 0 [7] (demo_request [9])
           (auth_run (\<lambda>_. [1]) (\<lambda>_ _ _. True) (\<lambda>_. ''tok'') 60 900 [IssueOp [9] 100 0]))) [AuthSweepOp 115])) =
     Inl (AuthRejected ''unknown challenge'')"
  by (rule challenge_single_use [OF refl]) (simp_all add: demo_request_def)

lemma fold_max_cases: "fold max xs d = d \<or> fold max xs d \<in> set xs" "d \<le> fold max xs (d :: nat)"
  by (induction xs arbitrary: d) (auto simp: max_def split: if_splits, (metis le_trans nle_le)+)

lemma claim_named:
  "x \<in> set (claims_by rate_claim cs) \<Longrightarrow> MaxEnvelopesPerMin x \<in> set cs"
  "x \<in> set (claims_by size_claim cs) \<Longrightarrow> MaxEnvelopeBytes x \<in> set cs"
  "x \<in> set (claims_by group_claim cs) \<Longrightarrow> MaxGroupSize x \<in> set cs"
  by (induction cs) (auto simp: map_filter_simps elim: rate_claim.elims size_claim.elims group_claim.elims
      split: option.splits)

lemma from_claims_bounds:
  "default_max_envelopes_per_min \<le> max_envelopes_per_min (from_claims cs)"
  "default_max_envelope_bytes \<le> max_envelope_bytes (from_claims cs)"
  "default_max_group_size \<le> max_group_size (from_claims cs)"
  unfolding from_claims_def claim_caps by (simp_all add: default_profile_def fold_max_cases)

lemma from_claims_named:
  "max_envelopes_per_min (from_claims cs) \<noteq> default_max_envelopes_per_min \<Longrightarrow>
     MaxEnvelopesPerMin (max_envelopes_per_min (from_claims cs)) \<in> set cs"
  "max_envelope_bytes (from_claims cs) \<noteq> default_max_envelope_bytes \<Longrightarrow>
     MaxEnvelopeBytes (max_envelope_bytes (from_claims cs)) \<in> set cs"
  "max_group_size (from_claims cs) \<noteq> default_max_group_size \<Longrightarrow>
     MaxGroupSize (max_group_size (from_claims cs)) \<in> set cs"
  unfolding from_claims_def claim_caps
  using fold_max_cases(1) by (auto simp: default_profile_def intro!: claim_named)

text \<open>
  (C34) Session limits are granted, not asserted. A session without a token has the default
  limits. With one, the session is refused or its limits are at least the defaults, and a limit
  or a right beyond the default is a claim of a token that names this agent, has not expired,
  admits this region, and carries a valid signature of a configured issuer over its claims.
\<close>

theorem limits_are_granted:
  assumes "resolve keys enc V now token agent reg = Inr eff"
  shows "default_max_envelopes_per_min \<le> max_envelopes_per_min eff \<and>
     default_max_envelope_bytes \<le> max_envelope_bytes eff \<and> default_max_group_size \<le> max_group_size eff \<and>
     (eff \<noteq> default_profile \<longrightarrow>
        (\<exists>t pk bs. token = Some t \<and> hm_get keys (cc_issuer_key_id (ct_claims t)) = Some pk \<and>
           enc (ct_claims t) = Inr bs \<and> V pk bs (ct_signature t) \<and>
           cc_agent_id (ct_claims t) = agent \<and> now < cc_expires_at_ms (ct_claims t) \<and>
           permits_region eff reg \<and>
           (max_envelopes_per_min eff \<noteq> default_max_envelopes_per_min \<longrightarrow>
              MaxEnvelopesPerMin (max_envelopes_per_min eff) \<in> set (cc_capabilities (ct_claims t))) \<and>
           (max_envelope_bytes eff \<noteq> default_max_envelope_bytes \<longrightarrow>
              MaxEnvelopeBytes (max_envelope_bytes eff) \<in> set (cc_capabilities (ct_claims t))) \<and>
           (max_group_size eff \<noteq> default_max_group_size \<longrightarrow>
              MaxGroupSize (max_group_size eff) \<in> set (cc_capabilities (ct_claims t))) \<and>
           admin_for eff = {a. AdminFor a \<in> set (cc_capabilities (ct_claims t))}))"
proof (cases token)
  case None
  then have "eff = default_profile" using assms by (simp add: resolve_def)
  then show ?thesis by (simp add: default_profile_def)
next
  case (Some t)
  obtain pk bs where ok: "hm_get keys (cc_issuer_key_id (ct_claims t)) = Some pk" "enc (ct_claims t) = Inr bs"
      "V pk bs (ct_signature t)" "cc_agent_id (ct_claims t) = agent" "now < cc_expires_at_ms (ct_claims t)"
    and eff: "eff = from_claims (cc_capabilities (ct_claims t))" and reg: "permits_region eff reg"
    using assms Some by (auto simp: resolve_def Let_def split: option.splits if_splits sum.splits)
  have adm: "admin_for eff = {a. AdminFor a \<in> set (cc_capabilities (ct_claims t))}"
    unfolding eff from_claims_def claim_caps by (simp add: default_profile_def)
  have "default_max_envelopes_per_min \<le> max_envelopes_per_min eff \<and>
     default_max_envelope_bytes \<le> max_envelope_bytes eff \<and> default_max_group_size \<le> max_group_size eff"
    unfolding eff using from_claims_bounds by blast
  then show ?thesis using Some ok reg adm from_claims_named [folded eff] unfolding eff by blast
qed

definition demo_token :: capability_token where
  "demo_token = \<lparr> ct_claims = \<lparr> cc_agent_id = [1], cc_tenant_id = None, cc_issued_at_ms = 0, cc_expires_at_ms = 100,
      cc_capabilities = [MaxEnvelopesPerMin 600], cc_issuer_key_id = ''k'' \<rparr>, ct_signature = [3] \<rparr>"

theorem limits_are_granted_witness:
  "default_max_envelopes_per_min \<le> max_envelopes_per_min (from_claims [MaxEnvelopesPerMin 600])"
proof -
  have "resolve [(''k'', [5])] (\<lambda>_. Inr [6]) (\<lambda>_ _ _. True) 50 (Some demo_token) [1] Nyc =
      Inr (from_claims [MaxEnvelopesPerMin 600])"
    by (simp add: resolve_def demo_token_def hm_get_def from_claims_def default_profile_def permits_region_def Let_def)
  from limits_are_granted [OF this] show ?thesis by blast
qed

end
