(* ===== verification/Relay_Index.thy ===== *)
theory Relay_Index
  imports Pair_Record Relay_Rate_Limit Relay_Auth
begin

text \<open>
  The discovery indexes of the relay and their HTTP handlers
  (\<^verbatim>\<open>fetchit-relay-server/src/pair_record.rs\<close>, \<^verbatim>\<open>forwarding.rs\<close>, \<^verbatim>\<open>profile.rs\<close>, \<^verbatim>\<open>blob.rs\<close>). An
  accepted POST answers \<^term>\<open>Inr ()\<close>, a refused one the error value, whose HTTP status is
  modelled with it. The JSON parser is an argument, as are the backend of \<^verbatim>\<open>Pair_Record\<close>, the
  rounding of the rate limiter and the clocks. The four write paths share one contract, the
  locale \<^verbatim>\<open>ratchet\<close>.
\<close>

subsection \<open>The contract of a watermarked index\<close>

text \<open>A stored record is the newest of those published under its key; nothing is stored if none was.\<close>

definition newest_of :: "('r \<Rightarrow> 'k) \<Rightarrow> ('r \<Rightarrow> nat) \<Rightarrow> 'k \<Rightarrow> 'r set \<Rightarrow> 'r option \<Rightarrow> bool" where
  "newest_of key stamp k rs stored \<longleftrightarrow>
     (case stored of
        None \<Rightarrow> (\<forall>r\<in>rs. key r \<noteq> k)
      | Some x \<Rightarrow> x \<in> rs \<and> key x = k \<and> (\<forall>r\<in>rs. key r = k \<longrightarrow> stamp r \<le> stamp x))"

locale ratchet =
  fixes key :: "'r \<Rightarrow> 'k"
    and stamp :: "'r \<Rightarrow> nat"
    and held :: "'s \<Rightarrow> 'k \<Rightarrow> 'r option"
    and put :: "'r \<Rightarrow> 's \<Rightarrow> (nat + unit) \<times> 's"
  assumes put_vacant: "held s (key r) = None \<Longrightarrow> fst (put r s) = Inr () \<and> held (snd (put r s)) (key r) = Some r"
    and put_newer: "held s (key r) = Some c \<Longrightarrow> stamp c < stamp r \<Longrightarrow>
      fst (put r s) = Inr () \<and> held (snd (put r s)) (key r) = Some r"
    and put_stale: "held s (key r) = Some c \<Longrightarrow> stamp r \<le> stamp c \<Longrightarrow> put r s = (Inl (stamp c), s)"
    and put_other: "k \<noteq> key r \<Longrightarrow> held (snd (put r s)) k = held s k"
begin

abbreviation newest :: "'s \<Rightarrow> 'k \<Rightarrow> 'r set \<Rightarrow> bool" where
  "newest s k rs \<equiv> newest_of key stamp k rs (held s k)"

lemma put_newest: "newest s k rs \<Longrightarrow> newest (snd (put r s)) k (insert r rs)"
proof (cases "k = key r")
  case True
  assume n: "newest s k rs"
  show ?thesis
  proof (cases "held s k")
    case None
    then show ?thesis using n True put_vacant by (auto simp: newest_of_def)
  next
    case (Some c)
    then show ?thesis using n True put_newer [of s r c] put_stale [of s r c]
      by (cases "stamp c < stamp r") (force simp: newest_of_def)+
  qed
next
  case False
  assume "newest s k rs"
  then show ?thesis using put_other [OF False] False by (auto simp: newest_of_def split: option.splits)
qed

lemma puts_newest: "newest s k rs \<Longrightarrow> newest (foldl (\<lambda>s r. snd (put r s)) s xs) k (rs \<union> set xs)"
proof (induction xs arbitrary: s rs)
  case (Cons x xs)
  from Cons.IH [OF put_newest [OF Cons.prems, of x]] show ?case by simp
qed simp

lemma published_newest: "held s k = None \<Longrightarrow> newest (foldl (\<lambda>s r. snd (put r s)) s xs) k (set xs)"
  using puts_newest [where s = s and k = k and rs = "{}" and xs = xs] by (simp add: newest_of_def)

lemma retry_accepted:
  assumes "fst (put r s) = Inl c" and "key r' = key r" and "stamp r' = Suc c"
  shows "fst (put r' s) = Inr ()"
proof (cases "held s (key r)")
  case None
  then show ?thesis using assms put_vacant [of s r] by simp
next
  case (Some x)
  then have "stamp r \<le> stamp x" using assms put_newer [of s r x] by (cases "stamp x < stamp r") auto
  then have "c = stamp x" using put_stale [OF Some] assms by simp
  then show ?thesis using put_newer [of s r' x] Some assms by simp
qed

end

subsection \<open>Pairing records\<close>

definition max_pair_record_body_bytes :: nat where "max_pair_record_body_bytes = 16 * 1024"
definition max_pair_record_v4_body_bytes :: nat where "max_pair_record_v4_body_bytes = 128 * 1024"
definition pair_record_max_per_min :: nat where "pair_record_max_per_min = 30"

record pair_record_index =
  pi_by_agent :: "(utf8, pair_record_v1) hmap"
  pi_by_user :: "(utf8, pair_record_v4) hmap"

definition pairs_new :: pair_record_index where
  "pairs_new = \<lparr> pi_by_agent = hm_empty, pi_by_user = hm_empty \<rparr>"

definition pair_get :: "pair_record_index \<Rightarrow> utf8 \<Rightarrow> pair_record_v1 option" where
  "pair_get s agent_id_hex = hm_get (pi_by_agent s) agent_id_hex"

definition current_issued_at :: "pair_record_index \<Rightarrow> utf8 \<Rightarrow> nat option" where
  "current_issued_at s agent_id_hex = map_option p1_issued_at_ms (hm_get (pi_by_agent s) agent_id_hex)"

definition pair_put_if_newer :: "pair_record_v1 \<Rightarrow> pair_record_index \<Rightarrow> (nat + unit) \<times> pair_record_index" where
  "pair_put_if_newer r s =
     (let stored = s\<lparr> pi_by_agent := hm_insert (p1_agent_id_hex r) r (pi_by_agent s) \<rparr>
      in case hm_get (pi_by_agent s) (p1_agent_id_hex r) of
           Some e \<Rightarrow> if p1_issued_at_ms r \<le> p1_issued_at_ms e then (Inl (p1_issued_at_ms e), s) else (Inr (), stored)
         | None \<Rightarrow> (Inr (), stored))"

definition pair_get_v4 :: "pair_record_index \<Rightarrow> utf8 \<Rightarrow> pair_record_v4 option" where
  "pair_get_v4 s user_id_hex = hm_get (pi_by_user s) user_id_hex"

definition current_revision :: "pair_record_index \<Rightarrow> utf8 \<Rightarrow> nat option" where
  "current_revision s user_id_hex = map_option p4_revision (hm_get (pi_by_user s) user_id_hex)"

definition pair_put_if_newer_v4 :: "pair_record_v4 \<Rightarrow> pair_record_index \<Rightarrow> (nat + unit) \<times> pair_record_index" where
  "pair_put_if_newer_v4 r s =
     (let stored = s\<lparr> pi_by_user := hm_insert (p4_user_id_hex r) r (pi_by_user s) \<rparr>
      in case hm_get (pi_by_user s) (p4_user_id_hex r) of
           Some e \<Rightarrow> if p4_revision r \<le> p4_revision e then (Inl (p4_revision e), s) else (Inr (), stored)
         | None \<Rightarrow> (Inr (), stored))"

definition pairs_sweep_expired :: "nat \<Rightarrow> nat \<Rightarrow> pair_record_index \<Rightarrow> nat \<times> pair_record_index" where
  "pairs_sweep_expired now_ms ttl_ms s =
     (let a = hm_retain (\<lambda>_ r. now_ms - p1_issued_at_ms r \<le> ttl_ms) (pi_by_agent s);
          u = hm_retain (\<lambda>_ r. now_ms - p4_issued_at_ms r \<le> ttl_ms) (pi_by_user s)
      in ((length (pi_by_agent s) - length a) + (length (pi_by_user s) - length u),
          s\<lparr> pi_by_agent := a, pi_by_user := u \<rparr>))"

datatype pair_record_http_error =
    PairBodyTooLarge | PairMalformed string | PairVerify pair_record_error | PairRateLimited
  | PairNonMonotonic nat | PairNonMonotonicRevision nat

fun verify_status :: "pair_record_error \<Rightarrow> nat" where
  "verify_status AgentIdMismatch = 403"
| "verify_status UserIdMismatch = 403"
| "verify_status SignatureInvalid = 403"
| "verify_status (VerifyBackend _) = 500"
| "verify_status _ = 400"

fun pair_http_status :: "pair_record_http_error \<Rightarrow> nat" where
  "pair_http_status PairBodyTooLarge = 413"
| "pair_http_status (PairMalformed _) = 400"
| "pair_http_status PairRateLimited = 429"
| "pair_http_status (PairNonMonotonic _) = 409"
| "pair_http_status (PairNonMonotonicRevision _) = 409"
| "pair_http_status (PairVerify e) = verify_status e"

definition agent_id_from_hex :: "('pk, 'sig) backend \<Rightarrow> (string \<Rightarrow> 'e) \<Rightarrow> utf8 \<Rightarrow> 'e + relay_id" where
  "agent_id_from_hex B malformed h =
     (case b_hex_decode B h of
        None \<Rightarrow> Inl (malformed ''agent_id_hex not hex'')
      | Some raw \<Rightarrow> if length raw \<noteq> agent_id_len then Inl (malformed ''agent_id_hex wrong length'') else Inr raw)"

definition to_ascii_lowercase :: "utf8 \<Rightarrow> utf8" where
  "to_ascii_lowercase = map (\<lambda>b. if 0x41 \<le> b \<and> b \<le> 0x5A then b + 32 else b)"

definition post_pair_record :: "('pk, 'sig) backend \<Rightarrow> (bytes \<Rightarrow> pair_record_v1 option) \<Rightarrow> (rat \<Rightarrow> rat) \<Rightarrow> nat
    \<Rightarrow> bytes \<Rightarrow> rate_limiter \<times> pair_record_index
    \<Rightarrow> (pair_record_http_error + unit) \<times> rate_limiter \<times> pair_record_index" where
  "post_pair_record B from_slice rnd now body = (\<lambda>(rl, s).
     if length body > max_pair_record_body_bytes then (Inl PairBodyTooLarge, rl, s)
     else case from_slice body of
       None \<Rightarrow> (Inl (PairMalformed ''invalid JSON body''), rl, s)
     | Some record \<Rightarrow>
       (case verify_pair_record B record of
          Inl e \<Rightarrow> (Inl (PairVerify e), rl, s)
        | Inr _ \<Rightarrow>
          (case agent_id_from_hex B PairMalformed (p1_agent_id_hex record) of
             Inl e \<Rightarrow> (Inl e, rl, s)
           | Inr agent \<Rightarrow>
             (case allow rnd now agent pair_record_max_per_min rl of
                (False, rl) \<Rightarrow> (Inl PairRateLimited, rl, s)
              | (True, rl) \<Rightarrow>
                  (case pair_put_if_newer record s of
                     (Inl current, s) \<Rightarrow> (Inl (PairNonMonotonic current), rl, s)
                   | (Inr _, s) \<Rightarrow> (Inr (), rl, s))))))"

definition get_pair_record :: "utf8 \<Rightarrow> pair_record_index \<Rightarrow> nat + pair_record_v1" where
  "get_pair_record agent_id s =
     (case pair_get s (to_ascii_lowercase agent_id) of None \<Rightarrow> Inl 404 | Some r \<Rightarrow> Inr r)"

definition post_pair_record_v4 :: "('pk, 'sig) backend \<Rightarrow> (bytes \<Rightarrow> pair_record_v4 option) \<Rightarrow> (rat \<Rightarrow> rat) \<Rightarrow> nat
    \<Rightarrow> bytes \<Rightarrow> rate_limiter \<times> pair_record_index
    \<Rightarrow> (pair_record_http_error + unit) \<times> rate_limiter \<times> pair_record_index" where
  "post_pair_record_v4 B from_slice rnd now body = (\<lambda>(rl, s).
     if length body > max_pair_record_v4_body_bytes then (Inl PairBodyTooLarge, rl, s)
     else case from_slice body of
       None \<Rightarrow> (Inl (PairMalformed ''invalid JSON body''), rl, s)
     | Some record \<Rightarrow>
       (case verify_pair_record_v4 B record of
          Inl e \<Rightarrow> (Inl (PairVerify e), rl, s)
        | Inr _ \<Rightarrow>
          (case agent_id_from_hex B PairMalformed (p4_user_id_hex record) of
             Inl e \<Rightarrow> (Inl e, rl, s)
           | Inr account \<Rightarrow>
             (case allow rnd now account pair_record_max_per_min rl of
                (False, rl) \<Rightarrow> (Inl PairRateLimited, rl, s)
              | (True, rl) \<Rightarrow>
                  (case pair_put_if_newer_v4 record s of
                     (Inl current, s) \<Rightarrow> (Inl (PairNonMonotonicRevision current), rl, s)
                   | (Inr _, s) \<Rightarrow> (Inr (), rl, s))))))"

definition get_pair_record_v4 :: "utf8 \<Rightarrow> pair_record_index \<Rightarrow> nat + pair_record_v4" where
  "get_pair_record_v4 user_id s =
     (case pair_get_v4 s (to_ascii_lowercase user_id) of None \<Rightarrow> Inl 404 | Some r \<Rightarrow> Inr r)"

interpretation pair1: ratchet p1_agent_id_hex p1_issued_at_ms pair_get pair_put_if_newer
  by unfold_locales (auto simp: pair_get_def pair_put_if_newer_def Let_def hm_simps split: option.splits)

interpretation pair4: ratchet p4_user_id_hex p4_revision pair_get_v4 pair_put_if_newer_v4
  by unfold_locales (auto simp: pair_get_v4_def pair_put_if_newer_v4_def Let_def hm_simps split: option.splits)

subsection \<open>Forwarding records\<close>

definition max_forwarding_body_bytes :: nat where "max_forwarding_body_bytes = 8 * 1024"
definition forwarding_max_per_min :: nat where "forwarding_max_per_min = 30"
definition forwarding_ttl_ms :: nat where "forwarding_ttl_ms = 30 * 24 * 60 * 60 * 1000"

record stored_forwarding =
  sf_record :: forwarding_record_v1
  sf_stored_at_ms :: nat

type_synonym forwarding_index = "(utf8, stored_forwarding) hmap"

definition fw_get_live :: "forwarding_index \<Rightarrow> utf8 \<Rightarrow> nat \<Rightarrow> forwarding_record_v1 option" where
  "fw_get_live s agent_id_hex now_ms =
     (case hm_get s agent_id_hex of
        None \<Rightarrow> None
      | Some e \<Rightarrow> if now_ms - sf_stored_at_ms e > forwarding_ttl_ms then None else Some (sf_record e))"

definition fw_put_if_newer :: "forwarding_record_v1 \<Rightarrow> nat \<Rightarrow> forwarding_index \<Rightarrow> (nat + unit) \<times> forwarding_index" where
  "fw_put_if_newer r now_ms s =
     (let stored = hm_insert (fw_agent_id_hex r) \<lparr> sf_record = r, sf_stored_at_ms = now_ms \<rparr> s
      in case hm_get s (fw_agent_id_hex r) of
           Some e \<Rightarrow>
             if fw_issued_at_ms r \<le> fw_issued_at_ms (sf_record e) then (Inl (fw_issued_at_ms (sf_record e)), s)
             else (Inr (), stored)
         | None \<Rightarrow> (Inr (), stored))"

definition fw_sweep_expired :: "nat \<Rightarrow> forwarding_index \<Rightarrow> nat \<times> forwarding_index" where
  "fw_sweep_expired now_ms s =
     (let s' = hm_retain (\<lambda>_ e. now_ms - sf_stored_at_ms e \<le> forwarding_ttl_ms) s
      in (length s - length s', s'))"

datatype forwarding_http_error =
    FwBodyTooLarge | FwMalformed string | NoPairRecord | StoredKeyUndecodable | FwVerify pair_record_error
  | FwRateLimited | FwNonMonotonic nat

fun forwarding_http_status :: "forwarding_http_error \<Rightarrow> nat" where
  "forwarding_http_status FwBodyTooLarge = 413"
| "forwarding_http_status (FwMalformed _) = 400"
| "forwarding_http_status NoPairRecord = 412"
| "forwarding_http_status StoredKeyUndecodable = 500"
| "forwarding_http_status FwRateLimited = 429"
| "forwarding_http_status (FwNonMonotonic _) = 409"
| "forwarding_http_status (FwVerify e) = verify_status e"

definition post_forwarding :: "('pk, 'sig) backend \<Rightarrow> (bytes \<Rightarrow> forwarding_record_v1 option) \<Rightarrow> (rat \<Rightarrow> rat) \<Rightarrow> nat
    \<Rightarrow> nat \<Rightarrow> bytes \<Rightarrow> pair_record_index \<Rightarrow> rate_limiter \<times> forwarding_index
    \<Rightarrow> (forwarding_http_error + unit) \<times> rate_limiter \<times> forwarding_index" where
  "post_forwarding B from_slice rnd now now_ms body pairs = (\<lambda>(rl, s).
     if length body > max_forwarding_body_bytes then (Inl FwBodyTooLarge, rl, s)
     else case from_slice body of
       None \<Rightarrow> (Inl (FwMalformed ''invalid JSON body''), rl, s)
     | Some record \<Rightarrow>
       (case pair_get pairs (to_ascii_lowercase (fw_agent_id_hex record)) of
          None \<Rightarrow> (Inl NoPairRecord, rl, s)
        | Some pair \<Rightarrow>
          (case b_b64_decode B (p1_ml_dsa_pubkey_b64 pair) of
             Inl _ \<Rightarrow> (Inl StoredKeyUndecodable, rl, s)
           | Inr pubkey \<Rightarrow>
             (case verify_forwarding_record B record pubkey of
                Inl e \<Rightarrow> (Inl (FwVerify e), rl, s)
              | Inr _ \<Rightarrow>
                (case agent_id_from_hex B FwMalformed (fw_agent_id_hex record) of
                   Inl e \<Rightarrow> (Inl e, rl, s)
                 | Inr agent \<Rightarrow>
                   (case allow rnd now agent forwarding_max_per_min rl of
                      (False, rl) \<Rightarrow> (Inl FwRateLimited, rl, s)
                    | (True, rl) \<Rightarrow>
                        (case fw_put_if_newer record now_ms s of
                           (Inl current, s) \<Rightarrow> (Inl (FwNonMonotonic current), rl, s)
                         | (Inr _, s) \<Rightarrow> (Inr (), rl, s))))))))"

definition get_live_unsuperseded :: "forwarding_index \<Rightarrow> pair_record_index \<Rightarrow> utf8 \<Rightarrow> nat \<Rightarrow> forwarding_record_v1 option" where
  "get_live_unsuperseded s pairs agent_id_hex now_ms =
     (case fw_get_live s agent_id_hex now_ms of
        None \<Rightarrow> None
      | Some fwd \<Rightarrow>
          (case pair_get pairs agent_id_hex of
             Some pair \<Rightarrow> if p1_issued_at_ms pair > fw_issued_at_ms fwd then None else Some fwd
           | None \<Rightarrow> Some fwd))"

definition get_forwarding :: "utf8 \<Rightarrow> nat \<Rightarrow> pair_record_index \<Rightarrow> forwarding_index \<Rightarrow> nat + forwarding_record_v1" where
  "get_forwarding agent_id now_ms pairs s =
     (case get_live_unsuperseded s pairs (to_ascii_lowercase agent_id) now_ms of None \<Rightarrow> Inl 404 | Some r \<Rightarrow> Inr r)"

text \<open>The index as a ratchet: a record and the time it was stored at are written together.\<close>

definition fw_put :: "stored_forwarding \<Rightarrow> forwarding_index \<Rightarrow> (nat + unit) \<times> forwarding_index" where
  "fw_put e = fw_put_if_newer (sf_record e) (sf_stored_at_ms e)"

interpretation forward: ratchet "\<lambda>e. fw_agent_id_hex (sf_record e)" "\<lambda>e. fw_issued_at_ms (sf_record e)" hm_get fw_put
  by unfold_locales (auto simp: fw_put_def fw_put_if_newer_def Let_def hm_simps split: option.splits)

subsection \<open>Profiles\<close>

definition max_profile_body_bytes :: nat where "max_profile_body_bytes = 32 * 1024"
definition ml_kem_768_pubkey_len :: nat where "ml_kem_768_pubkey_len = 1184"
definition ml_dsa_65_pubkey_len :: nat where "ml_dsa_65_pubkey_len = 1952"
definition tombstone_profile_addr :: utf8 where "tombstone_profile_addr = replicate 64 0x30"
definition sign_domain_profile :: bytes where "sign_domain_profile = ascii ''fetchit/profile-manifest/v1''"

record profile_index_record =
  pf_agent_id :: utf8
  pf_profile_addr :: utf8
  pf_kem_pubkey :: utf8
  pf_ml_dsa_pubkey :: utf8
  pf_issued_at_ms :: nat
  pf_sig :: utf8

type_synonym profile_index = "(utf8, profile_index_record) hmap"

definition profile_get_live :: "profile_index \<Rightarrow> utf8 \<Rightarrow> profile_index_record option" where
  "profile_get_live s agent_id =
     (case hm_get s agent_id of
        None \<Rightarrow> None
      | Some r \<Rightarrow> if pf_profile_addr r = tombstone_profile_addr then None else Some r)"

definition profile_put_if_newer :: "profile_index_record \<Rightarrow> profile_index \<Rightarrow> (nat + unit) \<times> profile_index" where
  "profile_put_if_newer r s =
     (case hm_get s (pf_agent_id r) of
        Some e \<Rightarrow> if pf_issued_at_ms r \<le> pf_issued_at_ms e then (Inl (pf_issued_at_ms e), s)
                  else (Inr (), hm_insert (pf_agent_id r) r s)
      | None \<Rightarrow> (Inr (), hm_insert (pf_agent_id r) r s))"

definition profile_sweep_expired :: "nat \<Rightarrow> nat \<Rightarrow> profile_index \<Rightarrow> nat \<times> profile_index" where
  "profile_sweep_expired now_ms ttl_ms s =
     (let s' = hm_retain (\<lambda>_ r. now_ms - pf_issued_at_ms r \<le> ttl_ms) s in (length s - length s', s'))"

datatype profile_error =
  PfBodyTooLarge | PfMalformed string | PfAgentIdMismatch | PfSigVerifyFailed | PfNonMonotonic

fun profile_http_status :: "profile_error \<Rightarrow> nat" where
  "profile_http_status PfBodyTooLarge = 413"
| "profile_http_status (PfMalformed _) = 400"
| "profile_http_status PfAgentIdMismatch = 400"
| "profile_http_status PfSigVerifyFailed = 400"
| "profile_http_status PfNonMonotonic = 409"

text \<open>
  The external code of the profile path: base64url without padding, hex, the hash, the canonical
  JSON of a record without its signature (which may fail), and the signature verifier.
\<close>

record profile_backend =
  pb_b64url_decode :: "utf8 \<Rightarrow> bytes option"
  pb_hex_decode :: "utf8 \<Rightarrow> bytes option"
  pb_sha256 :: "bytes \<Rightarrow> bytes"
  pb_canonical :: "profile_index_record \<Rightarrow> profile_error + bytes"
  pb_verify :: verifier

definition verify_record :: "profile_backend \<Rightarrow> profile_index_record \<Rightarrow> profile_error + bytes" where
  "verify_record B r =
     (case pb_b64url_decode B (pf_ml_dsa_pubkey r) of
        None \<Rightarrow> Inl (PfMalformed ''ml_dsa_pubkey: not base64url-no-pad'')
      | Some pubkey \<Rightarrow>
        if length pubkey \<noteq> ml_dsa_65_pubkey_len then Inl (PfMalformed ''ml_dsa_pubkey: must be exactly 1952 bytes raw'')
        else case pb_b64url_decode B (pf_kem_pubkey r) of
          None \<Rightarrow> Inl (PfMalformed ''kem_pubkey: not base64url-no-pad'')
        | Some kem \<Rightarrow>
          if length kem \<noteq> ml_kem_768_pubkey_len then Inl (PfMalformed ''kem_pubkey: must be exactly 1184 bytes raw'')
          else case pb_b64url_decode B (pf_sig r) of
            None \<Rightarrow> Inl (PfMalformed ''sig: not base64url-no-pad'')
          | Some sig_bytes \<Rightarrow>
            (case pb_hex_decode B (pf_agent_id r) of
               None \<Rightarrow> Inl (PfMalformed ''agent_id: not 64-hex'')
             | Some embedded \<Rightarrow>
               if length embedded \<noteq> 32 then Inl (PfMalformed ''agent_id: must be 32 bytes'')
               else if derive_agent_id (pb_sha256 B) pubkey \<noteq> embedded then Inl PfAgentIdMismatch
               else and_then (pb_canonical B r) (\<lambda>canonical.
                 if \<not> pb_verify B pubkey (agent_sign_input (sign_domain_profile @ canonical)) sig_bytes
                 then Inl PfSigVerifyFailed else Inr pubkey)))"

definition post_profile :: "profile_backend \<Rightarrow> (bytes \<Rightarrow> profile_index_record option) \<Rightarrow> bytes
    \<Rightarrow> profile_index \<Rightarrow> (profile_error + unit) \<times> profile_index" where
  "post_profile B from_slice body s =
     (if length body > max_profile_body_bytes then (Inl PfBodyTooLarge, s)
      else case from_slice body of
        None \<Rightarrow> (Inl (PfMalformed ''invalid JSON body''), s)
      | Some record \<Rightarrow>
        (case verify_record B record of
           Inl e \<Rightarrow> (Inl e, s)
         | Inr _ \<Rightarrow>
           (case profile_put_if_newer record s of (Inl _, s) \<Rightarrow> (Inl PfNonMonotonic, s) | (Inr _, s) \<Rightarrow> (Inr (), s))))"

definition get_profile :: "utf8 \<Rightarrow> profile_index \<Rightarrow> nat + profile_index_record" where
  "get_profile agent_id s =
     (case profile_get_live s (to_ascii_lowercase agent_id) of None \<Rightarrow> Inl 404 | Some r \<Rightarrow> Inr r)"

definition delete_profile :: "profile_backend \<Rightarrow> (bytes \<Rightarrow> profile_index_record option) \<Rightarrow> utf8 \<Rightarrow> bytes
    \<Rightarrow> profile_index \<Rightarrow> (profile_error + unit) \<times> profile_index" where
  "delete_profile B from_slice agent_id_path body s =
     (if length body > max_profile_body_bytes then (Inl PfBodyTooLarge, s)
      else case from_slice body of
        None \<Rightarrow> (Inl (PfMalformed ''invalid JSON body''), s)
      | Some record \<Rightarrow>
        if pf_profile_addr record \<noteq> tombstone_profile_addr
        then (Inl (PfMalformed ''DELETE body must carry the all-zeros tombstone profile_addr''), s)
        else if pf_agent_id record \<noteq> to_ascii_lowercase agent_id_path
        then (Inl (PfMalformed ''agent_id in body must match path parameter''), s)
        else (case verify_record B record of
           Inl e \<Rightarrow> (Inl e, s)
         | Inr _ \<Rightarrow>
           (case profile_put_if_newer record s of (Inl _, s) \<Rightarrow> (Inl PfNonMonotonic, s) | (Inr _, s) \<Rightarrow> (Inr (), s))))"

interpretation profile: ratchet pf_agent_id pf_issued_at_ms hm_get profile_put_if_newer
  by unfold_locales (auto simp: profile_put_if_newer_def hm_simps split: option.splits)

subsection \<open>Sealed blobs\<close>

definition max_blob_bytes :: nat where "max_blob_bytes = 128 * 1024"
definition blob_ttl_ms :: nat where "blob_ttl_ms = 60 * 60 * 1000"
definition blob_max_per_min :: nat where "blob_max_per_min = 30"
definition token_min_len :: nat where "token_min_len = 16"
definition token_max_len :: nat where "token_max_len = 128"

record stored_blob =
  sb_ciphertext :: bytes
  sb_expiry_ms :: nat

type_synonym blob_store = "(utf8, stored_blob) hmap"

definition blob_put :: "utf8 \<Rightarrow> bytes \<Rightarrow> nat \<Rightarrow> blob_store \<Rightarrow> blob_store" where
  "blob_put token ciphertext expiry_ms s =
     hm_insert token \<lparr> sb_ciphertext = ciphertext, sb_expiry_ms = expiry_ms \<rparr> s"

definition blob_get :: "utf8 \<Rightarrow> nat \<Rightarrow> blob_store \<Rightarrow> bytes option \<times> blob_store" where
  "blob_get token now_ms s =
     (case hm_get s token of
        Some b \<Rightarrow> if now_ms < sb_expiry_ms b then (Some (sb_ciphertext b), s) else (None, hm_remove token s)
      | None \<Rightarrow> (None, s))"

definition blob_sweep_expired :: "nat \<Rightarrow> blob_store \<Rightarrow> nat \<times> blob_store" where
  "blob_sweep_expired now_ms s =
     (let s' = hm_retain (\<lambda>_ b. now_ms < sb_expiry_ms b) s in (length s - length s', s'))"

definition token_byte :: "8 word \<Rightarrow> bool" where
  "token_byte b \<longleftrightarrow> (0x41 \<le> b \<and> b \<le> 0x5A) \<or> (0x61 \<le> b \<and> b \<le> 0x7A) \<or> (0x30 \<le> b \<and> b \<le> 0x39)
     \<or> b = 0x2D \<or> b = 0x5F"

definition valid_token :: "utf8 \<Rightarrow> bool" where
  "valid_token token \<longleftrightarrow>
     token_min_len \<le> length token \<and> length token \<le> token_max_len \<and> list_all token_byte token"

definition ratelimit_key :: "(bytes \<Rightarrow> bytes) \<Rightarrow> utf8 \<Rightarrow> relay_id" where
  "ratelimit_key sha256 token = derive_agent_id sha256 token"

definition post_blob :: "(bytes \<Rightarrow> bytes) \<Rightarrow> (rat \<Rightarrow> rat) \<Rightarrow> nat \<Rightarrow> nat \<Rightarrow> utf8 \<Rightarrow> bytes \<Rightarrow> rate_limiter \<times> blob_store
    \<Rightarrow> (nat + nat) \<times> rate_limiter \<times> blob_store" where
  "post_blob sha256 rnd now now_ms token body = (\<lambda>(rl, s).
     if length body > max_blob_bytes then (Inl 413, rl, s)
     else if \<not> valid_token token then (Inl 400, rl, s)
     else case allow rnd now (ratelimit_key sha256 token) blob_max_per_min rl of
       (False, rl) \<Rightarrow> (Inl 429, rl, s)
     | (True, rl) \<Rightarrow> (Inr 200, rl, blob_put token body (u64_sat_add now_ms blob_ttl_ms) s))"

definition get_blob :: "nat \<Rightarrow> utf8 \<Rightarrow> blob_store \<Rightarrow> (nat + bytes) \<times> blob_store" where
  "get_blob now_ms token s =
     (if \<not> valid_token token then (Inl 400, s)
      else case blob_get token now_ms s of (Some ct, s) \<Rightarrow> (Inr ct, s) | (None, s) \<Rightarrow> (Inl 404, s))"

subsection \<open>Reachable indexes\<close>

type_synonym index_state = "rate_limiter \<times> pair_record_index \<times> forwarding_index"

datatype index_op =
    PostPair nat bytes | PostPairV4 nat bytes | PostForwarding nat nat bytes | SweepIndexes nat nat

record json_parsers =
  js_pair :: "bytes \<Rightarrow> pair_record_v1 option"
  js_pair_v4 :: "bytes \<Rightarrow> pair_record_v4 option"
  js_forwarding :: "bytes \<Rightarrow> forwarding_record_v1 option"

fun index_step :: "('pk, 'sig) backend \<Rightarrow> json_parsers \<Rightarrow> (rat \<Rightarrow> rat) \<Rightarrow> index_state \<Rightarrow> index_op \<Rightarrow> index_state" where
  "index_step B J rnd (rl, ps, fs) (PostPair now body) =
     (let (rl', ps') = snd (post_pair_record B (js_pair J) rnd now body (rl, ps)) in (rl', ps', fs))"
| "index_step B J rnd (rl, ps, fs) (PostPairV4 now body) =
     (let (rl', ps') = snd (post_pair_record_v4 B (js_pair_v4 J) rnd now body (rl, ps)) in (rl', ps', fs))"
| "index_step B J rnd (rl, ps, fs) (PostForwarding now now_ms body) =
     (let (rl', fs') = snd (post_forwarding B (js_forwarding J) rnd now now_ms body ps (rl, fs)) in (rl', ps, fs'))"
| "index_step B J rnd (rl, ps, fs) (SweepIndexes now_ms ttl_ms) =
     (rl, snd (pairs_sweep_expired now_ms ttl_ms ps), snd (fw_sweep_expired now_ms fs))"

definition fw_verified :: "('pk, 'sig) backend \<Rightarrow> forwarding_record_v1 \<Rightarrow> bool" where
  "fw_verified B f \<longleftrightarrow> (\<exists>key. verify_forwarding_record B f key = Inr ())"

lemma fw_verifiedI [intro]: "verify_forwarding_record B f key = Inr () \<Longrightarrow> fw_verified B f"
  by (auto simp: fw_verified_def)

definition index_inv :: "('pk, 'sig) backend \<Rightarrow> index_state \<Rightarrow> bool" where
  "index_inv B = (\<lambda>(rl, ps, fs).
     hm_wf (pi_by_agent ps) \<and> hm_wf (pi_by_user ps) \<and> hm_wf fs \<and>
     (\<forall>k r. hm_get (pi_by_agent ps) k = Some r \<longrightarrow> p1_agent_id_hex r = k \<and> verify_pair_record B r = Inr ()) \<and>
     (\<forall>k r. hm_get (pi_by_user ps) k = Some r \<longrightarrow> p4_user_id_hex r = k \<and> verify_pair_record_v4 B r = Inr ()) \<and>
     (\<forall>k e. hm_get fs k = Some e \<longrightarrow> fw_agent_id_hex (sf_record e) = k \<and> fw_verified B (sf_record e)))"

lemma index_inv_pair:
  "index_inv B (rl, ps, fs) \<Longrightarrow> snd (post_pair_record B f rnd now body (rl, ps)) = (rl', ps') \<Longrightarrow> index_inv B (rl', ps', fs)"
  by (auto simp: post_pair_record_def pair_put_if_newer_def index_inv_def Let_def hm_simps
      split: if_splits option.splits sum.splits prod.splits bool.splits)

lemma index_inv_pair_v4:
  "index_inv B (rl, ps, fs) \<Longrightarrow> snd (post_pair_record_v4 B f rnd now body (rl, ps)) = (rl', ps') \<Longrightarrow> index_inv B (rl', ps', fs)"
  by (auto simp: post_pair_record_v4_def pair_put_if_newer_v4_def index_inv_def Let_def hm_simps
      split: if_splits option.splits sum.splits prod.splits bool.splits)

lemma index_inv_forwarding:
  "index_inv B (rl, ps, fs) \<Longrightarrow> snd (post_forwarding B f rnd now now_ms body ps (rl, fs)) = (rl', fs') \<Longrightarrow> index_inv B (rl', ps, fs')"
  by (auto simp: post_forwarding_def fw_put_if_newer_def index_inv_def Let_def hm_simps
      split: if_splits option.splits sum.splits prod.splits bool.splits) (rule fw_verifiedI, assumption)+

lemma index_inv_sweep:
  "index_inv B (rl, ps, fs) \<Longrightarrow> index_inv B (rl, snd (pairs_sweep_expired now ttl ps), snd (fw_sweep_expired now fs))"
  by (auto simp: index_inv_def pairs_sweep_expired_def fw_sweep_expired_def Let_def hm_get_retain
      split: option.splits if_splits)

lemma index_step_inv: "index_inv B st \<Longrightarrow> index_inv B (index_step B J rnd st op)"
proof -
  assume inv: "index_inv B st"
  obtain rl ps fs where st: "st = (rl, ps, fs)" by (cases st)
  show ?thesis using inv unfolding st
    by (cases op) (auto simp: Let_def split: prod.splits
        intro: index_inv_pair index_inv_pair_v4 index_inv_forwarding index_inv_sweep)
qed

lemma index_inv_new: "index_inv B ([], pairs_new, [])"
  by (simp add: index_inv_def pairs_new_def)

interpretation indexes: invariant_system "index_step B J rnd" "\<lambda>_. True" "index_inv B" for B J rnd
  by unfold_locales (rule index_step_inv)

subsection \<open>Profiles by spelling\<close>

datatype profile_op = PostProfile bytes | DeleteProfile utf8 bytes | SweepProfiles nat nat

fun profile_step :: "profile_backend \<Rightarrow> (bytes \<Rightarrow> profile_index_record option) \<Rightarrow> profile_index \<Rightarrow> profile_op \<Rightarrow> profile_index" where
  "profile_step B f s (PostProfile body) = snd (post_profile B f body s)"
| "profile_step B f s (DeleteProfile path body) = snd (delete_profile B f path body s)"
| "profile_step B f s (SweepProfiles now ttl) = snd (profile_sweep_expired now ttl s)"

definition profile_inv :: "profile_index \<Rightarrow> bool" where
  "profile_inv s \<longleftrightarrow> hm_wf s \<and> (\<forall>k r. hm_get s k = Some r \<longrightarrow> pf_agent_id r = k)"

lemma profile_put_inv: "profile_inv s \<Longrightarrow> profile_inv (snd (profile_put_if_newer r s))"
  by (auto simp: profile_inv_def profile_put_if_newer_def hm_simps split: option.splits)

lemma profile_step_inv: "profile_inv s \<Longrightarrow> profile_inv (profile_step B f s op)"
proof (cases op)
  case (PostProfile body)
  assume "profile_inv s"
  then show ?thesis using PostProfile profile_put_inv
    by (auto simp: post_profile_def split: option.splits sum.splits prod.splits) (metis snd_conv)+
next
  case (DeleteProfile path body)
  assume "profile_inv s"
  then show ?thesis using DeleteProfile profile_put_inv
    by (auto simp: delete_profile_def split: option.splits sum.splits prod.splits) (metis snd_conv)+
next
  case (SweepProfiles now ttl)
  assume "profile_inv s"
  then show ?thesis using SweepProfiles
    by (auto simp: profile_inv_def profile_sweep_expired_def Let_def hm_get_retain split: option.splits if_splits)
qed

interpretation profiles: invariant_system "profile_step B f" "\<lambda>_. True" profile_inv for B f
  by unfold_locales (rule profile_step_inv)

lemma lowercase_idem [simp]: "to_ascii_lowercase (to_ascii_lowercase s) = to_ascii_lowercase s"
proof -
  have "\<not> (0x41 \<le> b + 32 \<and> b + 32 \<le> (0x5A :: 8 word))" if "0x41 \<le> b" "b \<le> 0x5A" for b :: "8 word"
    using that by (simp add: word_le_nat_alt unat_word_ariths)
  then show ?thesis by (auto simp: to_ascii_lowercase_def)
qed

subsection \<open>Properties\<close>


lemma undecodable_stored:
  assumes "fst (post_forwarding B g rnd now now_ms body ps st) = Inl StoredKeyUndecodable"
  shows "\<exists>k pair e. pair_get ps k = Some pair \<and> b_b64_decode B (p1_ml_dsa_pubkey_b64 pair) = Inl e"
  using assms unfolding post_forwarding_def agent_id_from_hex_def
  by (cases st) (auto split: option.splits sum.splits prod.splits bool.splits if_splits)

text \<open>
  (C8) Everything the relay serves from these indexes was verified. After any sequence of posts
  and sweeps, a record a GET returns carries the id that was asked for and passes the stateless
  verification a client repeats, and a forwarding post never meets a stored key it cannot decode.
\<close>

theorem served_records_verified:
  assumes "foldl (index_step B J rnd) ([], pairs_new, []) ops = (rl, ps, fs)"
  shows "(get_pair_record a ps = Inr r \<longrightarrow> p1_agent_id_hex r = to_ascii_lowercase a \<and> verify_pair_record B r = Inr ()) \<and>
    (get_pair_record_v4 a ps = Inr u \<longrightarrow> p4_user_id_hex u = to_ascii_lowercase a \<and> verify_pair_record_v4 B u = Inr ()) \<and>
    (get_forwarding a now ps fs = Inr f \<longrightarrow> fw_agent_id_hex f = to_ascii_lowercase a \<and> fw_verified B f) \<and>
    fst (post_forwarding B g rnd now' now_ms body ps (rl, fs)) \<noteq> Inl StoredKeyUndecodable"
proof -
  have inv: "index_inv B (rl, ps, fs)"
    using indexes.run_inv [OF index_inv_new, of ops B J rnd] assms by (simp add: list_all_iff)
  have key: "\<exists>bs. b_b64_decode B (p1_ml_dsa_pubkey_b64 r) = Inr bs" if "pair_get ps k = Some r" for k r
  proof -
    have "verify_pair_record B r = Inr ()" using inv that by (auto simp: index_inv_def pair_get_def)
    then show ?thesis unfolding verify_pair_record_def verify_Inr by blast
  qed
  have "fst (post_forwarding B g rnd now' now_ms body ps (rl, fs)) \<noteq> Inl StoredKeyUndecodable"
    using undecodable_stored [of B g rnd now' now_ms body ps "(rl, fs)"] key by fastforce
  then show ?thesis using inv
    by (auto simp: index_inv_def get_pair_record_def pair_get_def get_pair_record_v4_def pair_get_v4_def
        get_forwarding_def get_live_unsuperseded_def fw_get_live_def split: option.splits if_splits)
qed

definition demo_parsers :: json_parsers where
  "demo_parsers = \<lparr> js_pair = (\<lambda>_. Some demo_pair), js_pair_v4 = (\<lambda>_. None), js_forwarding = (\<lambda>_. None) \<rparr>"

definition demo_index :: index_state where
  "demo_index = foldl (index_step open_backend demo_parsers id) ([], pairs_new, []) [PostPair 0 []]"

lemma demo_index_pair: "pair_get (fst (snd demo_index)) demo_id = Some demo_pair"
proof -
  have id: "p1_agent_id_hex demo_pair = demo_id" by (simp add: demo_pair_def)
  have "agent_id_from_hex open_backend PairMalformed demo_id = Inr (replicate 32 0xAA)"
    by (simp add: agent_id_from_hex_def open_backend_def agent_id_len_def)
  moreover have "fst (allow id 0 (replicate 32 0xAA) pair_record_max_per_min [])"
    by (simp add: allow_def refill_def adopt_cap_def as_secs_f64_def pair_record_max_per_min_def Let_def hm_get_def)
  moreover obtain ok rl where "allow id 0 (replicate 32 0xAA) pair_record_max_per_min [] = (ok, rl)"
    by (cases "allow id 0 (replicate 32 0xAA) pair_record_max_per_min []")
  ultimately show ?thesis
    by (simp add: demo_index_def demo_parsers_def post_pair_record_def demo_pair_verified id
        pair_put_if_newer_def pairs_new_def pair_get_def Let_def hm_simps)
qed

theorem served_records_verified_witness:
  "get_pair_record demo_id (fst (snd demo_index)) = Inr demo_pair \<and> p1_agent_id_hex demo_pair = to_ascii_lowercase demo_id"
proof -
  obtain rl ps fs where st: "foldl (index_step open_backend demo_parsers id) ([], pairs_new, []) [PostPair 0 []] = (rl, ps, fs)"
    by (cases "foldl (index_step open_backend demo_parsers id) ([], pairs_new, []) [PostPair 0 []]")
  have "to_ascii_lowercase demo_id = demo_id" by (simp add: to_ascii_lowercase_def demo_id_def)
  then have g: "get_pair_record demo_id (fst (snd demo_index)) = Inr demo_pair"
    by (simp add: get_pair_record_def demo_index_pair)
  then show ?thesis
    using served_records_verified [OF st, where a = demo_id and r = demo_pair] st unfolding demo_index_def by auto
qed

text \<open>
  (C35) The profile index is keyed by the spelling of an id while lookups use lower case. A
  profile whose agent id is accepted with a capital letter in it is stored, answered with
  success and out of reach: no GET returns it, and no DELETE of its id is accepted.
\<close>

theorem mixed_case_profile_unreachable:
  assumes "s = foldl (profile_step B f) [] ops" and "post_profile B f body s = (Inr (), s')"
    and "f body = Some r" and "to_ascii_lowercase (pf_agent_id r) \<noteq> pf_agent_id r"
  shows "hm_get s' (pf_agent_id r) = Some r \<and> get_profile path s' \<noteq> Inr r \<and>
    (f body' = Some r' \<longrightarrow> pf_agent_id r' = pf_agent_id r \<longrightarrow> fst (delete_profile B f path body' s') \<noteq> Inr ())"
proof -
  have inv: "profile_inv s" unfolding assms(1)
    by (intro profiles.run_inv) (simp_all add: profile_inv_def list_all_iff)
  have "profile_inv (profile_step B f s (PostProfile body))" using inv by (rule profile_step_inv)
  then have inv': "profile_inv s'" using assms(2) by simp
  have stored: "hm_get s' (pf_agent_id r) = Some r"
    using assms(2,3) by (auto simp: post_profile_def profile_put_if_newer_def hm_simps
        split: if_splits option.splits sum.splits)
  have "get_profile path s' \<noteq> Inr r"
  proof
    assume "get_profile path s' = Inr r"
    then have "pf_agent_id r = to_ascii_lowercase path" using inv'
      by (auto simp: get_profile_def profile_get_live_def profile_inv_def split: option.splits if_splits)
    then show False using assms(4) by simp
  qed
  moreover have "fst (delete_profile B f path body' s') \<noteq> Inr ()" if "f body' = Some r'" "pf_agent_id r' = pf_agent_id r"
  proof -
    have "pf_agent_id r' \<noteq> to_ascii_lowercase path" using that(2) assms(4) by (metis lowercase_idem)
    then show ?thesis using that(1) by (simp add: delete_profile_def)
  qed
  ultimately show ?thesis using stored by blast
qed

definition demo_profile :: profile_index_record where
  "demo_profile = \<lparr> pf_agent_id = [0x41], pf_profile_addr = [1], pf_kem_pubkey = [2], pf_ml_dsa_pubkey = [3],
     pf_issued_at_ms = 5, pf_sig = [4] \<rparr>"

definition demo_profile_backend :: profile_backend where
  "demo_profile_backend = \<lparr> pb_b64url_decode = (\<lambda>s. Some (replicate (if s = [2] then 1184 else 1952) 0)),
     pb_hex_decode = (\<lambda>_. Some (replicate 32 0)), pb_sha256 = (\<lambda>_. replicate 32 0),
     pb_canonical = (\<lambda>_. Inr []), pb_verify = (\<lambda>_ _ _. True) \<rparr>"

theorem mixed_case_profile_unreachable_witness:
  "get_profile [0x41] (snd (post_profile demo_profile_backend (\<lambda>_. Some demo_profile) [] [])) \<noteq> Inr demo_profile"
proof -
  have "verify_record demo_profile_backend demo_profile = Inr (replicate 1952 0)"
    by (simp add: verify_record_def demo_profile_backend_def demo_profile_def ml_dsa_65_pubkey_len_def
        ml_kem_768_pubkey_len_def derive_agent_id_def)
  then have "post_profile demo_profile_backend (\<lambda>_. Some demo_profile) [] [] = (Inr (), [([0x41], demo_profile)])"
    by (simp add: post_profile_def profile_put_if_newer_def hm_get_def hm_insert_def) (simp add: demo_profile_def)
  moreover have "to_ascii_lowercase (pf_agent_id demo_profile) \<noteq> pf_agent_id demo_profile"
    by (simp add: demo_profile_def to_ascii_lowercase_def)
  ultimately show ?thesis
    using mixed_case_profile_unreachable [of "[]" demo_profile_backend "\<lambda>_. Some demo_profile" "[]" "[]" _ demo_profile] by simp
qed

text \<open>
  Both sweeps of the pairing index go by the issuer's clock. A record dated in the future is
  kept by every sweep, however long ago it was stored. And a sweep forgets the watermark with the
  record: once it has evicted a device list, an older revision is accepted again, which the
  index had refused just before.
\<close>

lemma sweep_follows_issuer_clock:
  assumes "hm_wf (pi_by_user s)" and "pair_get_v4 s k = Some u"
  shows "(now \<le> p4_issued_at_ms u \<longrightarrow> pair_get_v4 (snd (pairs_sweep_expired now ttl s)) k = Some u) \<and>
    (ttl < now - p4_issued_at_ms u \<longrightarrow> p4_user_id_hex old = k \<longrightarrow> p4_revision old < p4_revision u \<longrightarrow>
       fst (pair_put_if_newer_v4 old s) = Inl (p4_revision u) \<and>
       fst (pair_put_if_newer_v4 old (snd (pairs_sweep_expired now ttl s))) = Inr ())"
  using assms by (auto simp: pair_get_v4_def pairs_sweep_expired_def pair_put_if_newer_v4_def Let_def hm_get_retain)

definition demo_devices :: "nat \<Rightarrow> pair_record_v4" where
  "demo_devices rv = \<lparr> p4_record_version = 4, p4_user_id_hex = [1], p4_user_ml_dsa_pubkey_b64 = [], p4_revision = rv,
     p4_issued_at_ms = 0, p4_devices = [], p4_user_signature_b64 = [] \<rparr>"


end
