(* ===== verification/Relay_Group_Log.thy ===== *)
theory Relay_Group_Log
  imports Relay_Transit
begin

text \<open>
  The per-group append-only log (\<^verbatim>\<open>fetchit-relay-server/src/group_log.rs\<close>), in memory:
  sequence numbers per group, eviction of the oldest record at the cap, retention by time, and
  a global byte budget. The contract of the \<^verbatim>\<open>GroupLogStore\<close> trait is a locale.
\<close>

subsection \<open>The code\<close>

definition record_fixed_overhead :: nat where
  "record_fixed_overhead = 64"

definition record_size :: "nat \<Rightarrow> nat" where
  "record_size payload_len = u64_sat_add record_fixed_overhead payload_len"

record stored_log_record =
  sl_seq :: nat
  sl_kind :: log_record_kind
  sl_recipient :: "relay_id option"
  sl_payload :: bytes
  sl_author :: "relay_id option"
  sl_inserted_at_ms :: nat

record group_slot =
  gs_next_seq :: nat
  gs_records :: "stored_log_record list"

record ram_group_log =
  gl_groups :: "(group_key, group_slot) hmap"
  gl_window_ms :: nat
  gl_per_group_cap :: nat
  gl_max_total_bytes :: nat
  gl_total_bytes :: nat

definition gl_new :: "nat \<Rightarrow> nat \<Rightarrow> nat \<Rightarrow> ram_group_log" where
  "gl_new window_ms per_group_cap max_total_bytes =
     \<lparr> gl_groups = hm_empty, gl_window_ms = min window_ms u64_max, gl_per_group_cap = per_group_cap,
       gl_max_total_bytes = max_total_bytes, gl_total_bytes = 0 \<rparr>"

definition log_reserve_bytes :: "nat \<Rightarrow> ram_group_log \<Rightarrow> server_error + ram_group_log" where
  "log_reserve_bytes sz s =
     (let next = u64_sat_add (gl_total_bytes s) sz
      in if next > gl_max_total_bytes s then Inl GroupLogFull
         else Inr (s\<lparr> gl_total_bytes := next \<rparr>))"

definition slot_of_group :: "ram_group_log \<Rightarrow> group_key \<Rightarrow> group_slot" where
  "slot_of_group s g =
     (case hm_get (gl_groups s) g of Some slot \<Rightarrow> slot
      | None \<Rightarrow> \<lparr> gs_next_seq = 1, gs_records = [] \<rparr>)"

text \<open>The loop that pops the oldest records while the group is at its cap.\<close>

fun evict_front :: "nat \<Rightarrow> stored_log_record list \<Rightarrow> nat \<Rightarrow> stored_log_record list \<times> nat" where
  "evict_front cap [] tot = ([], tot)"
| "evict_front cap (old # rest) tot =
     (if length (old # rest) \<ge> cap
      then evict_front cap rest (u64_wrap_sub tot (record_size (length (sl_payload old))))
      else (old # rest, tot))"

definition append_record :: "nat \<Rightarrow> group_key \<Rightarrow> log_record_kind \<Rightarrow> relay_id option \<Rightarrow> bytes \<Rightarrow> relay_id
    \<Rightarrow> ram_group_log \<Rightarrow> (server_error + nat) \<times> ram_group_log" where
  "append_record now_ms g kind recipient payload author s =
     (case log_reserve_bytes (record_size (length payload)) s of
        Inl e \<Rightarrow> (Inl e, s)
      | Inr s1 \<Rightarrow>
          (let slot = slot_of_group s1 g;
               (recs, tot) = evict_front (gl_per_group_cap s1) (gs_records slot) (gl_total_bytes s1);
               seq = gs_next_seq slot;
               new = \<lparr> sl_seq = seq, sl_kind = kind, sl_recipient = recipient, sl_payload = payload,
                       sl_author = Some author, sl_inserted_at_ms = now_ms \<rparr>;
               slot' = \<lparr> gs_next_seq = u64_sat_add seq 1, gs_records = recs @ [new] \<rparr>
           in (Inr seq, s1\<lparr> gl_groups := hm_insert g slot' (gl_groups s1), gl_total_bytes := tot \<rparr>)))"

definition fetch_since :: "ram_group_log \<Rightarrow> group_key \<Rightarrow> nat \<Rightarrow> stored_log_record list" where
  "fetch_since s g since_seq =
     (case hm_get (gl_groups s) g of None \<Rightarrow> []
      | Some slot \<Rightarrow> filter (\<lambda>r. sl_seq r > since_seq) (gs_records slot))"

definition log_freed :: "stored_log_record list \<Rightarrow> nat" where
  "log_freed rs = foldl (\<lambda>f r. u64_sat_add f (record_size (length (sl_payload r)))) 0 rs"

definition record_alive :: "nat \<Rightarrow> nat \<Rightarrow> stored_log_record \<Rightarrow> bool" where
  "record_alive window_ms now r \<longleftrightarrow> now - sl_inserted_at_ms r < window_ms"

definition log_sweep_expired :: "nat \<Rightarrow> ram_group_log \<Rightarrow> nat \<times> ram_group_log" where
  "log_sweep_expired now_ms s =
     (let alive = record_alive (gl_window_ms s) now_ms;
          dropped = concat (map (\<lambda>slot. filter (\<lambda>r. \<not> alive r) (gs_records slot)) (hm_values (gl_groups s)));
          swept = hm_map_values (\<lambda>slot. slot\<lparr> gs_records := filter alive (gs_records slot) \<rparr>) (gl_groups s)
      in (length dropped,
          s\<lparr> gl_groups := swept, gl_total_bytes := u64_wrap_sub (gl_total_bytes s) (log_freed dropped) \<rparr>))"

definition log_len :: "ram_group_log \<Rightarrow> nat" where
  "log_len s = sum_list (map (\<lambda>slot. length (gs_records slot)) (hm_values (gl_groups s)))"

subsection \<open>Budget\<close>

definition records_bytes :: "stored_log_record list \<Rightarrow> nat" where
  "records_bytes rs = sum_list (map (\<lambda>r. record_size (length (sl_payload r))) rs)"

definition slot_bytes :: "group_slot \<Rightarrow> nat" where
  "slot_bytes slot = records_bytes (gs_records slot)"

definition log_inv :: "ram_group_log \<Rightarrow> bool" where
  "log_inv s \<longleftrightarrow>
     hm_wf (gl_groups s) \<and> gl_max_total_bytes s < u64_max \<and>
     gl_total_bytes s = hm_sum slot_bytes (gl_groups s) \<and> gl_total_bytes s \<le> gl_max_total_bytes s \<and>
     (\<forall>g. let slot = slot_of_group s g in
        0 < gs_next_seq slot \<and> length (gs_records slot) \<le> max 1 (gl_per_group_cap s) \<and>
        sorted_wrt (<) (map sl_seq (gs_records slot)) \<and>
        (\<forall>r \<in> set (gs_records slot). 0 < sl_seq r \<and> sl_seq r < gs_next_seq slot))"

lemma records_bytes_simps [simp]:
  "records_bytes [] = 0" "records_bytes (r # rs) = record_size (length (sl_payload r)) + records_bytes rs"
  "records_bytes (rs @ qs) = records_bytes rs + records_bytes qs"
  by (simp_all add: records_bytes_def)

lemma records_bytes_filter: "records_bytes (filter P rs) + records_bytes (filter (\<lambda>r. \<not> P r) rs) = records_bytes rs"
  by (induction rs) auto

lemma log_freed_exact:
  assumes "records_bytes rs \<le> u64_max"
  shows "log_freed rs = records_bytes rs"
proof -
  have "records_bytes rs + f \<le> u64_max \<Longrightarrow>
      foldl (\<lambda>f r. u64_sat_add f (record_size (length (sl_payload r)))) f rs = records_bytes rs + f" for f
    by (induction rs arbitrary: f) (simp_all add: add.assoc add.commute)
  then show ?thesis using assms by (simp add: log_freed_def)
qed

text \<open>Eviction keeps a suffix, one short of the cap, and gives its bytes back.\<close>

lemma evict_front_drop:
  assumes "records_bytes rs \<le> tot" and "tot < 2 ^ 64"
  shows "\<exists>k. fst (evict_front cap rs tot) = drop k rs \<and>
     snd (evict_front cap rs tot) = tot - records_bytes (take k rs) \<and>
     length (drop k rs) \<le> cap - 1 \<and> (k \<noteq> 0 \<longrightarrow> cap \<le> length rs)"
  using assms
proof (induction cap rs tot rule: evict_front.induct)
  case (2 cap old rest tot)
  let ?b = "record_size (length (sl_payload old))"
  show ?case
  proof (cases "length (old # rest) \<ge> cap")
    case True
    have sub: "u64_wrap_sub tot ?b = tot - ?b" using 2(2,3) by simp
    have "records_bytes rest \<le> tot - ?b" "tot - ?b < 2 ^ 64" using 2(2,3) by auto
    then obtain k where "fst (evict_front cap rest (tot - ?b)) = drop k rest"
      "snd (evict_front cap rest (tot - ?b)) = tot - ?b - records_bytes (take k rest)"
      "length (drop k rest) \<le> cap - 1"
      using 2(1) [OF True] sub by auto
    then show ?thesis using True sub by (intro exI [of _ "Suc k"]) simp
  next
    case False
    then show ?thesis by (intro exI [of _ 0]) auto
  qed
qed auto

lemma slot_of_insert: "slot_of_group (s\<lparr> gl_groups := hm_insert g slot m, gl_total_bytes := n \<rparr>) g' =
    (if g' = g then slot else slot_of_group (s\<lparr> gl_groups := m \<rparr>) g')"
  by (simp add: slot_of_group_def hm_simps)

lemma slot_of_put: "slot_of_group (s\<lparr> gl_groups := hm_insert g slot m \<rparr>) g' =
    (if g' = g then slot else slot_of_group (s\<lparr> gl_groups := m \<rparr>) g')"
  by (simp add: slot_of_group_def hm_simps)

lemma slot_of_same [simp]:
  "slot_of_group (s\<lparr> gl_total_bytes := n \<rparr>) g = slot_of_group s g"
  "slot_of_group (s\<lparr> gl_groups := gl_groups s \<rparr>) g = slot_of_group s g"
  by (simp_all add: slot_of_group_def)

lemma slot_bytes_new [simp]: "slot_bytes \<lparr> gs_next_seq = n, gs_records = rs \<rparr> = records_bytes rs"
  by (simp add: slot_bytes_def)

lemma sum_insert_slot:
  "hm_sum slot_bytes (hm_insert g slot (gl_groups s)) + slot_bytes (slot_of_group s g) =
   hm_sum slot_bytes (gl_groups s) + slot_bytes slot"
  by (cases "hm_get (gl_groups s) g")
     (simp_all add: slot_of_group_def hm_sum_insert_new hm_sum_insert_old)

lemma slot_bytes_le: "log_inv s \<Longrightarrow> slot_bytes (slot_of_group s g) \<le> gl_total_bytes s"
  by (cases "hm_get (gl_groups s) g")
     (auto simp: log_inv_def slot_of_group_def hm_sum_get_le)

definition new_record :: "nat \<Rightarrow> log_record_kind \<Rightarrow> relay_id option \<Rightarrow> bytes \<Rightarrow> relay_id \<Rightarrow> nat \<Rightarrow> stored_log_record" where
  "new_record now_ms kind recipient payload author seq =
     \<lparr> sl_seq = seq, sl_kind = kind, sl_recipient = recipient, sl_payload = payload,
       sl_author = Some author, sl_inserted_at_ms = now_ms \<rparr>"

lemma append_cases:
  assumes "log_inv s"
  obtains
    (full) "append_record t g kind rcp payload author s = (Inl GroupLogFull, s)"
      "gl_max_total_bytes s < gl_total_bytes s + record_size (length payload)"
  | (ok) k where "append_record t g kind rcp payload author s = (Inr (gs_next_seq (slot_of_group s g)),
        s\<lparr> gl_groups := hm_insert g
              \<lparr> gs_next_seq = u64_sat_add (gs_next_seq (slot_of_group s g)) 1,
                gs_records = drop k (gs_records (slot_of_group s g)) @
                  [new_record t kind rcp payload author (gs_next_seq (slot_of_group s g))] \<rparr> (gl_groups s),
           gl_total_bytes := gl_total_bytes s + record_size (length payload)
             - records_bytes (take k (gs_records (slot_of_group s g))) \<rparr>)"
      "gl_total_bytes s + record_size (length payload) \<le> gl_max_total_bytes s"
      "length (drop k (gs_records (slot_of_group s g))) \<le> gl_per_group_cap s - 1"
      "k \<noteq> 0 \<longrightarrow> gl_per_group_cap s \<le> length (gs_records (slot_of_group s g))"
proof -
  let ?sz = "record_size (length payload)" and ?rs = "gs_records (slot_of_group s g)"
  have max: "gl_max_total_bytes s < u64_max" "gl_total_bytes s \<le> gl_max_total_bytes s"
    using assms by (auto simp: log_inv_def)
  show thesis
  proof (cases "gl_total_bytes s + ?sz \<le> gl_max_total_bytes s")
    case True
    have tot: "u64_sat_add (gl_total_bytes s) ?sz = gl_total_bytes s + ?sz" using True max by simp
    have "records_bytes ?rs \<le> gl_total_bytes s + ?sz"
      using slot_bytes_le [OF assms, of g] by (simp add: slot_bytes_def)
    moreover have "gl_total_bytes s + ?sz < 2 ^ 64" using True max by simp
    ultimately obtain k where "fst (evict_front (gl_per_group_cap s) ?rs (gl_total_bytes s + ?sz)) = drop k ?rs"
      "snd (evict_front (gl_per_group_cap s) ?rs (gl_total_bytes s + ?sz)) =
         gl_total_bytes s + ?sz - records_bytes (take k ?rs)"
      "length (drop k ?rs) \<le> gl_per_group_cap s - 1"
      "k \<noteq> 0 \<longrightarrow> gl_per_group_cap s \<le> length ?rs"
      using evict_front_drop by blast
    then show thesis using True tot max
      by (intro ok [of k]) (simp_all add: append_record_def log_reserve_bytes_def Let_def case_prod_beta new_record_def)
  next
    case False
    then have "u64_sat_add (gl_total_bytes s) ?sz > gl_max_total_bytes s"
      using max by (simp add: u64_sat_add_def)
    then show thesis using False full by (simp add: append_record_def log_reserve_bytes_def Let_def)
  qed
qed

definition log_bounded :: "nat \<Rightarrow> ram_group_log \<Rightarrow> bool" where
  "log_bounded n s \<longleftrightarrow> (\<forall>g. gs_next_seq (slot_of_group s g) \<le> n)"

lemma append_inv:
  assumes inv: "log_inv s" and bound: "log_bounded n s" "n < u64_max"
  shows "log_inv (snd (append_record t g kind rcp payload author s)) \<and>
    log_bounded (n + 1) (snd (append_record t g kind rcp payload author s))"
  using inv
proof (cases rule: append_cases [where t = t and g = g and kind = kind and rcp = rcp and payload = payload
    and author = author])
  case full
  then show ?thesis using inv bound by (auto simp: log_bounded_def le_SucI)
next
  case (ok k)
  let ?slot = "slot_of_group s g"
  let ?new = "new_record t kind rcp payload author (gs_next_seq ?slot)"
  let ?slot' = "\<lparr> gs_next_seq = gs_next_seq ?slot + 1, gs_records = drop k (gs_records ?slot) @ [?new] \<rparr>"
  have seq: "u64_sat_add (gs_next_seq ?slot) 1 = gs_next_seq ?slot + 1"
  proof -
    have "gs_next_seq ?slot \<le> n" using bound by (simp add: log_bounded_def)
    then show ?thesis using bound(2) by (intro u64_sat_add_exact) simp
  qed
  have old: "0 < gs_next_seq ?slot"
    "sorted_wrt (<) (map sl_seq (gs_records ?slot))"
    "\<forall>r \<in> set (gs_records ?slot). 0 < sl_seq r \<and> sl_seq r < gs_next_seq ?slot"
    using inv by (auto simp: log_inv_def Let_def)
  have "records_bytes (gs_records ?slot) = records_bytes (take k (gs_records ?slot)) + records_bytes (drop k (gs_records ?slot))"
    by (metis append_take_drop_id records_bytes_simps(3))
  moreover have "record_size (length (sl_payload ?new)) = record_size (length payload)"
    by (simp add: new_record_def)
  ultimately have sum: "hm_sum slot_bytes (hm_insert g ?slot' (gl_groups s)) =
      gl_total_bytes s + record_size (length payload) - records_bytes (take k (gs_records ?slot))"
    using sum_insert_slot [of g ?slot' s] inv by (simp add: log_inv_def slot_bytes_def [of ?slot])
  have set_drop: "set (drop k (gs_records ?slot)) \<subseteq> set (gs_records ?slot)" by (rule set_drop_subset)
  have srt: "sorted_wrt (<) (map sl_seq (drop k (gs_records ?slot)))"
    using old(2) by (simp add: drop_map [symmetric] sorted_wrt_drop)
  have new: "sorted_wrt (<) (map sl_seq (gs_records ?slot'))"
    "\<forall>r \<in> set (gs_records ?slot'). 0 < sl_seq r \<and> sl_seq r < gs_next_seq ?slot'"
    "length (gs_records ?slot') \<le> max 1 (gl_per_group_cap s)"
    using old set_drop ok(3) srt by (auto simp: sorted_wrt_append new_record_def less_Suc_eq)
  have eq: "snd (append_record t g kind rcp payload author s) =
      s\<lparr> gl_groups := hm_insert g ?slot' (gl_groups s),
         gl_total_bytes := gl_total_bytes s + record_size (length payload) - records_bytes (take k (gs_records ?slot)) \<rparr>"
    using ok(1) seq by simp
  have "log_inv (snd (append_record t g kind rcp payload author s))"
    unfolding eq log_inv_def slot_of_insert using inv new sum ok(2) by (auto simp: log_inv_def Let_def)
  moreover have "log_bounded (n + 1) (snd (append_record t g kind rcp payload author s))"
    unfolding eq log_bounded_def slot_of_insert using bound by (auto simp: log_bounded_def le_SucI)
  ultimately show ?thesis by blast
qed

lemma sum_split_slots: "hm_sum slot_bytes (hm_map_values (\<lambda>slot. slot\<lparr> gs_records := filter P (gs_records slot) \<rparr>) m) +
    records_bytes (concat (map (\<lambda>slot. filter (\<lambda>r. \<not> P r) (gs_records slot)) (hm_values m))) = hm_sum slot_bytes m"
  unfolding hm_sum_def hm_values_def hm_map_values_def
proof (induction m)
  case (Cons e m)
  then show ?case using records_bytes_filter [of P "gs_records (snd e)"] by (cases e) (simp add: slot_bytes_def)
qed simp

lemma log_sweep_slot:
  "slot_of_group (snd (log_sweep_expired now s)) g =
    (slot_of_group s g)\<lparr> gs_records := filter (record_alive (gl_window_ms s) now) (gs_records (slot_of_group s g)) \<rparr>"
  by (auto simp: log_sweep_expired_def Let_def slot_of_group_def hm_get_map_values split: option.split)

lemma log_sweep_inv:
  assumes inv: "log_inv s"
  shows "log_inv (snd (log_sweep_expired now s))"
proof -
  let ?P = "record_alive (gl_window_ms s) now"
  let ?m = "hm_map_values (\<lambda>slot. slot\<lparr> gs_records := filter ?P (gs_records slot) \<rparr>) (gl_groups s)"
  let ?d = "concat (map (\<lambda>slot. filter (\<lambda>r. \<not> ?P r) (gs_records slot)) (hm_values (gl_groups s)))"
  have tot: "hm_sum slot_bytes ?m + records_bytes ?d = gl_total_bytes s" "gl_total_bytes s < u64_max"
    using sum_split_slots [of ?P "gl_groups s"] inv by (auto simp: log_inv_def)
  then have "u64_wrap_sub (gl_total_bytes s) (log_freed ?d) = hm_sum slot_bytes ?m"
    by (subst log_freed_exact, simp, subst u64_wrap_sub_exact) auto
  then have eq: "snd (log_sweep_expired now s) = s\<lparr> gl_groups := ?m, gl_total_bytes := hm_sum slot_bytes ?m \<rparr>"
    by (simp add: log_sweep_expired_def Let_def)
  have slots: "let slot = slot_of_group (snd (log_sweep_expired now s)) g in
      0 < gs_next_seq slot \<and> length (gs_records slot) \<le> max 1 (gl_per_group_cap s) \<and>
      sorted_wrt (<) (map sl_seq (gs_records slot)) \<and>
      (\<forall>r \<in> set (gs_records slot). 0 < sl_seq r \<and> sl_seq r < gs_next_seq slot)" for g
  proof -
    have old: "0 < gs_next_seq (slot_of_group s g)" "length (gs_records (slot_of_group s g)) \<le> max 1 (gl_per_group_cap s)"
      "sorted_wrt (<) (map sl_seq (gs_records (slot_of_group s g)))"
      "\<forall>r \<in> set (gs_records (slot_of_group s g)). 0 < sl_seq r \<and> sl_seq r < gs_next_seq (slot_of_group s g)"
      using inv by (auto simp: log_inv_def Let_def)
    have "length (filter ?P (gs_records (slot_of_group s g))) \<le> max 1 (gl_per_group_cap s)"
      using old(2) by (rule order_trans [OF length_filter_le])
    moreover have "sorted_wrt (<) (map sl_seq (filter ?P (gs_records (slot_of_group s g))))"
      using old(3) by (simp add: sorted_wrt_map sorted_wrt_filter)
    ultimately show ?thesis unfolding log_sweep_slot Let_def using old(1,4) by simp
  qed
  show ?thesis using inv tot slots by (auto simp: log_inv_def eq)
qed


subsection \<open>The contract\<close>

lemma fetch_slot: "fetch_since s g n = filter (\<lambda>r. sl_seq r > n) (gs_records (slot_of_group s g))"
  by (auto simp: fetch_since_def slot_of_group_def split: option.split)

lemma fetch_all: "log_inv s \<Longrightarrow> fetch_since s g 0 = gs_records (slot_of_group s g)"
  by (auto simp: fetch_slot log_inv_def Let_def intro!: filter_True)

locale group_log_store =
  fixes app :: "nat \<Rightarrow> group_key \<Rightarrow> log_record_kind \<Rightarrow> relay_id option \<Rightarrow> bytes \<Rightarrow> relay_id \<Rightarrow> 's
      \<Rightarrow> (server_error + nat) \<times> 's"
    and fetch :: "'s \<Rightarrow> group_key \<Rightarrow> nat \<Rightarrow> stored_log_record list"
    and inv :: "'s \<Rightarrow> bool"
    and cap :: "'s \<Rightarrow> nat"
  assumes fetch_since_law: "fetch s g n = filter (\<lambda>r. n < sl_seq r) (fetch s g 0)"
    and fetch_ascending: "inv s \<Longrightarrow> sorted_wrt (<) (map sl_seq (fetch s g 0))"
    and app_ok: "inv s \<Longrightarrow> app t g kind rcp payload author s = (Inr q, s') \<Longrightarrow>
        (\<exists>k. fetch s' g 0 = drop k (fetch s g 0) @ [new_record t kind rcp payload author q]
           \<and> (k \<noteq> 0 \<longrightarrow> cap s \<le> length (fetch s g 0))) \<and>
        (\<forall>g'. g' \<noteq> g \<longrightarrow> fetch s' g' 0 = fetch s g' 0) \<and> (\<forall>r \<in> set (fetch s g 0). sl_seq r < q)"
    and app_err: "inv s \<Longrightarrow> app t g kind rcp payload author s = (Inl x, s') \<Longrightarrow> s' = s"
begin

text \<open>A reader that is at \<open>n\<close> and fetches from there has, with what it holds, the whole log.\<close>

lemma catch_up: "inv s \<Longrightarrow> filter (\<lambda>r. sl_seq r \<le> n) (fetch s g 0) @ fetch s g n = fetch s g 0"
proof -
  have "sorted_wrt (<) (map sl_seq rs) \<Longrightarrow>
      filter (\<lambda>r. sl_seq r \<le> n) rs @ filter (\<lambda>r. n < sl_seq r) rs = rs" for rs
  proof (induction rs)
    case (Cons r rs)
    have "filter (\<lambda>r. sl_seq r \<le> n) rs = []" if "n < sl_seq r"
      using Cons.prems that by (auto simp: filter_empty_conv)
    then show ?case using Cons by (cases "sl_seq r \<le> n") (auto simp: not_le)
  qed simp
  moreover assume "inv s"
  ultimately show ?thesis unfolding fetch_since_law [of s g n] using fetch_ascending by blast
qed

lemma append_is_fetched:
  "inv s \<Longrightarrow> app t g kind rcp payload author s = (Inr q, s') \<Longrightarrow> n < q \<Longrightarrow>
   new_record t kind rcp payload author q \<in> set (fetch s' g n)"
  unfolding fetch_since_law [of s' g n]
  using app_ok [of s t g kind rcp payload author q s'] by (auto simp: new_record_def)

end

interpretation rlog: group_log_store append_record fetch_since log_inv gl_per_group_cap
proof unfold_locales
  fix s :: ram_group_log and s' t g kind rcp payload author q
  assume inv: "log_inv s" and app: "append_record t g kind rcp payload author s = (Inr q, s')"
  show "(\<exists>k. fetch_since s' g 0 = drop k (fetch_since s g 0) @ [new_record t kind rcp payload author q]
           \<and> (k \<noteq> 0 \<longrightarrow> gl_per_group_cap s \<le> length (fetch_since s g 0))) \<and>
        (\<forall>g'. g' \<noteq> g \<longrightarrow> fetch_since s' g' 0 = fetch_since s g' 0) \<and> (\<forall>r \<in> set (fetch_since s g 0). sl_seq r < q)"
    using inv
  proof (cases rule: append_cases [where t = t and g = g and kind = kind and rcp = rcp and payload = payload
      and author = author])
    case full
    then show ?thesis using app by simp
  next
    case (ok k)
    have pos: "0 < gs_next_seq (slot_of_group s g)"
      "\<forall>r \<in> set (gs_records (slot_of_group s g)). 0 < sl_seq r \<and> sl_seq r < gs_next_seq (slot_of_group s g)"
      using inv by (auto simp: log_inv_def Let_def)
    have q: "q = gs_next_seq (slot_of_group s g)" using ok(1) app by simp
    have "filter (\<lambda>r. 0 < sl_seq r) (drop k (gs_records (slot_of_group s g))) = drop k (gs_records (slot_of_group s g))"
      using pos(2) by (auto intro!: filter_True dest: in_set_dropD)
    then have "fetch_since s' g 0 = drop k (fetch_since s g 0) @ [new_record t kind rcp payload author q]"
      using ok(1) app pos(1) q fetch_all [OF inv] by (auto simp: fetch_slot slot_of_put new_record_def)
    moreover have "\<forall>g'. g' \<noteq> g \<longrightarrow> fetch_since s' g' 0 = fetch_since s g' 0"
      using ok(1) app by (auto simp: fetch_slot slot_of_put)
    ultimately show ?thesis using q pos(2) ok(4) fetch_all [OF inv] by auto
  qed
next
  fix s :: ram_group_log and s' t g kind rcp payload author x
  assume inv: "log_inv s" and app: "append_record t g kind rcp payload author s = (Inl x, s')"
  from inv show "s' = s"
    by (cases rule: append_cases [where t = t and g = g and kind = kind and rcp = rcp and payload = payload
      and author = author]) (use app in auto)
next
  fix s :: ram_group_log and g n
  show "fetch_since s g n = filter (\<lambda>r. n < sl_seq r) (fetch_since s g 0)"
    unfolding fetch_slot filter_filter by (intro filter_cong) auto
qed (auto simp: fetch_slot log_inv_def Let_def sorted_wrt_map intro: sorted_wrt_filter)


subsection \<open>Runs of the log\<close>

datatype log_op =
    AppendOp nat group_key log_record_kind "relay_id option" bytes relay_id | LogSweepOp nat

fun log_step :: "ram_group_log \<Rightarrow> log_op \<Rightarrow> ram_group_log" where
  "log_step s (AppendOp t g kind rcp payload author) = snd (append_record t g kind rcp payload author s)"
| "log_step s (LogSweepOp now) = snd (log_sweep_expired now s)"

text \<open>The sequence numbers a run assigns to a group, in order.\<close>

fun assigned :: "group_key \<Rightarrow> ram_group_log \<Rightarrow> log_op list \<Rightarrow> nat list" where
  "assigned g s [] = []"
| "assigned g s (AppendOp t g' kind rcp payload author # ops) =
     (case fst (append_record t g' kind rcp payload author s) of
        Inr q \<Rightarrow> if g' = g then [q] else [] | Inl _ \<Rightarrow> [])
     @ assigned g (snd (append_record t g' kind rcp payload author s)) ops"
| "assigned g s (LogSweepOp now # ops) = assigned g (snd (log_sweep_expired now s)) ops"

lemma log_new_inv: "m < u64_max \<Longrightarrow> log_inv (gl_new w cap m) \<and> log_bounded 1 (gl_new w cap m)"
  by (auto simp: log_inv_def log_bounded_def gl_new_def slot_of_group_def Let_def)

lemma log_step_inv:
  assumes "log_inv s" and "log_bounded n s" and "n < u64_max"
  shows "log_inv (log_step s op) \<and> log_bounded (n + 1) (log_step s op)"
proof (cases op)
  case (AppendOp t g kind rcp payload author)
  then show ?thesis using append_inv [OF assms] by simp
next
  case (LogSweepOp now)
  then show ?thesis using assms log_sweep_inv [OF assms(1)]
    by (auto simp: log_bounded_def log_sweep_slot le_SucI)
qed

lemma log_run_inv:
  "log_inv s \<Longrightarrow> log_bounded n s \<Longrightarrow> n + length ops \<le> u64_max \<Longrightarrow> log_inv (foldl log_step s ops)"
proof (induction ops arbitrary: s n)
  case (Cons op ops)
  have "n < u64_max" using Cons.prems(3) by simp
  then show ?case using Cons.IH [of "log_step s op" "n + 1"] Cons.prems log_step_inv [of s n op] by simp
qed simp

lemma append_next_seq:
  assumes inv: "log_inv s" and "log_bounded n s" "n < u64_max"
  shows "gs_next_seq (slot_of_group (snd (append_record t g' kind rcp payload author s)) g) =
    gs_next_seq (slot_of_group s g) +
      (if g' = g \<and> \<not> isl (fst (append_record t g' kind rcp payload author s)) then 1 else 0)"
    and "fst (append_record t g' kind rcp payload author s) = Inr q \<Longrightarrow> q = gs_next_seq (slot_of_group s g')"
proof -
  have "gs_next_seq (slot_of_group s g') \<le> n" using assms(2) by (simp add: log_bounded_def)
  then have seq: "u64_sat_add (gs_next_seq (slot_of_group s g')) 1 = gs_next_seq (slot_of_group s g') + 1"
    using assms(3) by (intro u64_sat_add_exact) simp
  from inv show "gs_next_seq (slot_of_group (snd (append_record t g' kind rcp payload author s)) g) =
    gs_next_seq (slot_of_group s g) +
      (if g' = g \<and> \<not> isl (fst (append_record t g' kind rcp payload author s)) then 1 else 0)"
    by (cases rule: append_cases [where t = t and g = g' and kind = kind and rcp = rcp and payload = payload
      and author = author]) (use seq in \<open>auto simp: slot_of_put\<close>)
  from inv show "fst (append_record t g' kind rcp payload author s) = Inr q \<Longrightarrow> q = gs_next_seq (slot_of_group s g')"
    by (cases rule: append_cases [where t = t and g = g' and kind = kind and rcp = rcp and payload = payload
      and author = author]) auto
qed

lemma next_seq_mono:
  assumes "log_inv s" and "log_bounded n s" and "n + length ops \<le> u64_max"
  shows "gs_next_seq (slot_of_group s g) \<le> gs_next_seq (slot_of_group (foldl log_step s ops) g) \<and>
    assigned g s ops = [gs_next_seq (slot_of_group s g) ..< gs_next_seq (slot_of_group (foldl log_step s ops) g)]"
  using assms
proof (induction ops arbitrary: s n)
  case (Cons op ops)
  let ?s = "log_step s op"
  have n: "n < u64_max" using Cons.prems(3) by simp
  have IH: "gs_next_seq (slot_of_group ?s g) \<le> gs_next_seq (slot_of_group (foldl log_step ?s ops) g)"
    "assigned g ?s ops = [gs_next_seq (slot_of_group ?s g) ..< gs_next_seq (slot_of_group (foldl log_step ?s ops) g)]"
    using Cons.IH [of ?s "n + 1"] log_step_inv [OF Cons.prems(1,2) n, of op] Cons.prems(3) by auto
  show ?case
  proof (cases op)
    case (AppendOp t g' kind rcp payload author)
    note nx = append_next_seq [OF Cons.prems(1,2) n, of t g' kind rcp payload author]
    show ?thesis
      using IH nx(1) [of g] nx(2) unfolding AppendOp
      by (cases "fst (append_record t g' kind rcp payload author s)") (auto simp: upt_conv_Cons)
  next
    case (LogSweepOp now)
    then show ?thesis using IH by (simp add: log_sweep_slot)
  qed
qed simp

subsection \<open>Properties\<close>

text \<open>
  (C33) Sequence numbers are dense and never reused: whatever is appended, rejected, evicted or
  swept in between, the successful appends to a group are numbered 1, 2, 3, and so on (for
  runs shorter than the range of a 64-bit counter).
\<close>

theorem group_seqs_consecutive:
  assumes "m < u64_max" and "length ops < u64_max"
  shows "\<exists>n. assigned g (gl_new w cap m) ops = [1 ..< n]"
proof -
  have "slot_of_group (gl_new w cap m) g = \<lparr> gs_next_seq = 1, gs_records = [] \<rparr>"
    by (simp add: slot_of_group_def gl_new_def)
  moreover have "1 + length ops \<le> u64_max" using assms(2) by simp
  ultimately show ?thesis
    using next_seq_mono [of "gl_new w cap m" 1 ops g] log_new_inv [OF assms(1), of w cap] by auto
qed

theorem group_seqs_consecutive_witness:
  "\<exists>n. assigned [5] (gl_new 60 1 1000)
     [AppendOp 1 [5] Commit None [1] [2], LogSweepOp 100, AppendOp 2 [5] Commit None [3] [2]] = [1 ..< n]"
  using group_seqs_consecutive [of 1000 "[AppendOp 1 [5] Commit None [1] [2], LogSweepOp 100, AppendOp 2 [5] Commit None [3] [2]]"]
  by simp

text \<open>
  The log stays within its bounds and in order: after any run the byte counter equals the
  sum of the stored record sizes and respects the global cap, every group holds at most its
  cap of records (one, if the cap is zero), and a fetch returns the records newer than the
  given number, in strictly ascending order, so that a reader at \<open>n\<close> that fetches from \<open>n\<close>
  holds the whole log.
\<close>

lemma group_log_bounded_and_ordered:
  assumes "m < u64_max" and "length ops < u64_max" and s_def: "s = foldl log_step (gl_new w cap m) ops"
  shows "gl_total_bytes s = hm_sum slot_bytes (gl_groups s) \<and> gl_total_bytes s \<le> m \<and>
     length (fetch_since s g 0) \<le> max 1 cap \<and> sorted_wrt (<) (map sl_seq (fetch_since s g n)) \<and>
     filter (\<lambda>r. sl_seq r \<le> n) (fetch_since s g 0) @ fetch_since s g n = fetch_since s g 0"
proof -
  have inv: "log_inv s"
    unfolding s_def using assms(1,2) log_new_inv [OF assms(1), of w cap] by (intro log_run_inv [of _ 1]) auto
  have keep: "gl_max_total_bytes (log_step r op) = gl_max_total_bytes r \<and> gl_per_group_cap (log_step r op) = gl_per_group_cap r" for r op
    by (cases op) (auto simp: append_record_def log_reserve_bytes_def log_sweep_expired_def Let_def case_prod_beta)
  have "gl_max_total_bytes (foldl log_step r ops) = gl_max_total_bytes r \<and>
      gl_per_group_cap (foldl log_step r ops) = gl_per_group_cap r" for r
    by (induction ops arbitrary: r) (simp_all add: keep)
  then have caps: "gl_max_total_bytes s = m" "gl_per_group_cap s = cap" by (simp_all add: s_def gl_new_def)
  have "sorted_wrt (<) (map sl_seq (fetch_since s g n))"
    unfolding rlog.fetch_since_law [of s g n] using rlog.fetch_ascending [OF inv, of g]
    by (simp add: sorted_wrt_map sorted_wrt_filter)
  then show ?thesis using inv caps rlog.catch_up [OF inv] fetch_all [OF inv]
    by (auto simp: log_inv_def Let_def)
qed

end
