(* ===== verification/Relay_Session.thy ===== *)
theory Relay_Session
  imports Relay_Proto
begin

text \<open>
  The registry of live sessions and presence watchers
  (\<^verbatim>\<open>fetchit-relay-server/src/session.rs\<close>). A sender half of an outbound channel is a number;
  \<open>outbound\<close> lists the frames the channels accepted, in order. Whether a channel accepts a frame
  (it is open and not full) is a parameter \<open>A\<close> of the model, which may depend on everything
  accepted so far: nothing below assumes that a frame gets through.
\<close>

subsection \<open>The code\<close>

type_synonym chan = nat
type_synonym session_id = nat
type_synonym outbound = "(chan \<times> server_frame) list"
type_synonym accepts = "outbound \<Rightarrow> chan \<Rightarrow> server_frame \<Rightarrow> bool"

definition try_send :: "accepts \<Rightarrow> chan \<Rightarrow> server_frame \<Rightarrow> outbound \<Rightarrow> bool \<times> outbound" where
  "try_send A tx f out = (if A out tx f then (True, out @ [(tx, f)]) else (False, out))"

definition max_watches_per_session :: nat where
  "max_watches_per_session = 1024"

definition fediverse_bridge_sender :: relay_id where
  "fediverse_bridge_sender = replicate agent_id_len 0"

record session_registry =
  sr_by_agent :: "(relay_id, session_id \<times> chan) hmap"
  sr_next_id :: nat
  sr_watchers :: "(relay_id, (session_id \<times> chan) list) hmap"
  sr_watches_by_session :: "(session_id, relay_id list) hmap"

definition registry_new :: session_registry where
  "registry_new = \<lparr> sr_by_agent = hm_empty, sr_next_id = 0, sr_watchers = hm_empty,
     sr_watches_by_session = hm_empty \<rparr>"

definition is_online :: "session_registry \<Rightarrow> relay_id \<Rightarrow> bool" where
  "is_online r agent = hm_contains (sr_by_agent r) agent"

definition broadcast_presence :: "accepts \<Rightarrow> relay_id \<Rightarrow> bool \<Rightarrow> session_registry \<Rightarrow> outbound \<Rightarrow> outbound" where
  "broadcast_presence A agent online r out =
     (case hm_get (sr_watchers r) agent of
        None \<Rightarrow> out
      | Some ws \<Rightarrow>
          foldl (\<lambda>out (_, tx). snd (try_send A tx
              (S_PresenceUpdate \<lparr> pu_agent_id = agent, pu_online = online \<rparr>) out)) out ws)"

definition register :: "accepts \<Rightarrow> relay_id \<Rightarrow> chan \<Rightarrow> session_registry \<times> outbound
    \<Rightarrow> session_id \<times> session_registry \<times> outbound" where
  "register A agent tx = (\<lambda>(r, out).
     (let i = u64_wrap_add (sr_next_id r) 1;
          prior = hm_get (sr_by_agent r) agent;
          r' = r\<lparr> sr_next_id := i, sr_by_agent := hm_insert agent (i, tx) (sr_by_agent r) \<rparr>
      in case prior of
           Some (_, prior_tx) \<Rightarrow> (i, r', snd (try_send A prior_tx (S_Bye \<lparr> by_reason = DisplacedByNewSession \<rparr>) out))
         | None \<Rightarrow> (i, r', broadcast_presence A agent True r' out)))"

definition unregister :: "accepts \<Rightarrow> relay_id \<Rightarrow> session_id \<Rightarrow> session_registry \<times> outbound
    \<Rightarrow> session_registry \<times> outbound" where
  "unregister A agent i = (\<lambda>(r, out).
     (case hm_get (sr_by_agent r) agent of
        Some (current, _) \<Rightarrow>
          if current = i
          then (let r' = r\<lparr> sr_by_agent := hm_remove agent (sr_by_agent r) \<rparr>
                in (r', broadcast_presence A agent False r' out))
          else (r, out)
      | None \<Rightarrow> (r, out)))"

definition session_send :: "accepts \<Rightarrow> relay_id \<Rightarrow> server_frame \<Rightarrow> session_registry \<Rightarrow> outbound
    \<Rightarrow> bool \<times> outbound" where
  "session_send A agent frame r out =
     (if agent = fediverse_bridge_sender then (False, out)
      else case hm_get (sr_by_agent r) agent of
             None \<Rightarrow> (False, out)
           | Some (_, tx) \<Rightarrow> try_send A tx frame out)"

definition broadcast :: "accepts \<Rightarrow> server_frame \<Rightarrow> session_registry \<Rightarrow> outbound \<Rightarrow> nat \<times> outbound" where
  "broadcast A frame r out =
     foldl (\<lambda>(n, out) (_, tx). (let (ok, out') = try_send A tx frame out
                                in (if ok then n + 1 else n, out')))
       (0, out) (hm_values (sr_by_agent r))"

definition connection_count :: "session_registry \<Rightarrow> nat" where
  "connection_count r = length (sr_by_agent r)"

definition watched_agent_count :: "session_registry \<Rightarrow> nat" where
  "watched_agent_count r = length (sr_watchers r)"

definition watching_session_count :: "session_registry \<Rightarrow> nat" where
  "watching_session_count r = length (sr_watches_by_session r)"

definition watches_of :: "session_registry \<Rightarrow> session_id \<Rightarrow> relay_id list" where
  "watches_of r sid = (case hm_get (sr_watches_by_session r) sid of Some as \<Rightarrow> as | None \<Rightarrow> [])"

definition watchers_of :: "session_registry \<Rightarrow> relay_id \<Rightarrow> (session_id \<times> chan) list" where
  "watchers_of r agent = (case hm_get (sr_watchers r) agent of Some ws \<Rightarrow> ws | None \<Rightarrow> [])"

fun add_watch_loop :: "accepts \<Rightarrow> session_id \<Rightarrow> chan \<Rightarrow> relay_id list \<Rightarrow> session_registry \<Rightarrow> outbound
    \<Rightarrow> session_registry \<times> outbound" where
  "add_watch_loop A sid tx [] r out = (r, out)"
| "add_watch_loop A sid tx (agent # agents) r out =
     (if length (watches_of r sid) \<ge> max_watches_per_session then (r, out)
      else if agent \<in> set (watches_of r sid) then add_watch_loop A sid tx agents r out
      else
        (let r1 = r\<lparr> sr_watches_by_session :=
                       hm_insert sid (watches_of r sid @ [agent]) (sr_watches_by_session r),
                     sr_watchers := hm_insert agent (watchers_of r agent @ [(sid, tx)]) (sr_watchers r) \<rparr>;
             out1 = snd (try_send A tx
               (S_PresenceUpdate \<lparr> pu_agent_id = agent, pu_online = is_online r agent \<rparr>) out)
         in add_watch_loop A sid tx agents r1 out1))"

definition add_watches :: "accepts \<Rightarrow> session_id \<Rightarrow> chan \<Rightarrow> relay_id list \<Rightarrow> session_registry \<times> outbound
    \<Rightarrow> session_registry \<times> outbound" where
  "add_watches A sid tx agents = (\<lambda>(r, out).
     add_watch_loop A sid tx agents
       (r\<lparr> sr_watches_by_session := hm_insert sid (watches_of r sid) (sr_watches_by_session r) \<rparr>) out)"

definition unwatch :: "session_id \<Rightarrow> relay_id \<Rightarrow> session_registry \<Rightarrow> session_registry" where
  "unwatch sid agent r =
     (case hm_get (sr_watchers r) agent of
        None \<Rightarrow> r
      | Some ws \<Rightarrow>
          (let ws' = filter (\<lambda>(i, _). i \<noteq> sid) ws
           in if ws' \<noteq> [] then r\<lparr> sr_watchers := hm_insert agent ws' (sr_watchers r) \<rparr>
              else r\<lparr> sr_watchers := hm_remove agent (sr_watchers r) \<rparr>))"

definition remove_watches :: "session_id \<Rightarrow> relay_id list \<Rightarrow> session_registry \<Rightarrow> session_registry" where
  "remove_watches sid agents r =
     (let r1 = (case hm_get (sr_watches_by_session r) sid of
                  None \<Rightarrow> r
                | Some as \<Rightarrow> r\<lparr> sr_watches_by_session :=
                    hm_insert sid (filter (\<lambda>a. a \<notin> set agents) as) (sr_watches_by_session r) \<rparr>)
      in fold (unwatch sid) agents r1)"

definition drop_all_watches :: "session_id \<Rightarrow> session_registry \<Rightarrow> session_registry" where
  "drop_all_watches sid r =
     (case hm_get (sr_watches_by_session r) sid of
        None \<Rightarrow> r
      | Some agents \<Rightarrow>
          fold (unwatch sid) agents
            (r\<lparr> sr_watches_by_session := hm_remove sid (sr_watches_by_session r) \<rparr>))"

subsection \<open>The two watch indexes agree\<close>

definition watch_inv :: "session_registry \<Rightarrow> bool" where
  "watch_inv r \<longleftrightarrow>
     hm_wf (sr_watchers r) \<and> hm_wf (sr_watches_by_session r) \<and>
     (\<forall>a sid. sid \<in> fst ` set (watchers_of r a) \<longleftrightarrow> a \<in> set (watches_of r sid)) \<and>
     (\<forall>a. distinct (map fst (watchers_of r a))) \<and>
     (\<forall>a. hm_get (sr_watchers r) a \<noteq> Some []) \<and>
     (\<forall>sid. distinct (watches_of r sid) \<and> length (watches_of r sid) \<le> max_watches_per_session)"

lemma watch_inv_new: "watch_inv registry_new"
  by (simp add: watch_inv_def registry_new_def watchers_of_def watches_of_def)

lemma watches_of_simps [simp]:
  "watches_of (r\<lparr> sr_watchers := w \<rparr>) sid = watches_of r sid"
  "watches_of (r\<lparr> sr_by_agent := m \<rparr>) sid = watches_of r sid"
  "watches_of (r\<lparr> sr_next_id := n \<rparr>) sid = watches_of r sid"
  "watchers_of (r\<lparr> sr_watches_by_session := s \<rparr>) a = watchers_of r a"
  "watchers_of (r\<lparr> sr_by_agent := m \<rparr>) a = watchers_of r a"
  "watchers_of (r\<lparr> sr_next_id := n \<rparr>) a = watchers_of r a"
  by (simp_all add: watches_of_def watchers_of_def)

lemma watches_of_put [simp]:
  "watches_of (r\<lparr> sr_watches_by_session := hm_insert k as m \<rparr>) sid =
     (if sid = k then as else watches_of (r\<lparr> sr_watches_by_session := m \<rparr>) sid)"
  "watches_of (r\<lparr> sr_watches_by_session := hm_remove k m \<rparr>) sid =
     (if sid = k then [] else watches_of (r\<lparr> sr_watches_by_session := m \<rparr>) sid)"
  "watches_of (r\<lparr> sr_watches_by_session := sr_watches_by_session r \<rparr>) sid = watches_of r sid"
  "watchers_of (r\<lparr> sr_watchers := hm_insert b ws m' \<rparr>) a =
     (if a = b then ws else watchers_of (r\<lparr> sr_watchers := m' \<rparr>) a)"
  "watchers_of (r\<lparr> sr_watchers := hm_remove b m' \<rparr>) a =
     (if a = b then [] else watchers_of (r\<lparr> sr_watchers := m' \<rparr>) a)"
  "watchers_of (r\<lparr> sr_watchers := sr_watchers r \<rparr>) a = watchers_of r a"
  by (simp_all add: watches_of_def watchers_of_def hm_simps)

lemma register_watch: "watch_inv r \<Longrightarrow> watch_inv (fst (snd (register A a tx (r, out))))"
  by (simp add: register_def watch_inv_def Let_def split: option.split prod.split)

lemma unregister_watch: "watch_inv r \<Longrightarrow> watch_inv (fst (unregister A a i (r, out)))"
  by (simp add: unregister_def watch_inv_def Let_def split: option.split prod.split)

lemma add_loop_watch: "watch_inv r \<Longrightarrow> watch_inv (fst (add_watch_loop A sid tx agents r out))"
proof (induction A sid tx agents r out rule: add_watch_loop.induct)
  case (2 A sid tx agent agents r out)
  let ?r = "r\<lparr> sr_watches_by_session := hm_insert sid (watches_of r sid @ [agent]) (sr_watches_by_session r),
               sr_watchers := hm_insert agent (watchers_of r agent @ [(sid, tx)]) (sr_watchers r) \<rparr>"
  show ?case
  proof (cases "length (watches_of r sid) \<ge> max_watches_per_session \<or> agent \<in> set (watches_of r sid)")
    case True
    then show ?thesis using 2 by auto
  next
    case False
    have wo: "watches_of ?r s = (if s = sid then watches_of r sid @ [agent] else watches_of r s)"
      "watchers_of ?r a = (if a = agent then watchers_of r agent @ [(sid, tx)] else watchers_of r a)" for s a
      by (simp_all add: watches_of_def watchers_of_def hm_simps)
    have "sid \<notin> fst ` set (watchers_of r agent)" using False 2(3) by (simp add: watch_inv_def)
    then have "watch_inv ?r"
      using 2(3) False unfolding watch_inv_def wo by (auto simp: hm_simps)
    then show ?thesis using 2(2) False by (simp add: Let_def)
  qed
qed simp

lemma add_watch: "watch_inv r \<Longrightarrow> watch_inv (fst (add_watches A sid tx agents (r, out)))"
proof -
  assume inv: "watch_inv r"
  let ?r = "r\<lparr> sr_watches_by_session := hm_insert sid (watches_of r sid) (sr_watches_by_session r) \<rparr>"
  have "watches_of ?r s = watches_of r s" for s by simp
  then have "watch_inv ?r" using inv by (simp add: watch_inv_def)
  then show ?thesis by (simp add: add_watches_def add_loop_watch)
qed

lemma unwatch_fields [simp]:
  "sr_watches_by_session (unwatch sid a r) = sr_watches_by_session r"
  "sr_by_agent (unwatch sid a r) = sr_by_agent r" "sr_next_id (unwatch sid a r) = sr_next_id r"
  by (simp_all add: unwatch_def Let_def split: option.split)

lemma unwatch_wf: "hm_wf (sr_watchers r) \<Longrightarrow> hm_wf (sr_watchers (unwatch sid a r))"
  by (simp add: unwatch_def Let_def split: option.split)

lemma unwatch_nonempty:
  "\<forall>b. hm_get (sr_watchers r) b \<noteq> Some [] \<Longrightarrow> hm_get (sr_watchers (unwatch sid a r)) b \<noteq> Some []"
  by (auto simp: unwatch_def Let_def hm_simps split: option.split)

lemma unwatch_watchers:
  "watchers_of (unwatch sid a r) b = (if b = a then filter (\<lambda>(i, _). i \<noteq> sid) (watchers_of r a) else watchers_of r b)"
  by (auto simp: unwatch_def Let_def watchers_of_def hm_simps split: option.split)

lemma fold_unwatch:
  "sr_watches_by_session (fold (unwatch sid) as r) = sr_watches_by_session r"
  "sr_by_agent (fold (unwatch sid) as r) = sr_by_agent r" "sr_next_id (fold (unwatch sid) as r) = sr_next_id r"
  "hm_wf (sr_watchers r) \<Longrightarrow> hm_wf (sr_watchers (fold (unwatch sid) as r))"
  "\<forall>b. hm_get (sr_watchers r) b \<noteq> Some [] \<Longrightarrow> \<forall>b. hm_get (sr_watchers (fold (unwatch sid) as r)) b \<noteq> Some []"
  "watchers_of (fold (unwatch sid) as r) b =
     (if b \<in> set as then filter (\<lambda>(i, _). i \<noteq> sid) (watchers_of r b) else watchers_of r b)"
proof (induction as arbitrary: r)
  case Nil
  { case 1 show ?case by simp }
  { case 2 show ?case by simp }
  { case 3 show ?case by simp }
  { case 4 then show ?case by simp }
  { case 5 then show ?case by simp }
  { case 6 show ?case by simp }
next
  case (Cons a as)
  { case 1 show ?case by (simp add: Cons.IH(1)) }
  { case 2 show ?case by (simp add: Cons.IH(2)) }
  { case 3 show ?case by (simp add: Cons.IH(3)) }
  { case 4 then show ?case by (simp add: Cons.IH(4) unwatch_wf) }
  { case 5 then show ?case using Cons.IH(5) [of "unwatch sid a r"] unwatch_nonempty by simp }
  { case 6 show ?case by (auto simp: Cons.IH(6) unwatch_watchers filter_filter) }
qed

text \<open>
  Taking a set of agents out of both indexes for one session keeps them in agreement.
\<close>

lemma watch_inv_cut:
  assumes inv: "watch_inv r" and s: "hm_wf s"
    and new: "\<And>i. watches_of (r\<lparr> sr_watches_by_session := s \<rparr>) i =
        (if i = sid then filter (\<lambda>a. a \<notin> set as) (watches_of r sid) else watches_of r i)"
  shows "watch_inv (fold (unwatch sid) as (r\<lparr> sr_watches_by_session := s \<rparr>))"
proof -
  let ?r = "r\<lparr> sr_watches_by_session := s \<rparr>" and ?f = "fold (unwatch sid) as (r\<lparr> sr_watches_by_session := s \<rparr>)"
  have ws: "watches_of ?f i = (if i = sid then filter (\<lambda>a. a \<notin> set as) (watches_of r sid) else watches_of r i)" for i
    using new [of i] fold_unwatch(1) [of sid as ?r] by (simp add: watches_of_def)
  have wr: "watchers_of ?f b = (if b \<in> set as then filter (\<lambda>(i, _). i \<noteq> sid) (watchers_of r b) else watchers_of r b)" for b
    by (simp add: fold_unwatch(6))
  have old: "i \<in> fst ` set (watchers_of r a) \<longleftrightarrow> a \<in> set (watches_of r i)" for a i
    using inv by (simp add: watch_inv_def)
  have ids: "fst ` set (watchers_of ?f a) = fst ` set (watchers_of r a) - (if a \<in> set as then {sid} else {})" for a
    by (auto simp: wr)
  have agree: "i \<in> fst ` set (watchers_of ?f a) \<longleftrightarrow> a \<in> set (watches_of ?f i)" for a i
    unfolding ids ws using old [of i a] by auto
  have dist: "distinct (map fst (watchers_of ?f a))" for a
    using inv by (simp add: wr watch_inv_def distinct_map_filter)
  have len: "distinct (watches_of ?f i) \<and> length (watches_of ?f i) \<le> max_watches_per_session" for i
  proof -
    have "distinct (watches_of r i)" "length (watches_of r i) \<le> max_watches_per_session"
      using inv by (simp_all add: watch_inv_def)
    then show ?thesis unfolding ws by (auto intro: le_trans [OF length_filter_le])
  qed
  have ne: "\<forall>b. hm_get (sr_watchers ?f) b \<noteq> Some []"
    using inv by (intro fold_unwatch(5)) (simp add: watch_inv_def)
  have wf: "hm_wf (sr_watchers ?f)" using inv by (intro fold_unwatch(4)) (simp add: watch_inv_def)
  show ?thesis
    unfolding watch_inv_def using agree dist len ne wf s by (simp add: fold_unwatch(1))
qed

lemma remove_watch:
  assumes inv: "watch_inv r"
  shows "watch_inv (remove_watches sid agents r)"
proof (cases "hm_get (sr_watches_by_session r) sid")
  case None
  then have "watches_of r sid = []" by (simp add: watches_of_def)
  moreover have "r\<lparr> sr_watches_by_session := sr_watches_by_session r \<rparr> = r" by simp
  ultimately show ?thesis
    using watch_inv_cut [OF inv, of "sr_watches_by_session r" sid agents] inv None
    by (auto simp: remove_watches_def watch_inv_def)
next
  case (Some as)
  then have "watches_of r sid = as" by (simp add: watches_of_def)
  then show ?thesis
    using watch_inv_cut [OF inv, of "hm_insert sid (filter (\<lambda>a. a \<notin> set agents) as) (sr_watches_by_session r)" sid agents]
      inv Some by (auto simp: remove_watches_def watch_inv_def)
qed

lemma drop_watch:
  assumes inv: "watch_inv r"
  shows "watch_inv (drop_all_watches sid r)" and "watches_of (drop_all_watches sid r) sid = []"
proof -
  show "watch_inv (drop_all_watches sid r)"
  proof (cases "hm_get (sr_watches_by_session r) sid")
    case None
    then show ?thesis using inv by (simp add: drop_all_watches_def)
  next
    case (Some as)
    then have "watches_of r sid = as" by (simp add: watches_of_def)
    then show ?thesis
      using watch_inv_cut [OF inv, of "hm_remove sid (sr_watches_by_session r)" sid as] inv Some
      by (auto simp: drop_all_watches_def watch_inv_def)
  qed
  show "watches_of (drop_all_watches sid r) sid = []"
    by (auto simp: drop_all_watches_def watches_of_def fold_unwatch(1) hm_simps split: option.split)
qed

subsection \<open>Runs of the registry\<close>

datatype registry_op =
    RegisterOp relay_id chan | UnregisterOp relay_id session_id
  | AddWatchesOp session_id chan "relay_id list" | RemoveWatchesOp session_id "relay_id list"
  | DropWatchesOp session_id | SessionSendOp relay_id server_frame | BroadcastOp server_frame

fun registry_step :: "accepts \<Rightarrow> session_registry \<times> outbound \<Rightarrow> registry_op \<Rightarrow> session_registry \<times> outbound" where
  "registry_step A (r, out) (RegisterOp a tx) = snd (register A a tx (r, out))"
| "registry_step A (r, out) (UnregisterOp a i) = unregister A a i (r, out)"
| "registry_step A (r, out) (AddWatchesOp sid tx as) = add_watches A sid tx as (r, out)"
| "registry_step A (r, out) (RemoveWatchesOp sid as) = (remove_watches sid as r, out)"
| "registry_step A (r, out) (DropWatchesOp sid) = (drop_all_watches sid r, out)"
| "registry_step A (r, out) (SessionSendOp a f) = (r, snd (session_send A a f r out))"
| "registry_step A (r, out) (BroadcastOp f) = (r, snd (broadcast A f r out))"

lemma registry_step_inv: "watch_inv (fst st) \<Longrightarrow> watch_inv (fst (registry_step A st op))"
  by (cases st; cases op) (simp_all add: register_watch unregister_watch add_watch remove_watch drop_watch)

interpretation watches: invariant_system "registry_step A" "\<lambda>_. True" "\<lambda>st. watch_inv (fst st)" for A
  by unfold_locales (rule registry_step_inv)

lemma add_loop_by_agent [simp]:
  "sr_by_agent (fst (add_watch_loop A sid tx agents r out)) = sr_by_agent r"
  by (induction A sid tx agents r out rule: add_watch_loop.induct) (auto simp: Let_def)

lemma by_agent_kept [simp]:
  "sr_by_agent (fst (add_watches A sid tx as (r, out))) = sr_by_agent r"
  "sr_by_agent (remove_watches sid as r) = sr_by_agent r"
  "sr_by_agent (drop_all_watches sid r) = sr_by_agent r"
  by (auto simp: add_watches_def remove_watches_def drop_all_watches_def fold_unwatch(2) Let_def
      split: option.split)

text \<open>The operations that may end the binding of an agent to a session.\<close>

fun rebinds :: "relay_id \<Rightarrow> session_id \<Rightarrow> registry_op \<Rightarrow> bool" where
  "rebinds a i (RegisterOp b _) = (b = a)"
| "rebinds a i (UnregisterOp b j) = (b = a \<and> j = i)"
| "rebinds a i _ = False"

lemma step_keeps_binding:
  "hm_get (sr_by_agent (fst st)) a = Some (i, tx) \<Longrightarrow> \<not> rebinds a i op \<Longrightarrow>
   hm_get (sr_by_agent (fst (registry_step A st op))) a = Some (i, tx)"
  by (cases st; cases op)
     (auto simp: register_def unregister_def Let_def hm_simps split: option.split prod.split)

lemma run_keeps_binding:
  "hm_get (sr_by_agent (fst st)) a = Some (i, tx) \<Longrightarrow> list_all (\<lambda>op. \<not> rebinds a i op) ops \<Longrightarrow>
   hm_get (sr_by_agent (fst (foldl (registry_step A) st ops))) a = Some (i, tx)"
  by (induction ops arbitrary: st) (simp_all add: step_keeps_binding)

text \<open>
  \<^const>\<open>watching_session_count\<close> counts the sessions that have an entry, and an entry stays when
  its last watch is removed: a session that watches nobody is still counted until it closes.
\<close>

lemma watching_count_counts_empty_entries:
  "(let r = remove_watches 1 [[2]] (fst (add_watches (\<lambda>_ _ _. True) 1 10 [[2]] (registry_new, [])))
    in watching_session_count r = 1 \<and> hm_values (sr_watches_by_session r) = [[]])"
  by code_simp

subsection \<open>Properties\<close>

text \<open>
  The two presence indexes agree after any sequence of registrations, exits and watch
  changes: a session is among the watchers of an agent exactly when the agent is among the
  watches of the session; no session is listed twice for an agent, no session watches more
  than 1024 agents, and no agent keeps an empty watcher list, so the watcher index is empty
  again once no session watches anyone.
\<close>

lemma watch_indexes_agree:
  assumes "r = fst (foldl (registry_step A) (registry_new, []) ops)"
  shows "(\<forall>a sid. sid \<in> fst ` set (watchers_of r a) \<longleftrightarrow> a \<in> set (watches_of r sid)) \<and>
     (\<forall>a. distinct (map fst (watchers_of r a))) \<and>
     (\<forall>sid. length (watches_of r sid) \<le> max_watches_per_session) \<and>
     ((\<forall>sid. watches_of r sid = []) \<longrightarrow> watched_agent_count r = 0)"
proof -
  have inv: "watch_inv r"
    unfolding assms using watch_inv_new by (intro watches.run_inv) (simp_all add: list_all_iff)
  have "watched_agent_count r = 0" if none: "\<forall>sid. watches_of r sid = []"
  proof -
    have "hm_get (sr_watchers r) a = None" for a
    proof -
      have "watchers_of r a = []" using inv none by (force simp: watch_inv_def)
      moreover have "hm_get (sr_watchers r) a \<noteq> Some []" using inv by (simp add: watch_inv_def)
      ultimately show ?thesis by (cases "hm_get (sr_watchers r) a") (simp_all add: watchers_of_def)
    qed
    then have "sr_watchers r = []" by (cases "sr_watchers r") (auto simp: hm_get_None_iff)
    then show ?thesis by (simp add: watched_agent_count_def)
  qed
  then show ?thesis using inv by (simp add: watch_inv_def)
qed

text \<open>
  A displaced connection cannot tear down the one that displaced it. After an agent
  registers, it stays bound to that session and channel through every sequence of operations of
  all connections, late exits of its own earlier sessions included, until it registers again
  or exactly that session is unregistered.
\<close>

lemma binding_survives_stale_exits:
  assumes "register A a tx st = (i, st')" and "list_all (\<lambda>op. \<not> rebinds a i op) ops"
  shows "hm_get (sr_by_agent (fst (foldl (registry_step A) st' ops))) a = Some (i, tx)"
proof -
  have "hm_get (sr_by_agent (fst st')) a = Some (i, tx)"
    using assms(1) by (cases st) (auto simp: register_def Let_def hm_simps split: option.splits prod.splits)
  then show ?thesis using assms(2) by (rule run_keeps_binding)
qed

text \<open>
  The sentinel of the fediverse bridge is never a delivery target, and a directed send
  reaches only the channel its recipient is bound to.
\<close>

lemma send_only_to_bound_channel:
  "session_send A agent f r out = (ok, out') \<Longrightarrow>
     (ok \<longrightarrow> agent \<noteq> fediverse_bridge_sender \<and>
        (\<exists>i tx. hm_get (sr_by_agent r) agent = Some (i, tx) \<and> out' = out @ [(tx, f)])) \<and>
     (\<not> ok \<longrightarrow> out' = out)"
  by (auto simp: session_send_def try_send_def split: if_splits option.splits)

end
