(* ===== verification/Relay_Metrics.thy ===== *)
theory Relay_Metrics
  imports Relay_Proto
begin

text \<open>
  The counters of the relay (\<^verbatim>\<open>fetchit-relay-server/src/metrics.rs\<close>): one atomic integer per
  series, its incrementers, and the text the scrape endpoint returns. The atomics are 64-bit
  words, so that their additions wrap as \<^verbatim>\<open>fetch_add\<close> does; the two gauges are signed.
\<close>

record metrics =
  mt_connections_active :: "64 word"
  mt_transit_buffer_envelopes :: "64 word"
  mt_envelopes_sent_total :: "64 word"
  mt_envelopes_delivered_total :: "64 word"
  mt_envelopes_pushed_total :: "64 word"
  mt_envelopes_buffered_total :: "64 word"
  mt_envelopes_moved_total :: "64 word"
  mt_envelopes_dropped_ttl_total :: "64 word"
  mt_auth_challenges_issued_total :: "64 word"
  mt_auth_verify_ok_total :: "64 word"
  mt_auth_verify_failed_total :: "64 word"
  mt_throttles_per_recipient_total :: "64 word"
  mt_throttles_per_sender_total :: "64 word"
  mt_throttles_envelope_too_large_total :: "64 word"
  mt_envelopes_accepted_legacy_v2_total :: "64 word"
  mt_envelopes_dropped_version_gate_total :: "64 word"
  mt_started_at :: nat
  mt_region :: region
  mt_version :: string

definition metrics_new :: "nat \<Rightarrow> region \<Rightarrow> string \<Rightarrow> metrics" where
  "metrics_new now reg version =
     \<lparr> mt_connections_active = 0, mt_transit_buffer_envelopes = 0, mt_envelopes_sent_total = 0,
       mt_envelopes_delivered_total = 0, mt_envelopes_pushed_total = 0, mt_envelopes_buffered_total = 0,
       mt_envelopes_moved_total = 0, mt_envelopes_dropped_ttl_total = 0, mt_auth_challenges_issued_total = 0,
       mt_auth_verify_ok_total = 0, mt_auth_verify_failed_total = 0, mt_throttles_per_recipient_total = 0,
       mt_throttles_per_sender_total = 0, mt_throttles_envelope_too_large_total = 0,
       mt_envelopes_accepted_legacy_v2_total = 0, mt_envelopes_dropped_version_gate_total = 0,
       mt_started_at = now, mt_region = reg, mt_version = version \<rparr>"

definition connection_opened :: "metrics \<Rightarrow> metrics" where
  "connection_opened m = m\<lparr> mt_connections_active := mt_connections_active m + 1 \<rparr>"

definition connection_closed :: "metrics \<Rightarrow> metrics" where
  "connection_closed m = m\<lparr> mt_connections_active := mt_connections_active m - 1 \<rparr>"

definition set_transit_buffer_envelopes :: "int \<Rightarrow> metrics \<Rightarrow> metrics" where
  "set_transit_buffer_envelopes current m = m\<lparr> mt_transit_buffer_envelopes := of_int current \<rparr>"

definition envelope_sent :: "metrics \<Rightarrow> metrics" where
  "envelope_sent m = m\<lparr> mt_envelopes_sent_total := mt_envelopes_sent_total m + 1 \<rparr>"

definition envelopes_delivered :: "nat \<Rightarrow> metrics \<Rightarrow> metrics" where
  "envelopes_delivered count m =
     (if count > 0 then m\<lparr> mt_envelopes_delivered_total := mt_envelopes_delivered_total m + of_nat count \<rparr> else m)"

definition envelope_pushed :: "metrics \<Rightarrow> metrics" where
  "envelope_pushed m = m\<lparr> mt_envelopes_pushed_total := mt_envelopes_pushed_total m + 1 \<rparr>"

definition envelope_buffered :: "metrics \<Rightarrow> metrics" where
  "envelope_buffered m = m\<lparr> mt_envelopes_buffered_total := mt_envelopes_buffered_total m + 1 \<rparr>"

definition envelope_moved :: "metrics \<Rightarrow> metrics" where
  "envelope_moved m = m\<lparr> mt_envelopes_moved_total := mt_envelopes_moved_total m + 1 \<rparr>"

definition envelopes_dropped_ttl :: "nat \<Rightarrow> metrics \<Rightarrow> metrics" where
  "envelopes_dropped_ttl count m =
     (if count > 0 then m\<lparr> mt_envelopes_dropped_ttl_total := mt_envelopes_dropped_ttl_total m + of_nat count \<rparr> else m)"

definition auth_challenge_issued :: "metrics \<Rightarrow> metrics" where
  "auth_challenge_issued m = m\<lparr> mt_auth_challenges_issued_total := mt_auth_challenges_issued_total m + 1 \<rparr>"

definition auth_verify_ok :: "metrics \<Rightarrow> metrics" where
  "auth_verify_ok m = m\<lparr> mt_auth_verify_ok_total := mt_auth_verify_ok_total m + 1 \<rparr>"

definition auth_verify_failed :: "metrics \<Rightarrow> metrics" where
  "auth_verify_failed m = m\<lparr> mt_auth_verify_failed_total := mt_auth_verify_failed_total m + 1 \<rparr>"

definition throttle_per_recipient :: "metrics \<Rightarrow> metrics" where
  "throttle_per_recipient m = m\<lparr> mt_throttles_per_recipient_total := mt_throttles_per_recipient_total m + 1 \<rparr>"

definition throttle_per_sender :: "metrics \<Rightarrow> metrics" where
  "throttle_per_sender m = m\<lparr> mt_throttles_per_sender_total := mt_throttles_per_sender_total m + 1 \<rparr>"

definition throttle_envelope_too_large :: "metrics \<Rightarrow> metrics" where
  "throttle_envelope_too_large m =
     m\<lparr> mt_throttles_envelope_too_large_total := mt_throttles_envelope_too_large_total m + 1 \<rparr>"

definition envelope_accepted_legacy_v2 :: "metrics \<Rightarrow> metrics" where
  "envelope_accepted_legacy_v2 m =
     m\<lparr> mt_envelopes_accepted_legacy_v2_total := mt_envelopes_accepted_legacy_v2_total m + 1 \<rparr>"

definition envelope_dropped_version_gate :: "metrics \<Rightarrow> metrics" where
  "envelope_dropped_version_gate m =
     m\<lparr> mt_envelopes_dropped_version_gate_total := mt_envelopes_dropped_version_gate_total m + 1 \<rparr>"

lemmas metric_defs = connection_opened_def connection_closed_def set_transit_buffer_envelopes_def envelope_sent_def
  envelopes_delivered_def envelope_pushed_def envelope_buffered_def envelope_moved_def envelopes_dropped_ttl_def
  auth_challenge_issued_def auth_verify_ok_def auth_verify_failed_def throttle_per_recipient_def
  throttle_per_sender_def throttle_envelope_too_large_def envelope_accepted_legacy_v2_def
  envelope_dropped_version_gate_def

subsection \<open>The scrape text\<close>

text \<open>An em dash, as its three bytes.\<close>

definition em_dash :: string where "em_dash = [CHR 0xE2, CHR 0x80, CHR 0x94]"

definition counter_snapshot :: "metrics \<Rightarrow> (string \<times> string \<times> 64 word) list" where
  "counter_snapshot m =
     [(''fetchit_relay_envelopes_sent_total'', ''Send frames accepted into routing'', mt_envelopes_sent_total m),
      (''fetchit_relay_envelopes_delivered_total'',
       ''Envelopes the recipient acked, reclaiming the durable entry '' @ em_dash
         @ '' delivery to a socket is provisional until the ack'', mt_envelopes_delivered_total m),
      (''fetchit_relay_envelopes_pushed_total'',
       ''Deliver frames handed to a live session's outbound queue ''
         @ ''(provisional; pushed minus delivered is the un-acked backlog)'', mt_envelopes_pushed_total m),
      (''fetchit_relay_envelopes_buffered_total'',
       ''Envelopes routed into the transit buffer (offline recipient)'', mt_envelopes_buffered_total m),
      (''fetchit_relay_envelopes_moved_total'',
       ''Deposits answered with Moved (recipient migrated, live forwarding record)'', mt_envelopes_moved_total m),
      (''fetchit_relay_envelopes_dropped_ttl_total'',
       ''Envelopes evicted by the sweeper without delivery '' @ em_dash
         @ '' a proxy for recipients that never came back to this relay'', mt_envelopes_dropped_ttl_total m),
      (''fetchit_relay_auth_challenges_issued_total'', ''/v1/auth/challenge calls'', mt_auth_challenges_issued_total m),
      (''fetchit_relay_auth_verify_ok_total'', ''Successful /v1/auth/verify'', mt_auth_verify_ok_total m),
      (''fetchit_relay_auth_verify_failed_total'', ''Rejected /v1/auth/verify'', mt_auth_verify_failed_total m),
      (''fetchit_relay_throttles_per_recipient_total'',
       ''Throttles emitted because recipient queue was full'', mt_throttles_per_recipient_total m),
      (''fetchit_relay_throttles_per_sender_total'',
       ''Throttles emitted because sender hit rate limit'', mt_throttles_per_sender_total m),
      (''fetchit_relay_throttles_envelope_too_large_total'',
       ''Throttles emitted because envelope exceeded size cap'', mt_throttles_envelope_too_large_total m),
      (''fetchit_relay_envelopes_accepted_legacy_v2_total'',
       ''Send-frame envelopes accepted at the wire-version gate with version=2 '' @ em_dash
         @ '' the M2 transition burn-down signal'', mt_envelopes_accepted_legacy_v2_total m),
      (''fetchit_relay_envelopes_dropped_version_gate_total'',
       ''Send-frame envelopes dropped because envelope.version fell outside the accepted set'',
       mt_envelopes_dropped_version_gate_total m)]"

definition newline :: string where "newline = [CHR 0x0A]"

definition show_i64 :: "64 word \<Rightarrow> string" where
  "show_i64 w = (if sint w < 0 then ''-'' @ show_nat (nat (- sint w)) else show_nat (nat (sint w)))"

definition quoted :: "string \<Rightarrow> string" where
  "quoted s = [CHR 0x22] @ s @ [CHR 0x22]"

definition series :: "string \<Rightarrow> string \<Rightarrow> string \<Rightarrow> string \<Rightarrow> string \<Rightarrow> string" where
  "series labels kind name help value =
     ''# HELP '' @ name @ '' '' @ help @ newline @
     ''# TYPE '' @ name @ '' '' @ kind @ newline @
     name @ ''{'' @ labels @ ''} '' @ value @ newline"

definition render_prometheus :: "nat \<Rightarrow> metrics \<Rightarrow> string" where
  "render_prometheus now m =
     (let labels = ''region='' @ quoted (region_tag (mt_region m)) @ '',version='' @ quoted (mt_version m);
          uptime = (now - mt_started_at m) div 10 ^ 9
      in series labels ''gauge'' ''fetchit_relay_uptime_seconds'' ''Seconds since process start'' (show_nat uptime)
         @ series labels ''gauge'' ''fetchit_relay_connections_active'' ''Currently-connected agent count''
             (show_i64 (mt_connections_active m))
         @ series labels ''gauge'' ''fetchit_relay_transit_buffer_envelopes'' ''Envelopes currently in transit buffer''
             (show_i64 (mt_transit_buffer_envelopes m))
         @ concat (map (\<lambda>(name, help, value). series labels ''counter'' name help (show_nat (unat value)))
             (counter_snapshot m)))"

end
