(* ===== verification/Relay_Server.thy ===== *)
theory Relay_Server
  imports Relay_Index Relay_Group_Log Relay_Session Relay_Metrics
begin

text \<open>
  The relay as a whole (\<^verbatim>\<open>fetchit-relay-server/src/ws.rs\<close> and \<^verbatim>\<open>server.rs\<close>): the shared state, the
  WebSocket upgrade, the opening and closing of a session, the handler of every client frame, the
  authentication endpoints and the sweeper. It composes the components of the other
  theories the way the code does. What the handlers call and the repository does not contain is
  collected in an \<open>env\<close>; a handler that reads the wall clock several times takes the successive
  readings as a function \<open>clk\<close>.
\<close>

subsection \<open>State\<close>

definition ws_outbound_capacity :: nat where "ws_outbound_capacity = 512"
definition log_records_chunk :: nat where "log_records_chunk = 64"
definition replay_batch_max :: nat where "replay_batch_max = 256"
definition max_ack_ids_per_frame :: nat where "max_ack_ids_per_frame = 1024"
definition ws_ping_interval :: nat where "ws_ping_interval = 30000"
definition ws_pong_timeout :: nat where "ws_pong_timeout = 105000"

record server_config =
  cf_region :: region
  cf_server_version :: string
  cf_max_envelope_bytes :: nat
  cf_transit_ttl_ms :: nat
  cf_transit_per_recipient :: nat
  cf_transit_total_bytes_cap :: nat
  cf_group_log_window_ms :: nat
  cf_group_log_per_group_cap :: nat
  cf_group_log_total_bytes_cap :: nat
  cf_challenge_ttl :: nat
  cf_bearer_ttl :: nat
  cf_profile_ttl_ms :: nat
  cf_pair_record_ttl_ms :: nat
  cf_issuer_keys :: "(string, bytes) hmap"

definition config_defaults :: "string \<Rightarrow> region \<Rightarrow> server_config" where
  "config_defaults version reg =
     \<lparr> cf_region = reg, cf_server_version = version, cf_max_envelope_bytes = default_max_envelope_bytes,
       cf_transit_ttl_ms = 72 * 60 * 60 * 1000, cf_transit_per_recipient = 256, cf_transit_total_bytes_cap = 2 ^ 30,
       cf_group_log_window_ms = 30 * 24 * 60 * 60 * 1000, cf_group_log_per_group_cap = 4096,
       cf_group_log_total_bytes_cap = 2 ^ 30, cf_challenge_ttl = 60 * 10 ^ 9, cf_bearer_ttl = 15 * 60 * 10 ^ 9,
       cf_profile_ttl_ms = 30 * 24 * 60 * 60 * 1000, cf_pair_record_ttl_ms = 30 * 24 * 60 * 60 * 1000,
       cf_issuer_keys = hm_empty \<rparr>"

record server_state =
  ss_config :: server_config
  ss_auth :: auth_service
  ss_transit :: transit_buffer
  ss_group_log :: ram_group_log
  ss_sessions :: session_registry
  ss_ratelimit :: rate_limiter
  ss_metrics :: metrics
  ss_profiles :: profile_index
  ss_pair_records :: pair_record_index
  ss_blobs :: blob_store
  ss_forwarding :: forwarding_index
  ss_out :: outbound

definition server_new :: "nat \<Rightarrow> server_config \<Rightarrow> server_state" where
  "server_new now cf =
     \<lparr> ss_config = cf, ss_auth = auth_new (cf_challenge_ttl cf) (cf_bearer_ttl cf),
       ss_transit = tb_new (cf_transit_ttl_ms cf) (cf_transit_per_recipient cf) (cf_transit_total_bytes_cap cf),
       ss_group_log = gl_new (cf_group_log_window_ms cf) (cf_group_log_per_group_cap cf) (cf_group_log_total_bytes_cap cf),
       ss_sessions = registry_new, ss_ratelimit = hm_empty,
       ss_metrics = metrics_new now (cf_region cf) (cf_server_version cf),
       ss_profiles = hm_empty, ss_pair_records = pairs_new, ss_blobs = hm_empty, ss_forwarding = hm_empty,
       ss_out = [] \<rparr>"

text \<open>
  The external code: the postcard length of an envelope and the postcard bytes of claims, the hex
  encoder, the signature verifier, the hash, the token encoder, the rounding of the floating-point
  unit, and the channels.
\<close>

record env =
  ev_encoded_len :: "transit_envelope \<Rightarrow> nat option"
  ev_claims_bytes :: "capability_claims \<Rightarrow> string + bytes"
  ev_hex_encode :: "bytes \<Rightarrow> utf8"
  ev_verify :: verifier
  ev_sha256 :: "bytes \<Rightarrow> bytes"
  ev_b64url :: "bytes \<Rightarrow> string"
  ev_rnd :: "rat \<Rightarrow> rat"
  ev_accepts :: accepts

definition bump :: "(metrics \<Rightarrow> metrics) \<Rightarrow> server_state \<Rightarrow> server_state" where
  "bump f s = s\<lparr> ss_metrics := f (ss_metrics s) \<rparr>"

definition reply :: "env \<Rightarrow> chan \<Rightarrow> server_frame \<Rightarrow> server_state \<Rightarrow> server_state" where
  "reply E tx f s = s\<lparr> ss_out := snd (try_send (ev_accepts E) tx f (ss_out s)) \<rparr>"

definition throttle_reply :: "env \<Rightarrow> chan \<Rightarrow> nat \<Rightarrow> throttle_reason \<Rightarrow> server_state \<Rightarrow> server_state" where
  "throttle_reply E tx ms why = reply E tx (S_Throttle \<lparr> th_retry_after_ms = ms, th_reason = why \<rparr>)"

subsection \<open>Deposits\<close>

definition handle_send :: "env \<Rightarrow> relay_id \<Rightarrow> effective_capabilities \<Rightarrow> chan \<Rightarrow> nat \<Rightarrow> (nat \<Rightarrow> nat) \<Rightarrow> send_frame
    \<Rightarrow> server_state \<Rightarrow> server_state" where
  "handle_send E agent caps self_tx now clk send s =
     (let to = sf_to send; envelope = sf_envelope send; dedupe_key = sf_dedupe_key send;
          encoded = (case ev_encoded_len E envelope of Some n \<Rightarrow> n | None \<Rightarrow> u64_max)
      in if encoded > max_envelope_bytes caps
         then throttle_reply E self_tx 0 EnvelopeTooLarge (bump throttle_envelope_too_large s)
         else
           (let (ok, rl) = allow (ev_rnd E) now agent (max_envelopes_per_min caps) (ss_ratelimit s);
                s = s\<lparr> ss_ratelimit := rl \<rparr>
            in if \<not> ok then throttle_reply E self_tx 1000 PerSenderRate (bump throttle_per_sender s)
               else if e_sender_agent_id envelope \<noteq> agent then s
               else if e_version envelope \<noteq> 2 \<and> e_version envelope \<noteq> 3 then bump envelope_dropped_version_gate s
               else
                 (let s = (if e_version envelope = 2 then bump envelope_accepted_legacy_v2 s else s)
                  in if \<not> is_online (ss_sessions s) to \<and>
                        get_live_unsuperseded (ss_forwarding s) (ss_pair_records s) (ev_hex_encode E to) (clk 0) \<noteq> None
                     then reply E self_tx (S_Moved \<lparr> mv_dedupe_key = dedupe_key \<rparr>) (bump envelope_moved s)
                     else
                       (case enqueue (clk 1) to envelope (ss_transit s) of
                          (Inl _, tb) \<Rightarrow>
                            throttle_reply E self_tx 5000 PerRecipientCapacity
                              (bump throttle_per_recipient (s\<lparr> ss_transit := tb \<rparr>))
                        | (Inr transit_seq, tb) \<Rightarrow>
                            (let s = s\<lparr> ss_transit := tb \<rparr>;
                                 (pushed, out) = session_send (ev_accepts E) to
                                   (S_Deliver \<lparr> dl_envelope = envelope, dl_transit_seq = transit_seq,
                                                dl_delivered_at_ms = clk 2 \<rparr>) (ss_sessions s) (ss_out s);
                                 s = s\<lparr> ss_out := out \<rparr>;
                                 s = bump (if pushed then envelope_pushed else envelope_buffered) s;
                                 s = bump envelope_sent s
                             in reply E self_tx (S_Ack \<lparr> ak_dedupe_key = dedupe_key, ak_accepted_at_ms = clk 3 \<rparr>) s)))))"

subsection \<open>The group log\<close>

definition handle_log_append :: "env \<Rightarrow> relay_id \<Rightarrow> effective_capabilities \<Rightarrow> chan \<Rightarrow> nat \<Rightarrow> (nat \<Rightarrow> nat) \<Rightarrow> log_append
    \<Rightarrow> server_state \<Rightarrow> server_state" where
  "handle_log_append E agent caps self_tx now clk app s =
     (if length (la_payload app) > max_envelope_bytes caps
      then throttle_reply E self_tx 0 EnvelopeTooLarge (bump throttle_envelope_too_large s)
      else
        (let (ok, rl) = allow (ev_rnd E) now agent (max_envelopes_per_min caps) (ss_ratelimit s);
             s = s\<lparr> ss_ratelimit := rl \<rparr>
         in if \<not> ok then throttle_reply E self_tx 1000 PerSenderRate (bump throttle_per_sender s)
            else
              (case append_record (clk 0) (la_group_id app) (la_kind app) (la_recipient app) (la_payload app) agent
                      (ss_group_log s) of
                 (Inl _, gl) \<Rightarrow>
                   throttle_reply E self_tx 5000 PerRecipientCapacity
                     (bump throttle_per_recipient (s\<lparr> ss_group_log := gl \<rparr>))
               | (Inr _, gl) \<Rightarrow> s\<lparr> ss_group_log := gl \<rparr>)))"

definition wire_record :: "stored_log_record \<Rightarrow> log_record_wire" where
  "wire_record r = \<lparr> lw_seq = sl_seq r, lw_kind = sl_kind r, lw_recipient = sl_recipient r,
     lw_payload = sl_payload r, lw_author = sl_author r, lw_inserted_at_ms = sl_inserted_at_ms r \<rparr>"

function send_log_records :: "accepts \<Rightarrow> chan \<Rightarrow> group_key \<Rightarrow> log_record_wire list \<Rightarrow> outbound \<Rightarrow> outbound" where
  "send_log_records A tx g remaining out =
     (let tl = (if length remaining > log_records_chunk then drop log_records_chunk remaining else []);
          chunk = (if length remaining > log_records_chunk then take log_records_chunk remaining else remaining);
          fin = (tl = []);
          (ok, out') = try_send A tx (S_LogRecords \<lparr> lr_group_id = g, lr_records = chunk, lr_done = fin \<rparr>) out
      in if \<not> ok \<or> fin then out' else send_log_records A tx g tl out')"
  by pat_completeness auto
termination
  by (relation "measure (\<lambda>(_, _, _, remaining, _). length remaining)")
     (auto simp: log_records_chunk_def split: if_splits)

declare send_log_records.simps [simp del]

definition handle_log_fetch :: "env \<Rightarrow> relay_id \<Rightarrow> chan \<Rightarrow> log_fetch \<Rightarrow> server_state \<Rightarrow> server_state" where
  "handle_log_fetch E agent self_tx fetch s =
     (let records = map wire_record (filter (\<lambda>r. sl_recipient r = None \<or> sl_recipient r = Some agent)
            (fetch_since (ss_group_log s) (lf_group_id fetch) (lf_since_seq fetch)))
      in s\<lparr> ss_out := send_log_records (ev_accepts E) self_tx (lf_group_id fetch) records (ss_out s) \<rparr>)"

subsection \<open>Every client frame\<close>

definition handle_client_frame :: "env \<Rightarrow> relay_id \<Rightarrow> effective_capabilities \<Rightarrow> chan \<Rightarrow> session_id \<Rightarrow> nat \<Rightarrow> (nat \<Rightarrow> nat)
    \<Rightarrow> client_frame \<Rightarrow> server_state \<Rightarrow> bool \<times> server_state" where
  "handle_client_frame E agent caps self_tx sid now clk frame s =
     (case frame of
        C_Hello _ \<Rightarrow> (True, s)
      | C_Subscribe _ \<Rightarrow> (True, s)
      | C_LogAppend app \<Rightarrow> (True, handle_log_append E agent caps self_tx now clk app s)
      | C_LogFetch fetch \<Rightarrow> (True, handle_log_fetch E agent self_tx fetch s)
      | C_Ping p \<Rightarrow>
          (let (ok, out) = try_send (ev_accepts E) self_tx (S_Pong \<lparr> po_nonce = pi_nonce p \<rparr>) (ss_out s)
           in (ok, s\<lparr> ss_out := out \<rparr>))
      | C_Bye _ \<Rightarrow> (False, s)
      | C_WatchPresence w \<Rightarrow>
          (let (r, out) = (if wp_add w \<noteq> []
                 then add_watches (ev_accepts E) sid self_tx (wp_add w) (ss_sessions s, ss_out s)
                 else (ss_sessions s, ss_out s));
               r = (if wp_remove w \<noteq> [] then remove_watches sid (wp_remove w) r else r)
           in (True, s\<lparr> ss_sessions := r, ss_out := out \<rparr>))
      | C_TransitAck a \<Rightarrow>
          (let (reclaimed, tb) = transit_delete agent (take max_ack_ids_per_frame (ta_acked_ids a)) (ss_transit s)
           in (True, bump (envelopes_delivered reclaimed) (s\<lparr> ss_transit := tb \<rparr>)))
      | C_Send send \<Rightarrow> (True, handle_send E agent caps self_tx now clk send s))"

subsection \<open>Sessions\<close>

fun replay_transit :: "accepts \<Rightarrow> chan \<Rightarrow> nat \<Rightarrow> stored_entry list \<Rightarrow> outbound \<Rightarrow> nat \<times> outbound" where
  "replay_transit A tx delivered_at_ms [] out = (0, out)"
| "replay_transit A tx delivered_at_ms (e # es) out =
     (let (ok, out') = try_send A tx (S_Deliver \<lparr> dl_envelope = se_envelope e, dl_transit_seq = se_id e,
                                                dl_delivered_at_ms = delivered_at_ms \<rparr>) out
      in if \<not> ok then (0, out')
         else (let (n, out'') = replay_transit A tx delivered_at_ms es out' in (n + 1, out'')))"

text \<open>
  The part of \<^verbatim>\<open>handle_socket\<close> before the loop: the first frame, the resolution of the
  capabilities, the greeting (which the socket may refuse), the registration and the replay.
\<close>

definition open_session :: "env \<Rightarrow> (ready \<Rightarrow> bool) \<Rightarrow> auth_token_state \<Rightarrow> hello option \<Rightarrow> chan \<Rightarrow> (nat \<Rightarrow> nat)
    \<Rightarrow> server_state \<Rightarrow> (session_id \<times> effective_capabilities) option \<times> server_state" where
  "open_session E greet auth greeting tx clk s =
     (case greeting of
        None \<Rightarrow> (None, s)
      | Some h \<Rightarrow>
          (case resolve (cf_issuer_keys (ss_config s)) (ev_claims_bytes E) (ev_verify E) (clk 0)
                  (hl_capabilities h) (at_agent_id auth) (cf_region (ss_config s)) of
             Inl _ \<Rightarrow> (None, s)
           | Inr caps \<Rightarrow>
               if \<not> greet \<lparr> rd_server_version = cf_server_version (ss_config s), rd_region = cf_region (ss_config s),
                            rd_effective_capabilities = caps \<rparr>
               then (None, s)
               else
                 (let (sid, r, out) = register (ev_accepts E) (at_agent_id auth) tx (ss_sessions s, ss_out s);
                      s = bump connection_opened (s\<lparr> ss_sessions := r, ss_out := out \<rparr>);
                      (delivered, out) = replay_transit (ev_accepts E) tx (clk 1)
                        (take replay_batch_max (read_all (ss_transit s) (at_agent_id auth))) (ss_out s);
                      s = bump (envelope_pushed ^^ delivered) (s\<lparr> ss_out := out \<rparr>)
                  in (Some (sid, caps), s))))"

definition close_session :: "env \<Rightarrow> relay_id \<Rightarrow> session_id \<Rightarrow> server_state \<Rightarrow> server_state" where
  "close_session E agent sid s =
     (let r = drop_all_watches sid (ss_sessions s);
          (r, out) = unregister (ev_accepts E) agent sid (r, ss_out s)
      in bump connection_closed (s\<lparr> ss_sessions := r, ss_out := out \<rparr>))"

end
