(* ===== verification/Relay_World.thy ===== *)
theory Relay_World
  imports Relay_Server
begin

text \<open>
  The relay with its connections: the WebSocket upgrade and the per-connection loop of \<^verbatim>\<open>ws.rs\<close>,
  the authentication endpoints and the sweeper of \<^verbatim>\<open>server.rs\<close>, and one step function over
  every event the process reacts to. A connection task is an entry of the connection table;
  the interleaving of the tasks is the order of the events.
\<close>

subsection \<open>The upgrade\<close>

definition eq_ignore_ascii_case :: "utf8 \<Rightarrow> utf8 \<Rightarrow> bool" where
  "eq_ignore_ascii_case a b \<longleftrightarrow> to_ascii_lowercase a = to_ascii_lowercase b"

definition ascii_space :: "8 word \<Rightarrow> bool" where
  "ascii_space b \<longleftrightarrow> b = 0x20 \<or> (0x09 \<le> b \<and> b \<le> 0x0D)"

definition trim :: "utf8 \<Rightarrow> utf8" where
  "trim s = rev (dropWhile ascii_space (rev (dropWhile ascii_space s)))"

definition split_once :: "8 word \<Rightarrow> utf8 \<Rightarrow> (utf8 \<times> utf8) option" where
  "split_once c s =
     (if c \<in> set s then Some (takeWhile (\<lambda>b. b \<noteq> c) s, tl (dropWhile (\<lambda>b. b \<noteq> c) s)) else None)"

definition bearer_from_headers :: "utf8 option \<Rightarrow> utf8 option" where
  "bearer_from_headers authorization =
     (case authorization of
        None \<Rightarrow> None
      | Some raw \<Rightarrow>
          (case split_once 0x20 raw of
             None \<Rightarrow> None
           | Some (scheme, token) \<Rightarrow>
               if \<not> eq_ignore_ascii_case scheme (ascii ''bearer'') then None
               else if trim token = [] then None else Some (trim token)))"

text \<open>Tokens are keyed by their text; \<open>as_text\<close> reads header bytes as a string.\<close>

definition as_text :: "utf8 \<Rightarrow> string" where
  "as_text bs = map (\<lambda>b. char_of (unat b)) bs"

definition ws_handler :: "nat \<Rightarrow> utf8 option \<Rightarrow> utf8 option \<Rightarrow> server_state \<Rightarrow> auth_token_state option \<times> server_state" where
  "ws_handler now authorization query_token s =
     (case (case bearer_from_headers authorization of Some t \<Rightarrow> Some t | None \<Rightarrow> query_token) of
        None \<Rightarrow> (None, s)
      | Some token \<Rightarrow>
          (let (auth, a) = validate_bearer now (as_text token) (ss_auth s) in (auth, s\<lparr> ss_auth := a \<rparr>)))"

subsection \<open>The connection loop\<close>

datatype ws_message = WsBinary bytes | WsClose | WsPong | WsOther

datatype loop_exit = ClientClosed | ProtocolEnd | WriterDied

record pong_clock =
  pc_origin :: nat
  pc_last_pong_ms :: nat

definition pong_clock_new :: "nat \<Rightarrow> pong_clock" where
  "pong_clock_new now = \<lparr> pc_origin = now, pc_last_pong_ms = 0 \<rparr>"

definition record_pong :: "nat \<Rightarrow> pong_clock \<Rightarrow> pong_clock" where
  "record_pong now c = c\<lparr> pc_last_pong_ms := min (now - pc_origin c) u64_max \<rparr>"

definition since_last_pong :: "nat \<Rightarrow> pong_clock \<Rightarrow> nat" where
  "since_last_pong now c = (now - pc_origin c) - pc_last_pong_ms c"

fun await_hello_inner :: "(bytes \<Rightarrow> client_frame option) \<Rightarrow> ws_message option list \<Rightarrow> hello option" where
  "await_hello_inner from_bytes [] = None"
| "await_hello_inner from_bytes (None # ms) = None"
| "await_hello_inner from_bytes (Some (WsBinary b) # ms) =
     (case from_bytes b of Some (C_Hello h) \<Rightarrow> Some h | _ \<Rightarrow> None)"
| "await_hello_inner from_bytes (Some _ # ms) = await_hello_inner from_bytes ms"

record connection =
  cn_agent :: relay_id
  cn_caps :: effective_capabilities
  cn_tx :: chan
  cn_pong :: pong_clock

definition run_io_step :: "env \<Rightarrow> (bytes \<Rightarrow> client_frame option) \<Rightarrow> session_id \<Rightarrow> nat \<Rightarrow> nat \<Rightarrow> (nat \<Rightarrow> nat)
    \<Rightarrow> ws_message option \<Rightarrow> connection \<Rightarrow> server_state \<Rightarrow> loop_exit option \<times> connection \<times> server_state" where
  "run_io_step E from_bytes sid now ms clk msg c s =
     (case msg of
        None \<Rightarrow> (Some ClientClosed, c, s)
      | Some WsClose \<Rightarrow> (Some ClientClosed, c, s)
      | Some WsPong \<Rightarrow> (None, c\<lparr> cn_pong := record_pong ms (cn_pong c) \<rparr>, s)
      | Some WsOther \<Rightarrow> (None, c, s)
      | Some (WsBinary b) \<Rightarrow>
          (case from_bytes b of
             None \<Rightarrow> (None, c, s)
           | Some frame \<Rightarrow>
               (let (go_on, s) = handle_client_frame E (cn_agent c) (cn_caps c) (cn_tx c) sid now clk frame s
                in (if go_on then None else Some ProtocolEnd, c, s))))"

definition writer_tick :: "nat \<Rightarrow> connection \<Rightarrow> loop_exit option" where
  "writer_tick ms c = (if since_last_pong ms (cn_pong c) > ws_pong_timeout then Some WriterDied else None)"

subsection \<open>Endpoints and the sweeper\<close>

definition auth_challenge_endpoint :: "bytes \<Rightarrow> nat \<Rightarrow> nat \<Rightarrow> server_state \<Rightarrow> auth_challenge \<times> server_state" where
  "auth_challenge_endpoint bs now unix s =
     (let s = bump auth_challenge_issued s;
          (ch, a) = issue_challenge bs now unix (ss_auth s)
      in (ch, s\<lparr> ss_auth := a \<rparr>))"

definition auth_verify_endpoint :: "env \<Rightarrow> nat \<Rightarrow> nat \<Rightarrow> bytes \<Rightarrow> auth_verify_request \<Rightarrow> server_state
    \<Rightarrow> (nat \<times> string + auth_verify_response) \<times> server_state" where
  "auth_verify_endpoint E now unix rnd req s =
     (case auth_verify_req (ev_sha256 E) (ev_verify E) (ev_b64url E) now unix rnd req (ss_auth s) of
        (Inr resp, a) \<Rightarrow> (Inr resp, bump auth_verify_ok (s\<lparr> ss_auth := a \<rparr>))
      | (Inl _, a) \<Rightarrow> (Inl (401, ''authentication failed''), bump auth_verify_failed (s\<lparr> ss_auth := a \<rparr>)))"

definition i64_max :: int where "i64_max = 2 ^ 63 - 1"

text \<open>One round of the sweeper; \<open>clk\<close> gives its readings of the wall clock in order.\<close>

definition sweeper_tick :: "nat \<Rightarrow> (nat \<Rightarrow> nat) \<Rightarrow> server_state \<Rightarrow> server_state" where
  "sweeper_tick now clk s =
     (let (evicted, tb) = transit_sweep_expired (clk 0) (ss_transit s);
          s = s\<lparr> ss_transit := tb \<rparr>;
          s = s\<lparr> ss_group_log := snd (log_sweep_expired (clk 1) (ss_group_log s)) \<rparr>;
          s = s\<lparr> ss_auth := snd (auth_sweep_expired now (ss_auth s)) \<rparr>;
          s = s\<lparr> ss_ratelimit := sweep_idle now (3600 * 10 ^ 9) (ss_ratelimit s) \<rparr>;
          s = s\<lparr> ss_forwarding := snd (fw_sweep_expired (clk 2) (ss_forwarding s)) \<rparr>;
          s = s\<lparr> ss_blobs := snd (blob_sweep_expired (clk 3) (ss_blobs s)) \<rparr>;
          s = s\<lparr> ss_profiles := snd (profile_sweep_expired (clk 4) (cf_profile_ttl_ms (ss_config s)) (ss_profiles s)) \<rparr>;
          s = s\<lparr> ss_pair_records := snd (pairs_sweep_expired (clk 4) (cf_pair_record_ttl_ms (ss_config s)) (ss_pair_records s)) \<rparr>;
          buffered = min (int (transit_len (ss_transit s))) i64_max
      in bump (envelopes_dropped_ttl evicted) (bump (set_transit_buffer_envelopes buffered) s))"

record health =
  he_ok :: bool
  he_version :: string
  he_region :: region
  he_connections :: nat

definition health_endpoint :: "server_state \<Rightarrow> health" where
  "health_endpoint s = \<lparr> he_ok = True, he_version = cf_server_version (ss_config s),
     he_region = cf_region (ss_config s), he_connections = connection_count (ss_sessions s) \<rparr>"

subsection \<open>The world\<close>

record world =
  w_state :: server_state
  w_conns :: "(session_id, connection) hmap"

datatype world_op =
    W_Upgrade nat nat "utf8 option" "utf8 option" "ws_message option list" chan "nat \<Rightarrow> nat" "ready \<Rightarrow> bool"
  | W_Receive session_id nat nat "nat \<Rightarrow> nat" "ws_message option"
  | W_PingTick session_id nat
  | W_WriterExit session_id
  | W_Sweep nat "nat \<Rightarrow> nat"
  | W_Challenge bytes nat nat
  | W_Verify nat nat bytes auth_verify_request
  | W_Index index_op

definition end_session :: "env \<Rightarrow> session_id \<Rightarrow> world \<Rightarrow> world" where
  "end_session E sid w =
     (case hm_get (w_conns w) sid of
        None \<Rightarrow> w
      | Some c \<Rightarrow> \<lparr> w_state = close_session E (cn_agent c) sid (w_state w), w_conns = hm_remove sid (w_conns w) \<rparr>)"

fun world_step :: "env \<Rightarrow> ('pk, 'sig) backend \<Rightarrow> json_parsers \<Rightarrow> (bytes \<Rightarrow> client_frame option) \<Rightarrow> world \<Rightarrow> world_op \<Rightarrow> world" where
  "world_step E B J dec w (W_Upgrade now ms hdr query msgs tx clk greet) =
     (case ws_handler now hdr query (w_state w) of
        (None, s) \<Rightarrow> w\<lparr> w_state := s \<rparr>
      | (Some auth, s) \<Rightarrow>
          (case open_session E greet auth (await_hello_inner dec msgs) tx clk s of
             (None, s) \<Rightarrow> w\<lparr> w_state := s \<rparr>
           | (Some (sid, caps), s) \<Rightarrow>
               w\<lparr> w_state := s,
                  w_conns := hm_insert sid \<lparr> cn_agent = at_agent_id auth, cn_caps = caps, cn_tx = tx,
                                             cn_pong = pong_clock_new ms \<rparr> (w_conns w) \<rparr>))"
| "world_step E B J dec w (W_Receive sid now ms clk msg) =
     (case hm_get (w_conns w) sid of
        None \<Rightarrow> w
      | Some c \<Rightarrow>
          (case run_io_step E dec sid now ms clk msg c (w_state w) of
             (None, c, s) \<Rightarrow> w\<lparr> w_state := s, w_conns := hm_insert sid c (w_conns w) \<rparr>
           | (Some _, c, s) \<Rightarrow> end_session E sid (w\<lparr> w_state := s \<rparr>)))"
| "world_step E B J dec w (W_PingTick sid ms) =
     (case hm_get (w_conns w) sid of
        None \<Rightarrow> w
      | Some c \<Rightarrow> if writer_tick ms c = None then w else end_session E sid w)"
| "world_step E B J dec w (W_WriterExit sid) = end_session E sid w"
| "world_step E B J dec w (W_Sweep now clk) = w\<lparr> w_state := sweeper_tick now clk (w_state w) \<rparr>"
| "world_step E B J dec w (W_Challenge bs now unix) =
     w\<lparr> w_state := snd (auth_challenge_endpoint bs now unix (w_state w)) \<rparr>"
| "world_step E B J dec w (W_Verify now unix rnd req) =
     w\<lparr> w_state := snd (auth_verify_endpoint E now unix rnd req (w_state w)) \<rparr>"
| "world_step E B J dec w (W_Index op) =
     (let s = w_state w;
          (rl, ps, fs) = index_step B J (ev_rnd E) (ss_ratelimit s, ss_pair_records s, ss_forwarding s) op
      in w\<lparr> w_state := s\<lparr> ss_ratelimit := rl, ss_pair_records := ps, ss_forwarding := fs \<rparr> \<rparr>)"

definition world_new :: "nat \<Rightarrow> server_config \<Rightarrow> world" where
  "world_new now cf = \<lparr> w_state = server_new now cf, w_conns = hm_empty \<rparr>"

abbreviation world_run :: "env \<Rightarrow> ('pk, 'sig) backend \<Rightarrow> json_parsers \<Rightarrow> (bytes \<Rightarrow> client_frame option) \<Rightarrow> world
    \<Rightarrow> world_op list \<Rightarrow> world" where
  "world_run E B J dec w ops \<equiv> foldl (world_step E B J dec) w ops"

end
