(* ===== verification/Relay_Demo.thy ===== *)
theory Relay_Demo
  imports Relay_World "HOL-Library.Code_Target_Nat" "HOL-Library.Code_Target_Int"
begin

text \<open>
  A concrete relay on which the end-to-end properties are evaluated: an environment, a decoder of
  a few frames, and the events of a client that logs in (challenge, verification, upgrade). The
  binary code equations for natural numbers let \<open>code_simp\<close> run the whole server at its real limits.
\<close>

definition demo_env :: env where
  "demo_env = \<lparr> ev_encoded_len = (\<lambda>e. Some (envelope_size e)), ev_claims_bytes = (\<lambda>_. Inr []), ev_hex_encode = id,
     ev_verify = (\<lambda>_ _ _. True), ev_sha256 = (\<lambda>bs. [last bs]), ev_b64url = as_text, ev_rnd = id,
     ev_accepts = (\<lambda>_ _ _. True) \<rparr>"

definition demo_send :: send_frame where
  "demo_send = \<lparr> sf_to = [2], sf_envelope = demo_envelope, sf_dedupe_key = [5] \<rparr>"

definition demo_decode :: "bytes \<Rightarrow> client_frame option" where
  "demo_decode b =
     (if b = [0] then Some (C_Hello \<lparr> hl_client_version = [], hl_tenant_id = None, hl_preferred_region = None, hl_capabilities = None \<rparr>)
      else if b = [1] then Some (C_Send demo_send)
      else if b = [2] then Some (C_TransitAck \<lparr> ta_acked_ids = [1] \<rparr>)
      else None)"

definition demo_login :: "8 word \<Rightarrow> chan \<Rightarrow> world_op list" where
  "demo_login a tx =
     [W_Challenge [a] 0 0,
      W_Verify 1 0 [a] \<lparr> vr_agent_id = [a], vr_agent_public_key = [a], vr_challenge = [a], vr_signature = [] \<rparr>,
      W_Upgrade 2 0 None (Some [a]) [Some (WsBinary [0])] tx (\<lambda>_. 5) (\<lambda>_. True)]"

definition demo_run :: "world_op list \<Rightarrow> world" where
  "demo_run ops = world_run demo_env open_backend demo_parsers demo_decode (world_new 0 (config_defaults [] Nyc)) ops"

definition demo_receive :: "session_id \<Rightarrow> bytes \<Rightarrow> world_op" where
  "demo_receive sid b = W_Receive sid 3 0 (\<lambda>n. 7) (Some (WsBinary b))"

end
