(* ===== verification/Relay_Deposit.thy ===== *)
theory Relay_Deposit
  imports Relay_Demo
begin

text \<open>
  What a deposit does (\<^verbatim>\<open>handle_send\<close> of \<^verbatim>\<open>ws.rs\<close>): the guards in order, the answer on each of
  them, and the effect on the transit buffer and on the counters.
\<close>

subsection \<open>Frames, counters and fields\<close>

text \<open>The three counters that the life of an envelope moves.\<close>

definition ledger :: "server_state \<Rightarrow> 64 word \<times> 64 word \<times> 64 word" where
  "ledger s = (mt_envelopes_sent_total (ss_metrics s), mt_envelopes_delivered_total (ss_metrics s),
     mt_envelopes_dropped_ttl_total (ss_metrics s))"

lemmas server_simps = bump_def reply_def throttle_reply_def ledger_def metric_defs

lemma reply_fields [simp]:
  "ss_transit (reply E tx f s) = ss_transit s" "ss_sessions (reply E tx f s) = ss_sessions s"
  "ss_metrics (reply E tx f s) = ss_metrics s" "ledger (reply E tx f s) = ledger s"
  "ss_transit (throttle_reply E tx n why s) = ss_transit s" "ss_sessions (throttle_reply E tx n why s) = ss_sessions s"
  "ss_metrics (throttle_reply E tx n why s) = ss_metrics s" "ledger (throttle_reply E tx n why s) = ledger s"
  by (simp_all add: server_simps)

lemma bump_fields [simp]:
  "ss_transit (bump f s) = ss_transit s" "ss_sessions (bump f s) = ss_sessions s"
  "ss_out (bump f s) = ss_out s" "ss_metrics (bump f s) = f (ss_metrics s)"
  by (simp_all add: bump_def)

subsection \<open>The outcomes of a deposit\<close>

text \<open>The eight outcomes of a deposit, with the guards that lead to each.\<close>

definition oversized :: "env \<Rightarrow> effective_capabilities \<Rightarrow> send_frame \<Rightarrow> bool" where
  "oversized E caps f \<longleftrightarrow>
     (case ev_encoded_len E (sf_envelope f) of Some n \<Rightarrow> n | None \<Rightarrow> u64_max) > max_envelope_bytes caps"

definition rated :: "env \<Rightarrow> relay_id \<Rightarrow> effective_capabilities \<Rightarrow> nat \<Rightarrow> server_state \<Rightarrow> bool \<times> server_state" where
  "rated E agent caps now s =
     (let (ok, rl) = allow (ev_rnd E) now agent (max_envelopes_per_min caps) (ss_ratelimit s)
      in (ok, s\<lparr> ss_ratelimit := rl \<rparr>))"

definition legacy :: "send_frame \<Rightarrow> server_state \<Rightarrow> server_state" where
  "legacy f s = (if e_version (sf_envelope f) = 2 then bump envelope_accepted_legacy_v2 s else s)"

definition moved_away :: "env \<Rightarrow> nat \<Rightarrow> relay_id \<Rightarrow> server_state \<Rightarrow> bool" where
  "moved_away E t to s \<longleftrightarrow> \<not> is_online (ss_sessions s) to \<and>
     get_live_unsuperseded (ss_forwarding s) (ss_pair_records s) (ev_hex_encode E to) t \<noteq> None"

definition stored_and_pushed :: "env \<Rightarrow> chan \<Rightarrow> (nat \<Rightarrow> nat) \<Rightarrow> send_frame \<Rightarrow> nat \<Rightarrow> transit_buffer \<Rightarrow> server_state \<Rightarrow> server_state" where
  "stored_and_pushed E tx clk f i tb s =
     (let (pushed, out) = session_send (ev_accepts E) (sf_to f)
            (S_Deliver \<lparr> dl_envelope = sf_envelope f, dl_transit_seq = i, dl_delivered_at_ms = clk 2 \<rparr>)
            (ss_sessions s) (ss_out s)
      in reply E tx (S_Ack \<lparr> ak_dedupe_key = sf_dedupe_key f, ak_accepted_at_ms = clk 3 \<rparr>)
           (bump envelope_sent (bump (if pushed then envelope_pushed else envelope_buffered)
             (s\<lparr> ss_transit := tb, ss_out := out \<rparr>))))"

lemma handle_send_unfold:
  "handle_send E agent caps tx now clk f s =
     (if oversized E caps f then throttle_reply E tx 0 EnvelopeTooLarge (bump throttle_envelope_too_large s)
      else let (ok, s) = rated E agent caps now s in
      if \<not> ok then throttle_reply E tx 1000 PerSenderRate (bump throttle_per_sender s)
      else if e_sender_agent_id (sf_envelope f) \<noteq> agent then s
      else if e_version (sf_envelope f) \<noteq> 2 \<and> e_version (sf_envelope f) \<noteq> 3 then bump envelope_dropped_version_gate s
      else let s = legacy f s in
      if moved_away E (clk 0) (sf_to f) s then reply E tx (S_Moved \<lparr> mv_dedupe_key = sf_dedupe_key f \<rparr>) (bump envelope_moved s)
      else (case enqueue (clk 1) (sf_to f) (sf_envelope f) (ss_transit s) of
          (Inl _, tb) \<Rightarrow> throttle_reply E tx 5000 PerRecipientCapacity (bump throttle_per_recipient (s\<lparr> ss_transit := tb \<rparr>))
        | (Inr i, tb) \<Rightarrow> stored_and_pushed E tx clk f i tb s))"
proof -
  obtain ok rl where rate: "allow (ev_rnd E) now agent (max_envelopes_per_min caps) (ss_ratelimit s) = (ok, rl)"
    by fastforce
  obtain res tb where enq: "enqueue (clk (Suc 0)) (sf_to f) (sf_envelope f) (ss_transit s) = (res, tb)" by fastforce
  show ?thesis
    unfolding handle_send_def Let_def oversized_def rated_def legacy_def moved_away_def stored_and_pushed_def rate
    by (cases res; cases "e_version (sf_envelope f) = 2") (simp_all add: enq)
qed

lemma rated_fields [simp]:
  "ss_transit (snd (rated E agent caps now s)) = ss_transit s" "ss_out (snd (rated E agent caps now s)) = ss_out s"
  "ss_sessions (snd (rated E agent caps now s)) = ss_sessions s"
  by (simp_all add: rated_def split: prod.split)

lemma legacy_fields [simp]: "ss_transit (legacy f s) = ss_transit s" "ss_out (legacy f s) = ss_out s" "ss_sessions (legacy f s) = ss_sessions s"
  by (simp_all add: legacy_def)

lemma reply_out: "ss_out (reply E tx fr s) = ss_out s @ (if ev_accepts E (ss_out s) tx fr then [(tx, fr)] else [])"
  by (simp add: reply_def try_send_def)

lemma session_send_out:
  "\<exists>d. snd (session_send A to fr r out) = out @ d \<and>
     (d = [] \<or> (\<exists>sid tx. hm_get (sr_by_agent r) to = Some (sid, tx) \<and> d = [(tx, fr)]))"
  by (auto simp: session_send_def try_send_def split: option.split)

text \<open>\<open>answered\<close>: after the frames \<open>d\<close>, the answer \<open>fr\<close> was offered to the channel \<open>tx\<close>.\<close>

definition answered :: "env \<Rightarrow> chan \<Rightarrow> outbound \<Rightarrow> server_frame \<Rightarrow> server_state \<Rightarrow> server_state \<Rightarrow> bool" where
  "answered E tx d fr s s' \<longleftrightarrow>
     (\<exists>out. ss_out s' = ss_out s @ d @ (if ev_accepts E out tx fr then [(tx, fr)] else []))"

lemma reply_answered: "ss_out s0 = ss_out s @ d \<Longrightarrow> answered E tx d fr s (reply E tx fr s0)"
  unfolding answered_def reply_out by (rule exI [of _ "ss_out s0"]) simp

text \<open>
  \<open>at_most_pushes\<close>: nothing was sent, or one delivery of the deposited envelope under its id, on the
  channel the recipient is bound to.
\<close>

definition at_most_pushes :: "session_registry \<Rightarrow> (nat \<Rightarrow> nat) \<Rightarrow> send_frame \<Rightarrow> nat \<Rightarrow> outbound \<Rightarrow> bool" where
  "at_most_pushes r clk f i d \<longleftrightarrow> d = [] \<or>
     (\<exists>sid tx. hm_get (sr_by_agent r) (sf_to f) = Some (sid, tx) \<and>
        d = [(tx, S_Deliver \<lparr> dl_envelope = sf_envelope f, dl_transit_seq = i, dl_delivered_at_ms = clk 2 \<rparr>)])"

definition ack_of :: "(nat \<Rightarrow> nat) \<Rightarrow> send_frame \<Rightarrow> server_frame" where
  "ack_of clk f = S_Ack \<lparr> ak_dedupe_key = sf_dedupe_key f, ak_accepted_at_ms = clk 3 \<rparr>"

lemma stored_out:
  assumes "ss_out s1 = ss_out s" "ss_sessions s1 = ss_sessions s"
  shows "\<exists>d. at_most_pushes (ss_sessions s) clk f i d \<and> answered E tx d (ack_of clk f) s (stored_and_pushed E tx clk f i tb s1)"
proof -
  let ?d = "S_Deliver \<lparr> dl_envelope = sf_envelope f, dl_transit_seq = i, dl_delivered_at_ms = clk 2 \<rparr>"
  obtain ok out where snd_eq: "session_send (ev_accepts E) (sf_to f) ?d (ss_sessions s1) (ss_out s1) = (ok, out)"
    by fastforce
  then obtain d where d: "out = ss_out s @ d" "at_most_pushes (ss_sessions s) clk f i d"
    using session_send_out [of "ev_accepts E" "sf_to f" ?d "ss_sessions s1" "ss_out s1"] assms
    by (auto simp: at_most_pushes_def)
  have "answered E tx d (ack_of clk f) s (stored_and_pushed E tx clk f i tb s1)"
    by (simp add: stored_and_pushed_def snd_eq ack_of_def reply_answered d(1))
  with d(2) show ?thesis by blast
qed

lemma stored_transit [simp]: "ss_transit (stored_and_pushed E tx clk f i tb s) = tb"
  by (simp add: stored_and_pushed_def split: prod.split)

text \<open>The two refusals that go unanswered.\<close>

definition silently_dropped :: "env \<Rightarrow> relay_id \<Rightarrow> effective_capabilities \<Rightarrow> nat \<Rightarrow> send_frame \<Rightarrow> server_state \<Rightarrow> bool" where
  "silently_dropped E agent caps now f s \<longleftrightarrow> \<not> oversized E caps f \<and> fst (rated E agent caps now s) \<and>
     (e_sender_agent_id (sf_envelope f) \<noteq> agent \<or> (e_version (sf_envelope f) \<noteq> 2 \<and> e_version (sf_envelope f) \<noteq> 3))"

fun is_refusal :: "server_frame \<Rightarrow> bool" where
  "is_refusal (S_Moved _) = True"
| "is_refusal (S_Throttle _) = True"
| "is_refusal _ = False"

lemma throttle_answered: "ss_out s0 = ss_out s \<Longrightarrow> \<exists>fr. is_refusal fr \<and> answered E tx [] fr s (throttle_reply E tx n why s0)"
  unfolding throttle_reply_def by (rule exI [of _ "S_Throttle \<lparr> th_retry_after_ms = n, th_reason = why \<rparr>"])
    (simp add: reply_answered)

text \<open>A deposit is dropped in silence, refused with an answer, or stored and acknowledged.\<close>

lemma deposit_outcome:
  fixes E agent caps tx now clk f s
  defines "s' \<equiv> handle_send E agent caps tx now clk f s"
  obtains
    (silent) "silently_dropped E agent caps now f s" "ss_out s' = ss_out s" "ss_transit s' = ss_transit s"
  | (refused) fr where "\<not> silently_dropped E agent caps now f s" "is_refusal fr" "answered E tx [] fr s s'"
      "ss_transit s' = ss_transit s \<or>
       (\<exists>err. enqueue (clk 1) (sf_to f) (sf_envelope f) (ss_transit s) = (Inl err, ss_transit s'))"
  | (acked) d i where "\<not> silently_dropped E agent caps now f s" "at_most_pushes (ss_sessions s) clk f i d" "answered E tx d (ack_of clk f) s s'"
      "e_sender_agent_id (sf_envelope f) = agent" "e_version (sf_envelope f) = 2 \<or> e_version (sf_envelope f) = 3"
      "enqueue (clk 1) (sf_to f) (sf_envelope f) (ss_transit s) = (Inr i, ss_transit s')"
proof -
  obtain ok s1 where r: "rated E agent caps now s = (ok, s1)" by fastforce
  have s1: "ss_out s1 = ss_out s" "ss_transit s1 = ss_transit s" "ss_sessions s1 = ss_sessions s"
    using r rated_fields [of E agent caps now s] by simp_all
  obtain res tb where enq: "enqueue (clk (Suc 0)) (sf_to f) (sf_envelope f) (ss_transit s) = (res, tb)" by fastforce
  have eq: "s' = (if oversized E caps f then throttle_reply E tx 0 EnvelopeTooLarge (bump throttle_envelope_too_large s)
      else if \<not> ok then throttle_reply E tx 1000 PerSenderRate (bump throttle_per_sender s1)
      else if e_sender_agent_id (sf_envelope f) \<noteq> agent then s1
      else if e_version (sf_envelope f) \<noteq> 2 \<and> e_version (sf_envelope f) \<noteq> 3 then bump envelope_dropped_version_gate s1
      else if moved_away E (clk 0) (sf_to f) (legacy f s1)
        then reply E tx (S_Moved \<lparr> mv_dedupe_key = sf_dedupe_key f \<rparr>) (bump envelope_moved (legacy f s1))
      else (case res of
          Inl _ \<Rightarrow> throttle_reply E tx 5000 PerRecipientCapacity (bump throttle_per_recipient ((legacy f s1)\<lparr> ss_transit := tb \<rparr>))
        | Inr i \<Rightarrow> stored_and_pushed E tx clk f i tb (legacy f s1)))"
    unfolding s'_def handle_send_unfold r by (simp add: s1 enq Let_def)
  consider "oversized E caps f \<or> \<not> ok" | "silently_dropped E agent caps now f s"
    | "\<not> oversized E caps f" "ok" "\<not> silently_dropped E agent caps now f s" by blast
  then show thesis
  proof cases
    case 1
    then have nd: "\<not> silently_dropped E agent caps now f s" by (auto simp: silently_dropped_def r)
    obtain fr where "is_refusal fr" "answered E tx [] fr s s'" "ss_transit s' = ss_transit s"
      using 1 throttle_answered [of "bump throttle_envelope_too_large s" s E tx 0 EnvelopeTooLarge]
        throttle_answered [of "bump throttle_per_sender s1" s E tx 1000 PerSenderRate]
      by (cases "oversized E caps f") (auto simp: eq s1)
    then show thesis using refused nd by blast
  next
    case 2
    then show thesis using silent by (auto simp: eq silently_dropped_def r s1)
  next
    case 3
    then have ok: "e_sender_agent_id (sf_envelope f) = agent" "e_version (sf_envelope f) = 2 \<or> e_version (sf_envelope f) = 3"
      by (auto simp: silently_dropped_def r)
    show thesis
    proof (cases "moved_away E (clk 0) (sf_to f) (legacy f s1)")
      case True
      then show thesis using refused [of "S_Moved \<lparr> mv_dedupe_key = sf_dedupe_key f \<rparr>"] 3 ok
        by (auto simp: eq s1 reply_answered)
    next
      case stay: False
      show thesis
      proof (cases res)
        case (Inl err)
        obtain fr where "is_refusal fr" "answered E tx [] fr s s'" "ss_transit s' = tb"
          using 3 ok stay throttle_answered [of "bump throttle_per_recipient ((legacy f s1)\<lparr> ss_transit := tb \<rparr>)" s E tx 5000
            PerRecipientCapacity]
          by (auto simp: eq s1 Inl)
        then show thesis using refused [of fr] 3 enq Inl by auto
      next
        case (Inr i)
        obtain d where "at_most_pushes (ss_sessions s) clk f i d" "answered E tx d (ack_of clk f) s s'" "ss_transit s' = tb"
          using 3 ok stay stored_out [of "legacy f s1" s clk f i E tx tb] by (auto simp: eq s1 Inr)
        then show thesis using acked [of i d] 3 ok enq Inr by auto
      qed
    qed
  qed
qed

text \<open>The fate of a deposit: refused without a trace, refused by the store, or stored under an id.\<close>

lemma handle_send_transit:
  "(ss_transit (handle_send E agent caps tx now clk f s) = ss_transit s \<and>
      ledger (handle_send E agent caps tx now clk f s) = ledger s) \<or>
   (\<exists>err tb. enqueue (clk 1) (sf_to f) (sf_envelope f) (ss_transit s) = (Inl err, tb) \<and>
      ss_transit (handle_send E agent caps tx now clk f s) = tb \<and>
      ledger (handle_send E agent caps tx now clk f s) = ledger s) \<or>
   (\<exists>i tb. enqueue (clk 1) (sf_to f) (sf_envelope f) (ss_transit s) = (Inr i, tb) \<and>
      ss_transit (handle_send E agent caps tx now clk f s) = tb \<and>
      ledger (handle_send E agent caps tx now clk f s) = (fst (ledger s) + 1, snd (ledger s)))"
  unfolding handle_send_def Let_def
  by (auto simp: ledger_def metric_defs split: prod.splits sum.splits if_splits)

lemma handle_send_sessions [simp]: "ss_sessions (handle_send E agent caps tx now clk f s) = ss_sessions s"
  unfolding handle_send_def Let_def by (auto split: prod.splits sum.splits)

subsection \<open>The answer to a deposit\<close>

lemma answered_accepts: "answered E tx d fr s s' \<Longrightarrow> \<forall>out fr. ev_accepts E out tx fr \<Longrightarrow> ss_out s' = ss_out s @ d @ [(tx, fr)]"
  by (auto simp: answered_def)

lemma enqueue_refused_read:
  "transit_inv tb \<Longrightarrow> tb' = tb \<or> (\<exists>err. enqueue t to e tb = (Inl err, tb')) \<Longrightarrow> read_all tb' = read_all tb"
  using tb.enq_err by blast

text \<open>
  (C12) The answer to a deposit tells the truth. When the depositor's channel takes frames, a
  deposit whose sender field is not the authenticated agent, or whose version is neither 2 nor 3,
  leaves no frame and no change in any queue (once it passed the size and rate guards). Every
  other deposit gets exactly one answer: a refusal, and no queue changed, or an acknowledgement
  carrying the deposit's key, and then the envelope, from the authenticated agent itself, stands at
  the end of the recipient's queue and no other queue changed. The only other frame is at most one
  delivery of that envelope before the acknowledgement, on the channel the recipient is bound to.
\<close>

theorem deposit_answer:
  assumes "\<forall>out fr. ev_accepts E out tx fr" and "transit_inv (ss_transit s)"
    and "s' = handle_send E agent caps tx now clk f s"
  shows "if silently_dropped E agent caps now f s
     then ss_out s' = ss_out s \<and> read_all (ss_transit s') = read_all (ss_transit s)
     else (\<exists>fr. is_refusal fr \<and> ss_out s' = ss_out s @ [(tx, fr)] \<and> read_all (ss_transit s') = read_all (ss_transit s)) \<or>
       (\<exists>d i. at_most_pushes (ss_sessions s) clk f i d \<and>
          ss_out s' = ss_out s @ d @ [(tx, S_Ack \<lparr> ak_dedupe_key = sf_dedupe_key f, ak_accepted_at_ms = clk 3 \<rparr>)] \<and>
          e_sender_agent_id (sf_envelope f) = agent \<and>
          read_all (ss_transit s') = (read_all (ss_transit s))
            (sf_to f := read_all (ss_transit s) (sf_to f) @
               [\<lparr> se_id = i, se_envelope = sf_envelope f, se_enqueued_at_ms = clk 1 \<rparr>]))"
proof (cases rule: deposit_outcome [of E agent caps now f s tx clk])
  case silent
  then show ?thesis using assms(3) by simp
next
  case (refused fr)
  then have "ss_out s' = ss_out s @ [(tx, fr)]" using answered_accepts [OF _ assms(1), of "[]" fr s s'] assms(3) by simp
  moreover have "read_all (ss_transit s') = read_all (ss_transit s)"
    using enqueue_refused_read [OF assms(2)] refused(4) assms(3) by blast
  ultimately show ?thesis using refused(1,2) by auto
next
  case (acked d i)
  then have "ss_out s' = ss_out s @ d @ [(tx, ack_of clk f)]" using answered_accepts [OF _ assms(1)] assms(3) by simp
  moreover have "read_all (ss_transit s') = (read_all (ss_transit s))
      (sf_to f := read_all (ss_transit s) (sf_to f) @ [\<lparr> se_id = i, se_envelope = sf_envelope f, se_enqueued_at_ms = clk 1 \<rparr>])"
    using tb.enq_ok [OF assms(2) acked(6)] assms(3) by auto
  ultimately show ?thesis using acked(1,2,4) unfolding ack_of_def by auto
qed

definition demo_server :: server_state where
  "demo_server = server_new 0 (config_defaults [] Nyc)"

theorem deposit_answer_witness:
  "\<not> silently_dropped demo_env [1] default_profile 3 demo_send demo_server \<and>
   ss_out (handle_send demo_env [1] default_profile 10 3 (\<lambda>_. 7) demo_send demo_server) \<noteq> []"
proof -
  have ok: "\<forall>out fr. ev_accepts demo_env out 10 fr" by (simp add: demo_env_def)
  have inv: "transit_inv (ss_transit demo_server)"
    using new_inv by (simp add: demo_server_def server_new_def config_defaults_def)
  have "\<not> silently_dropped demo_env [1] default_profile 3 demo_send demo_server" by code_simp
  then show ?thesis
    using deposit_answer [OF ok inv refl, where agent = "[1]" and caps = default_profile and now = 3
        and clk = "\<lambda>_. 7" and f = demo_send] by (auto split: if_splits)
qed

end
