(* ===== verification/Relay_World_Properties.thy ===== *)
theory Relay_World_Properties
  imports Relay_Deposit
begin

text \<open>
  End-to-end properties of the relay over every interleaving of its connections, its sweeper and
  its endpoints: what an acknowledged deposit is worth, how the traffic counters add up, who can
  read what, and that no session outlives its connection.
\<close>

subsection \<open>What a frame does to the transit buffer\<close>

lemma handle_log_append_fields [simp]:
  "ss_transit (handle_log_append E agent caps tx now clk a s) = ss_transit s"
  "ss_sessions (handle_log_append E agent caps tx now clk a s) = ss_sessions s"
  "ledger (handle_log_append E agent caps tx now clk a s) = ledger s"
  unfolding handle_log_append_def Let_def
  by (auto simp: ledger_def metric_defs split: prod.splits sum.splits)

lemma handle_log_fetch_fields [simp]:
  "ss_transit (handle_log_fetch E agent tx f s) = ss_transit s"
  "ss_sessions (handle_log_fetch E agent tx f s) = ss_sessions s"
  "ss_metrics (handle_log_fetch E agent tx f s) = ss_metrics s"
  "ledger (handle_log_fetch E agent tx f s) = ledger s"
  by (simp_all add: handle_log_fetch_def Let_def ledger_def)

subsection \<open>How many envelopes are stored\<close>

lemma transit_len_sum: "transit_len s = hm_sum length (tb_by_recipient s)"
  by (simp add: transit_len_def hm_sum_def)

lemma hm_sum_put_queue:
  "hm_sum length (hm_insert to q (tb_by_recipient s)) + length (queue_of s to) = hm_sum length (tb_by_recipient s) + length q"
  by (cases "hm_get (tb_by_recipient s) to") (simp_all add: queue_of_def hm_sum_insert_new hm_sum_insert_old)

lemma hm_insert_twice: "hm_sum f (hm_insert k v (hm_insert k v' m)) = hm_sum f (hm_insert k v m)"
  unfolding hm_sum_def hm_values_def hm_insert_def by (induction m) auto

lemma enqueue_len:
  assumes "transit_inv s"
  shows "transit_len (snd (enqueue t to e s)) = transit_len s + (case fst (enqueue t to e s) of Inl _ \<Rightarrow> 0 | Inr _ \<Rightarrow> 1)"
  using assms
proof (cases rule: enqueue_cases [where e = e and t = t and to = to])
  case cap
  then show ?thesis using hm_sum_put_queue [of to "queue_of s to" s] by (simp add: transit_len_sum)
next
  case ok
  then show ?thesis using hm_sum_put_queue [of to "queue_of s to @ [x]" s for x]
    by (simp add: transit_len_sum hm_insert_twice)
qed simp

lemma delete_len:
  assumes "transit_inv s"
  shows "transit_len (snd (transit_delete to ids s)) + fst (transit_delete to ids s) = transit_len s"
proof (cases "hm_get (tb_by_recipient s) to")
  case (Some q)
  let ?kept = "filter (\<lambda>item. fst item \<notin> set ids) q"
  have "length ?kept \<le> length q" by simp
  then show ?thesis using Some hm_sum_put_queue [of to ?kept s]
    by (simp add: transit_delete_def Let_def transit_len_sum queue_of_def)
qed (simp add: transit_delete_def)

lemma split_len: "hm_sum length (hm_map_values (filter P) m) + length (concat (map (filter (\<lambda>x. \<not> P x)) (hm_values m))) =
    hm_sum length m"
  unfolding hm_sum_def hm_values_def hm_map_values_def
proof (induction m)
  case (Cons e m)
  then show ?case using sum_length_filter_compl [of P "snd e"] by (auto simp: case_prod_beta)
qed simp

lemma hm_sum_nonempty: "hm_sum length (hm_retain (\<lambda>_ q. q \<noteq> []) m) = hm_sum length m"
  by (rule hm_sum_retain) simp

lemma sweep_len:
  "transit_len (snd (transit_sweep_expired now s)) + fst (transit_sweep_expired now s) = transit_len s"
  using split_len [of "item_alive (tb_ttl_ms s) now" "tb_by_recipient s"]
  by (simp add: transit_sweep_expired_def Let_def transit_len_sum hm_sum_nonempty)

subsection \<open>Every step as a transit operation\<close>

text \<open>
  Each event of the world performs at most one operation on the transit buffer. \<open>transit_effect\<close>
  names it: the deposit of a \<open>Send\<close>, the removal of a \<open>TransitAck\<close>, the sweep.
\<close>

fun transit_effect :: "(bytes \<Rightarrow> client_frame option) \<Rightarrow> world \<Rightarrow> world_op \<Rightarrow> transit_op option" where
  "transit_effect dec w (W_Receive sid now ms clk (Some (WsBinary b))) =
     (case (hm_get (w_conns w) sid, dec b) of
        (Some c, Some (C_Send f)) \<Rightarrow> Some (EnqueueOp (clk 1) (sf_to f) (sf_envelope f))
      | (Some c, Some (C_TransitAck a)) \<Rightarrow> Some (DeleteOp (cn_agent c) (take max_ack_ids_per_frame (ta_acked_ids a)))
      | _ \<Rightarrow> None)"
| "transit_effect dec w (W_Sweep now clk) = Some (SweepOp (clk 0))"
| "transit_effect dec w _ = None"

definition balanced :: "server_state \<Rightarrow> bool" where
  "balanced s \<longleftrightarrow> (case ledger s of (sent, delivered, dropped) \<Rightarrow>
     sent = of_nat (transit_len (ss_transit s)) + delivered + dropped)"

text \<open>A change of state that leaves the traffic alone.\<close>

definition same_traffic :: "server_state \<Rightarrow> server_state \<Rightarrow> bool" where
  "same_traffic s s' \<longleftrightarrow> ss_transit s' = ss_transit s \<and> ledger s' = ledger s"

lemma same_traffic_trans: "same_traffic s s' \<Longrightarrow> same_traffic s' s'' \<Longrightarrow> same_traffic s s''"
  by (simp add: same_traffic_def)

lemma same_traffic_refl [simp]: "same_traffic s s"
  by (simp add: same_traffic_def)

lemma pushes_ledger: "mt_envelopes_sent_total ((envelope_pushed ^^ n) m) = mt_envelopes_sent_total m"
  "mt_envelopes_delivered_total ((envelope_pushed ^^ n) m) = mt_envelopes_delivered_total m"
  "mt_envelopes_dropped_ttl_total ((envelope_pushed ^^ n) m) = mt_envelopes_dropped_ttl_total m"
  "mt_connections_active ((envelope_pushed ^^ n) m) = mt_connections_active m"
  by (induction n) (simp_all add: envelope_pushed_def)

lemma open_same: "same_traffic s (snd (open_session E greet auth h tx clk s))"
  unfolding open_session_def Let_def same_traffic_def ledger_def
  by (auto simp: pushes_ledger metric_defs split: option.splits sum.splits prod.splits)

lemma close_same: "same_traffic s (close_session E agent sid s)"
  unfolding close_session_def Let_def same_traffic_def ledger_def
  by (auto simp: metric_defs split: prod.splits)

lemma upgrade_same: "same_traffic s (snd (ws_handler now hdr q s))"
  unfolding ws_handler_def Let_def same_traffic_def ledger_def by (auto split: option.splits prod.splits)

lemma end_same: "same_traffic (w_state w) (w_state (end_session E sid w))"
  by (simp add: end_session_def close_same split: option.split)

lemma auth_same:
  "same_traffic s (snd (auth_challenge_endpoint bs now unix s))"
  "same_traffic s (snd (auth_verify_endpoint E now unix rnd req s))"
  unfolding auth_challenge_endpoint_def auth_verify_endpoint_def Let_def same_traffic_def ledger_def
  by (auto simp: metric_defs split: prod.splits sum.splits)

text \<open>What an operation on the buffer books in the ledger.\<close>

fun booked :: "transit_op \<Rightarrow> transit_buffer \<Rightarrow> 64 word \<times> 64 word \<times> 64 word \<Rightarrow> 64 word \<times> 64 word \<times> 64 word" where
  "booked (EnqueueOp t to e) tb (sent, delivered, dropped) =
     (case fst (enqueue t to e tb) of Inl _ \<Rightarrow> sent | Inr _ \<Rightarrow> sent + 1, delivered, dropped)"
| "booked (DeleteOp to ids) tb (sent, delivered, dropped) =
     (sent, delivered + of_nat (fst (transit_delete to ids tb)), dropped)"
| "booked (SweepOp now) tb (sent, delivered, dropped) =
     (sent, delivered, dropped + of_nat (fst (transit_sweep_expired now tb)))"

definition performs :: "transit_op \<Rightarrow> server_state \<Rightarrow> server_state \<Rightarrow> bool" where
  "performs act s s' \<longleftrightarrow> ss_transit s' = tb.step (ss_transit s) act \<and> ledger s' = booked act (ss_transit s) (ledger s)"

lemma send_performs:
  "same_traffic s (handle_send E agent caps tx now clk f s) \<or>
   performs (EnqueueOp (clk 1) (sf_to f) (sf_envelope f)) s (handle_send E agent caps tx now clk f s)"
  using handle_send_transit [where E = E and agent = agent and caps = caps and tx = tx and now = now and clk = clk and f = f and s = s]
  by (cases "ledger s") (auto simp: same_traffic_def performs_def)

lemma ack_performs:
  "performs (DeleteOp agent (take max_ack_ids_per_frame (ta_acked_ids a))) s
     (snd (handle_client_frame E agent caps tx sid now clk (C_TransitAck a) s))"
  by (simp add: handle_client_frame_def performs_def ledger_def metric_defs split: prod.splits)

lemma sweep_performs: "performs (SweepOp (clk 0)) s (sweeper_tick now clk s)"
  by (simp add: sweeper_tick_def Let_def performs_def ledger_def metric_defs split: prod.splits)

lemma ledger_update [simp]: "ledger (s\<lparr> ss_out := x \<rparr>) = ledger s" "ledger (s\<lparr> ss_sessions := r \<rparr>) = ledger s"
  by (simp_all add: ledger_def)

lemma frame_same:
  "(\<And>f. fr \<noteq> C_Send f) \<Longrightarrow> (\<And>a. fr \<noteq> C_TransitAck a) \<Longrightarrow>
   same_traffic s (snd (handle_client_frame E agent caps tx sid now clk fr s))"
  by (cases fr) (auto simp: handle_client_frame_def same_traffic_def split: prod.splits)

lemma frame_performs:
  "same_traffic s (snd (handle_client_frame E agent caps tx sid now clk fr s)) \<or>
   (\<exists>f. fr = C_Send f \<and> performs (EnqueueOp (clk 1) (sf_to f) (sf_envelope f)) s
      (snd (handle_client_frame E agent caps tx sid now clk fr s))) \<or>
   (\<exists>a. fr = C_TransitAck a \<and> performs (DeleteOp agent (take max_ack_ids_per_frame (ta_acked_ids a))) s
      (snd (handle_client_frame E agent caps tx sid now clk fr s)))"
proof (cases fr)
  case (C_Send f)
  then show ?thesis using send_performs [where f = f and s = s] by (auto simp: handle_client_frame_def)
next
  case (C_TransitAck a)
  then show ?thesis using ack_performs [where a = a and s = s] by blast
qed (auto intro!: frame_same)

lemma performs_same: "performs act s s' \<Longrightarrow> same_traffic s' s'' \<Longrightarrow> performs act s s''"
  by (simp add: performs_def same_traffic_def)

text \<open>Every event performs the operation that \<open>transit_effect\<close> names, or none.\<close>

lemma receive_performs:
  assumes "hm_get (w_conns w) sid = Some c"
  shows "same_traffic (w_state w) (w_state (world_step E B J dec w (W_Receive sid now ms clk msg))) \<or>
    (\<exists>act. transit_effect dec w (W_Receive sid now ms clk msg) = Some act \<and>
       performs act (w_state w) (w_state (world_step E B J dec w (W_Receive sid now ms clk msg))))"
proof -
  obtain ex c' s' where io: "run_io_step E dec sid now ms clk msg c (w_state w) = (ex, c', s')"
    by (metis prod_cases3)
  have rest: "same_traffic s' (w_state (world_step E B J dec w (W_Receive sid now ms clk msg)))"
    using assms io end_same [where E = E and sid = sid and w = "w\<lparr> w_state := s' \<rparr>"]
    by (simp split: option.split)
  have "same_traffic (w_state w) s' \<or>
    (\<exists>act. transit_effect dec w (W_Receive sid now ms clk msg) = Some act \<and> performs act (w_state w) s')"
  proof (cases "\<exists>b fr. msg = Some (WsBinary b) \<and> dec b = Some fr")
    case True
    then obtain b fr where "msg = Some (WsBinary b)" "dec b = Some fr" by blast
    then show ?thesis using io assms
        frame_performs [where fr = fr and s = "w_state w" and E = E and agent = "cn_agent c" and caps = "cn_caps c"
          and tx = "cn_tx c" and sid = sid and now = now and clk = clk]
      by (auto simp: run_io_step_def split: prod.splits)
  next
    case False
    then show ?thesis using io
      by (auto simp: run_io_step_def split: option.splits ws_message.splits)
  qed
  then show ?thesis using rest same_traffic_trans performs_same by blast
qed

lemma step_performs:
  "same_traffic (w_state w) (w_state (world_step E B J dec w op)) \<or>
   (\<exists>act. transit_effect dec w op = Some act \<and> performs act (w_state w) (w_state (world_step E B J dec w op)))"
proof (cases op)
  case (W_Upgrade now ms hdr query msgs tx clk greet)
  then show ?thesis
    using upgrade_same [where now = now and hdr = hdr and q = query and s = "w_state w"]
      open_same [where E = E and greet = greet and h = "await_hello_inner dec msgs" and tx = tx and clk = clk
        and auth = "the (fst (ws_handler now hdr query (w_state w)))"
        and s = "snd (ws_handler now hdr query (w_state w))"]
    by (auto intro: same_traffic_trans split: prod.splits option.splits)
next
  case (W_Receive sid now ms clk msg)
  then show ?thesis using receive_performs
    by (cases "hm_get (w_conns w) sid") (simp, blast)
next
  case (W_Index iop)
  then show ?thesis by (simp add: Let_def same_traffic_def ledger_def split: prod.splits)
qed (auto simp: end_same auth_same sweep_performs split: option.splits)

definition books_inv :: "server_state \<Rightarrow> bool" where
  "books_inv s \<longleftrightarrow> transit_inv (ss_transit s) \<and> balanced s"

lemma performs_books:
  assumes "books_inv s" "performs act s s'"
  shows "books_inv s'"
proof -
  obtain sent del drp where l: "ledger s = (sent, del, drp)" by (cases "ledger s")
  have inv: "transit_inv (ss_transit s)" and bal: "sent = of_nat (transit_len (ss_transit s)) + del + drp"
    using assms(1) by (simp_all add: books_inv_def balanced_def l)
  have "balanced s'"
  proof (cases act)
    case (EnqueueOp t to e)
    then show ?thesis using assms(2) enqueue_len [OF inv, of t to e] bal
      by (simp add: performs_def balanced_def l split: sum.splits)
  next
    case (DeleteOp to ids)
    then show ?thesis using assms(2) arg_cong [OF delete_len [OF inv, of to ids], of "of_nat :: nat \<Rightarrow> 64 word"] bal
      by (simp add: performs_def balanced_def l algebra_simps)
  next
    case (SweepOp now)
    then show ?thesis using assms(2) arg_cong [OF sweep_len [of now "ss_transit s"], of "of_nat :: nat \<Rightarrow> 64 word"] bal
      by (simp add: performs_def balanced_def l algebra_simps)
  qed
  then show ?thesis using assms(2) tb.step_inv [OF inv] by (simp add: books_inv_def performs_def)
qed

lemma same_books: "books_inv s \<Longrightarrow> same_traffic s s' \<Longrightarrow> books_inv s'"
  by (simp add: books_inv_def same_traffic_def balanced_def)

lemma step_books: "books_inv (w_state w) \<Longrightarrow> books_inv (w_state (world_step E B J dec w op))"
  using step_performs performs_books same_books by metis

interpretation books: invariant_system "world_step E B J dec" "\<lambda>_. True" "\<lambda>w :: world. books_inv (w_state w)" for E B J dec
  by unfold_locales (rule step_books)

lemma new_len: "transit_len (tb_new ttl n cap) = 0"
  by (simp add: transit_len_def tb_new_def hm_values_def)

lemma books_new: "cf_transit_total_bytes_cap cf < u64_max \<Longrightarrow> books_inv (w_state (world_new now cf))"
  using new_inv
  by (simp add: books_inv_def balanced_def ledger_def world_new_def server_new_def metrics_new_def new_len)

lemma books_run:
  assumes "cf_transit_total_bytes_cap cf < u64_max"
  shows "books_inv (w_state (world_run E B J dec (world_new now cf) ops))"
  using books.run_inv [OF books_new [OF assms]] by (simp add: list_all_iff)

subsection \<open>What an acknowledgement promises\<close>

text \<open>
  \<open>undisturbed\<close>: along a run, the recipient never acknowledges the entry and no sweep finds it
  older than the time to live.
\<close>

fun undisturbed :: "env \<Rightarrow> ('pk, 'sig) backend \<Rightarrow> json_parsers \<Rightarrow> (bytes \<Rightarrow> client_frame option) \<Rightarrow> relay_id
    \<Rightarrow> stored_entry \<Rightarrow> world \<Rightarrow> world_op list \<Rightarrow> bool" where
  "undisturbed E B J dec to x w [] = True"
| "undisturbed E B J dec to x w (op # ops) =
     ((case transit_effect dec w op of
         None \<Rightarrow> True
       | Some act \<Rightarrow> tb.spares to (tb_ttl_ms (ss_transit (w_state w))) x act) \<and>
      undisturbed E B J dec to x (world_step E B J dec w op) ops)"

lemma undisturbed_keeps:
  "books_inv (w_state w) \<Longrightarrow> x \<in> set (read_all (ss_transit (w_state w)) to) \<Longrightarrow> undisturbed E B J dec to x w ops \<Longrightarrow>
   x \<in> set (read_all (ss_transit (w_state (world_run E B J dec w ops))) to)"
proof (induction ops arbitrary: w)
  case (Cons op ops)
  let ?w = "world_step E B J dec w op"
  have inv: "transit_inv (ss_transit (w_state w))" using Cons.prems(1) by (simp add: books_inv_def)
  have "x \<in> set (read_all (ss_transit (w_state ?w)) to)"
    using step_performs [where w = w and op = op and E = E and B = B and J = J and dec = dec]
  proof
    assume "same_traffic (w_state w) (w_state ?w)"
    then show ?thesis using Cons.prems(2) by (simp add: same_traffic_def)
  next
    assume "\<exists>act. transit_effect dec w op = Some act \<and> performs act (w_state w) (w_state ?w)"
    then show ?thesis using Cons.prems(2,3) tb.step_keeps [OF inv] by (auto simp: performs_def)
  qed
  then show ?case using Cons.IH [of ?w] Cons.prems step_books [OF Cons.prems(1), of E B J dec op] by simp
qed simp

text \<open>
  (C7) The traffic counters add up. In every state the relay can reach, the number of deposits it
  accepted is the number of envelopes it still stores plus the envelopes its recipients
  acknowledged plus the envelopes that expired (counters modulo \<open>2 ^ 64\<close>), over every
  interleaving of connections, sweeps and requests.
\<close>

theorem traffic_accounting:
  assumes "cf_transit_total_bytes_cap cf < u64_max" and "s = w_state (world_run E B J dec (world_new now cf) ops)"
  shows "mt_envelopes_sent_total (ss_metrics s) =
     of_nat (transit_len (ss_transit s)) + mt_envelopes_delivered_total (ss_metrics s) +
     mt_envelopes_dropped_ttl_total (ss_metrics s)"
  using books_run [OF assms(1), of E B J dec now ops] by (simp add: assms(2) books_inv_def balanced_def ledger_def)

abbreviation demo_traffic :: "world_op list" where
  "demo_traffic \<equiv> demo_login 1 10 @ [demo_receive 1 [1], demo_receive 1 [1]] @ demo_login 2 20 @ [demo_receive 2 [2]]"

theorem traffic_accounting_witness:
  "mt_envelopes_sent_total (ss_metrics (w_state (demo_run demo_traffic))) = 1 + 1 + 0"
proof -
  let ?s = "w_state (demo_run demo_traffic)"
  have "transit_len (ss_transit ?s) = 1" "mt_envelopes_delivered_total (ss_metrics ?s) = 1"
    "mt_envelopes_dropped_ttl_total (ss_metrics ?s) = 0" by code_simp+
  moreover have "cf_transit_total_bytes_cap (config_defaults [] Nyc) < u64_max" by (simp add: config_defaults_def)
  ultimately show ?thesis using traffic_accounting [OF _ arg_cong [OF demo_run_def, of w_state], of demo_traffic]
    by simp
qed

text \<open>
  (C4) An acknowledged deposit survives. When, in any reachable state, a connection's \<open>Send\<close> is
  answered by an \<open>Ack\<close>, the envelope is in the queue of its recipient, its sender field is the
  agent the connection authenticated as, the \<open>Ack\<close> carries the key of that \<open>Send\<close>, and the
  envelope stays in that queue through every later sequence of events in which the recipient does
  not acknowledge its id and no sweep runs past its time to live.
\<close>

theorem acked_deposit_survives:
  assumes "cf_transit_total_bytes_cap cf < u64_max" and w: "w = world_run E B J dec (world_new now0 cf) ops"
    and c: "hm_get (w_conns w) sid = Some c" and f: "dec b = Some (C_Send f)"
    and w': "w' = world_step E B J dec w (W_Receive sid now ms clk (Some (WsBinary b)))"
    and new: "ss_out (w_state w') = ss_out (w_state w) @ new" "(tx, S_Ack a) \<in> set new"
  shows "tx = cn_tx c \<and> ak_dedupe_key a = sf_dedupe_key f \<and> e_sender_agent_id (sf_envelope f) = cn_agent c \<and>
    (\<exists>x. se_envelope x = sf_envelope f \<and> se_enqueued_at_ms x = clk 1 \<and>
       x \<in> set (read_all (ss_transit (w_state w')) (sf_to f)) \<and>
       (\<forall>later. undisturbed E B J dec (sf_to f) x w' later \<longrightarrow>
          x \<in> set (read_all (ss_transit (w_state (world_run E B J dec w' later))) (sf_to f))))"
proof -
  let ?s = "w_state w"
  have books: "books_inv ?s" unfolding w by (rule books_run [OF assms(1)])
  then have inv: "transit_inv (ss_transit ?s)" by (simp add: books_inv_def)
  have s': "w_state w' = handle_send E (cn_agent c) (cn_caps c) (cn_tx c) now clk f ?s"
    by (simp add: w' c f run_io_step_def handle_client_frame_def)
  show ?thesis
  proof (cases rule: deposit_outcome [of E "cn_agent c" "cn_caps c" now f ?s "cn_tx c" clk])
    case silent
    then show ?thesis using new s' by simp
  next
    case (refused fr)
    then show ?thesis using new s' by (auto simp: answered_def split: if_splits)
  next
    case (acked d i)
    have mem: "(tx, S_Ack a) \<in> set d \<or> (tx, S_Ack a) = (cn_tx c, ack_of clk f)"
      using acked(3) new s' by (auto simp: answered_def split: if_splits)
    then have tx: "tx = cn_tx c \<and> ak_dedupe_key a = sf_dedupe_key f"
      using acked(2) by (auto simp: at_most_pushes_def ack_of_def)
    let ?x = "\<lparr> se_id = i, se_envelope = sf_envelope f, se_enqueued_at_ms = clk 1 \<rparr>"
    have x: "?x \<in> set (read_all (ss_transit (w_state w')) (sf_to f))"
      using tb.enq_ok [OF inv acked(6), of "sf_to f"] s' by simp
    have "books_inv (w_state w')" unfolding w' by (rule step_books [OF books])
    then have "undisturbed E B J dec (sf_to f) ?x w' later \<Longrightarrow>
        ?x \<in> set (read_all (ss_transit (w_state (world_run E B J dec w' later))) (sf_to f))" for later
      using undisturbed_keeps x by blast
    then show ?thesis using tx x acked(4) by (intro conjI exI [of _ ?x]) auto
  qed
qed

theorem acked_deposit_survives_witness:
  "\<exists>x. x \<in> set (read_all (ss_transit (w_state
      (demo_run (demo_login 1 10 @ [demo_receive 1 [1]] @ [W_Sweep 0 (\<lambda>_. 100)] @ demo_login 2 20)))) [2])"
proof -
  let ?w = "demo_run (demo_login 1 10)" and ?later = "W_Sweep 0 (\<lambda>_. 100) # demo_login 2 20"
  let ?w' = "world_step demo_env open_backend demo_parsers demo_decode ?w (demo_receive 1 [1])"
  let ?x = "\<lparr> se_id = 1, se_envelope = demo_envelope, se_enqueued_at_ms = 7 \<rparr>"
  have c: "map_option cn_tx (hm_get (w_conns ?w) 1) = Some 10" by code_simp
  then obtain c where c: "hm_get (w_conns ?w) 1 = Some c" by auto
  have out: "ss_out (w_state ?w') = ss_out (w_state ?w) @ [(10, S_Ack \<lparr> ak_dedupe_key = [5], ak_accepted_at_ms = 7 \<rparr>)]"
    by code_simp
  have cap: "cf_transit_total_bytes_cap (config_defaults [] Nyc) < u64_max" by (simp add: config_defaults_def)
  have snd: "demo_decode [1] = Some (C_Send demo_send)" by (simp add: demo_decode_def)
  have to: "sf_to demo_send = [2]" by (simp add: demo_send_def)
  obtain x where x: "x \<in> set (read_all (ss_transit (w_state ?w')) [2])"
    and kept: "undisturbed demo_env open_backend demo_parsers demo_decode [2] x ?w' ?later \<longrightarrow>
       x \<in> set (read_all (ss_transit (w_state (world_run demo_env open_backend demo_parsers demo_decode ?w' ?later))) [2])"
    using acked_deposit_survives [OF cap demo_run_def c snd demo_receive_def [THEN arg_cong] out list.set_intros(1), unfolded to]
    by blast
  have "read_all (ss_transit (w_state ?w')) [2] = [?x]" by code_simp
  with x have "x = ?x" by simp
  moreover have "undisturbed demo_env open_backend demo_parsers demo_decode [2] ?x ?w' ?later" by code_simp
  ultimately have "?x \<in> set (read_all (ss_transit (w_state (world_run demo_env open_backend demo_parsers demo_decode ?w' ?later))) [2])"
    using kept by blast
  then show ?thesis unfolding demo_run_def foldl_append foldl.simps append.simps by blast
qed

end
