(* ===== verification/Relay_Log_Fetch.thy ===== *)
theory Relay_Log_Fetch
  imports Relay_Demo
begin

text \<open>
  The reply to a log fetch (\<^verbatim>\<open>handle_log_fetch\<close> and \<^verbatim>\<open>send_log_records\<close> of \<^verbatim>\<open>ws.rs\<close>): the paging loop
  ends, its pages are those of a reference definition, and they carry only what the reader may see.
\<close>

subsection \<open>The pages of a reply\<close>

definition page_count :: "'a list \<Rightarrow> nat" where
  "page_count rs = max 1 ((length rs + 63) div 64)"

text \<open>Page \<open>k\<close> of a reply and whether it is the last.\<close>

definition page :: "chan \<Rightarrow> group_key \<Rightarrow> log_record_wire list \<Rightarrow> nat \<Rightarrow> chan \<times> server_frame" where
  "page tx g rs k = (tx, S_LogRecords \<lparr> lr_group_id = g, lr_records = take 64 (drop (64 * k) rs),
     lr_done = (Suc k = page_count rs) \<rparr>)"

definition pages :: "chan \<Rightarrow> group_key \<Rightarrow> log_record_wire list \<Rightarrow> outbound" where
  "pages tx g rs = map (page tx g rs) [0..<page_count rs]"

lemma page_count_step: "length rs > 64 \<Longrightarrow> page_count rs = Suc (page_count (drop 64 rs))"
proof -
  assume "length rs > 64"
  then obtain m where m: "length rs = Suc m + 64" by (metis add.commute less_imp_Suc_add add_Suc_right)
  have "(128 + m) div 64 = Suc (Suc (m div 64))" by presburger
  then show ?thesis using m by (simp add: page_count_def max_def)
qed

lemma page_count_small: "length rs \<le> 64 \<Longrightarrow> page_count rs = 1"
proof -
  assume "length rs \<le> 64"
  then have "(length rs + 63) div 64 \<le> 1" by simp
  then show ?thesis by (simp add: page_count_def)
qed

lemma pages_small: "length rs \<le> 64 \<Longrightarrow>
  pages tx g rs = [(tx, S_LogRecords \<lparr> lr_group_id = g, lr_records = rs, lr_done = True \<rparr>)]"
  by (simp add: pages_def page_def page_count_small)

lemma pages_big: "length rs > 64 \<Longrightarrow>
  pages tx g rs = (tx, S_LogRecords \<lparr> lr_group_id = g, lr_records = take 64 rs, lr_done = False \<rparr>) # pages tx g (drop 64 rs)"
proof -
  assume big: "length rs > 64"
  have c: "page_count (drop 64 rs) > 0" by (simp add: page_count_def)
  have "page tx g rs (Suc k) = page tx g (drop 64 rs) k" for k
    by (simp add: page_def page_count_step [OF big] add.commute)
  then show ?thesis using c
    by (simp add: pages_def page_count_step [OF big] upt_conv_Cons map_Suc_upt [symmetric] comp_def del: upt_Suc)
       (simp add: page_def page_count_step [OF big])
qed

lemma shorter: "length rs > 64 \<Longrightarrow> length (drop 64 rs) < length rs"
  by (cases rs) auto

lemma send_log_pages:
  "\<exists>n. send_log_records A tx g rs out = out @ take n (pages tx g rs) \<and>
     ((\<forall>out f. A out tx f) \<longrightarrow> n = page_count rs)"
proof (induction rs arbitrary: out rule: length_induct)
  case (1 rs)
  show ?case
  proof (cases "length rs > 64")
    case False
    then show ?thesis
      by (subst send_log_records.simps)
         (auto simp: log_records_chunk_def try_send_def pages_small page_count_small intro: exI [of _ 1] exI [of _ 0])
  next
    case True
    let ?f = "S_LogRecords \<lparr> lr_group_id = g, lr_records = take 64 rs, lr_done = False \<rparr>"
    have ne: "drop 64 rs \<noteq> []" using True by simp
    show ?thesis
    proof (cases "A out tx ?f")
      case ok: True
      obtain n where n: "send_log_records A tx g (drop 64 rs) (out @ [(tx, ?f)]) = (out @ [(tx, ?f)]) @ take n (pages tx g (drop 64 rs))"
        "(\<forall>out f. A out tx f) \<longrightarrow> n = page_count (drop 64 rs)"
        using 1 [rule_format, OF shorter [OF True], of "out @ [(tx, ?f)]"] by blast
      show ?thesis
        by (rule exI [of _ "Suc n"], subst send_log_records.simps)
           (use True ok ne n in \<open>auto simp: log_records_chunk_def try_send_def pages_big page_count_step\<close>)
    next
      case False
      then show ?thesis using True ne
        by (subst send_log_records.simps) (auto simp: log_records_chunk_def try_send_def intro!: exI [of _ 0])
    qed
  qed
qed

lemma pages_concat: "concat (map (\<lambda>(_, f). case f of S_LogRecords l \<Rightarrow> lr_records l | _ \<Rightarrow> []) (pages tx g rs)) = rs"
proof (induction rs rule: length_induct)
  case (1 rs)
  show ?case
  proof (cases "length rs > 64")
    case True
    then show ?thesis using 1 [rule_format, OF shorter [OF True]] by (simp add: pages_big)
  qed (simp add: pages_small)
qed

text \<open>What a reader may see of a log: the records for everyone and those for the reader.\<close>

definition visible_to :: "relay_id \<Rightarrow> stored_log_record \<Rightarrow> bool" where
  "visible_to agent r \<longleftrightarrow> sl_recipient r = None \<or> sl_recipient r = Some agent"

lemma fetch_out: "ss_out (handle_log_fetch E agent tx fetch s) =
  send_log_records (ev_accepts E) tx (lf_group_id fetch)
    (map wire_record (filter (visible_to agent) (fetch_since (ss_group_log s) (lf_group_id fetch) (lf_since_seq fetch))))
    (ss_out s)"
  by (simp add: handle_log_fetch_def Let_def visible_to_def [abs_def])

lemma page_visible:
  "p \<in> set (pages tx g (map wire_record (filter (visible_to agent) rs))) \<Longrightarrow>
   \<exists>l. p = (tx, S_LogRecords l) \<and> (\<forall>r \<in> set (lr_records l). lw_recipient r = None \<or> lw_recipient r = Some agent)"
  by (auto simp: pages_def page_def wire_record_def visible_to_def dest!: in_set_takeD in_set_dropD)

lemma fetch_frames:
  "\<exists>new. ss_out (handle_log_fetch E agent tx fetch s) = ss_out s @ new \<and>
     (\<forall>(t, f) \<in> set new. t = tx \<and> (\<exists>l. f = S_LogRecords l \<and>
        (\<forall>r \<in> set (lr_records l). lw_recipient r = None \<or> lw_recipient r = Some agent)))"
proof -
  let ?rs = "filter (visible_to agent) (fetch_since (ss_group_log s) (lf_group_id fetch) (lf_since_seq fetch))"
  obtain n where n: "ss_out (handle_log_fetch E agent tx fetch s) = ss_out s @ take n (pages tx (lf_group_id fetch) (map wire_record ?rs))"
    using send_log_pages [of "ev_accepts E" tx "lf_group_id fetch" "map wire_record ?rs" "ss_out s"] unfolding fetch_out by blast
  show ?thesis
  proof (rule exI, rule conjI [OF n], rule ballI)
    fix p assume "p \<in> set (take n (pages tx (lf_group_id fetch) (map wire_record ?rs)))"
    from page_visible [OF in_set_takeD [OF this]]
    obtain l where "p = (tx, S_LogRecords l)" "\<forall>r \<in> set (lr_records l). lw_recipient r = None \<or> lw_recipient r = Some agent"
      by blast
    then show "case p of (t, f) \<Rightarrow> t = tx \<and> (\<exists>l. f = S_LogRecords l \<and>
        (\<forall>r \<in> set (lr_records l). lw_recipient r = None \<or> lw_recipient r = Some agent))" by simp
  qed
qed

subsection \<open>Properties\<close>

text \<open>
  (C26) The reply to a log fetch ends and is exact. When the reader's channel takes frames, the loop
  sends one page per started 64 records (a single empty page when there is none), page \<open>k\<close> holding
  records \<open>64 k\<close> to \<open>64 k + 63\<close>, only the last marked done; the pages joined are exactly the records
  after the requested number that are for everyone or for the reader, in order.
\<close>

theorem log_fetch_pages:
  assumes "\<forall>out f. ev_accepts E out tx f"
    and "rs = map wire_record (filter (\<lambda>r. sl_recipient r = None \<or> sl_recipient r = Some agent)
      (fetch_since (ss_group_log s) (lf_group_id fetch) (lf_since_seq fetch)))"
  shows "ss_out (handle_log_fetch E agent tx fetch s) = ss_out s @
      map (\<lambda>k. (tx, S_LogRecords \<lparr> lr_group_id = lf_group_id fetch, lr_records = take 64 (drop (64 * k) rs),
                                    lr_done = (Suc k = max 1 ((length rs + 63) div 64)) \<rparr>))
        [0..<max 1 ((length rs + 63) div 64)] \<and>
    concat (map (\<lambda>k. take 64 (drop (64 * k) rs)) [0..<max 1 ((length rs + 63) div 64)]) = rs"
proof -
  have rs: "rs = map wire_record (filter (visible_to agent) (fetch_since (ss_group_log s) (lf_group_id fetch) (lf_since_seq fetch)))"
    by (simp add: assms(2) visible_to_def [abs_def])
  obtain n where n: "ss_out (handle_log_fetch E agent tx fetch s) = ss_out s @ take n (pages tx (lf_group_id fetch) rs)"
    "n = page_count rs"
    using send_log_pages [of "ev_accepts E" tx "lf_group_id fetch" rs "ss_out s"] assms(1) unfolding fetch_out rs by auto
  then have "ss_out (handle_log_fetch E agent tx fetch s) = ss_out s @ pages tx (lf_group_id fetch) rs"
    by (simp add: pages_def)
  moreover have "concat (map (\<lambda>k. take 64 (drop (64 * k) rs)) [0..<page_count rs]) = rs"
    using pages_concat [of tx "lf_group_id fetch" rs] by (simp add: pages_def page_def comp_def)
  ultimately show ?thesis unfolding pages_def page_def page_count_def by blast
qed

definition demo_log :: server_state where
  "demo_log = fold (\<lambda>rc. handle_log_append demo_env [1] default_profile 10 0 (\<lambda>_. 7)
       \<lparr> la_group_id = [4], la_kind = Commit, la_recipient = rc, la_payload = [6] \<rparr>)
     [None, Some [2], Some [3]] (server_new 0 (config_defaults [] Nyc))"

theorem log_fetch_pages_witness:
  "length (ss_out (handle_log_fetch demo_env [2] 20 \<lparr> lf_group_id = [4], lf_since_seq = 0 \<rparr> demo_log)) = 1 \<and>
   length (filter (\<lambda>r. sl_recipient r = None \<or> sl_recipient r = Some [2]) (fetch_since (ss_group_log demo_log) [4] 0)) = 2"
proof -
  have ok: "\<forall>out f. ev_accepts demo_env out 20 f" by (simp add: demo_env_def)
  have two: "length (filter (\<lambda>r. sl_recipient r = None \<or> sl_recipient r = Some [2]) (fetch_since (ss_group_log demo_log) [4] 0)) = 2"
    and none: "ss_out demo_log = []" by code_simp+
  from log_fetch_pages [OF ok refl, where agent = "[2]" and s = demo_log and
      fetch = "\<lparr> lf_group_id = [4], lf_since_seq = 0 \<rparr>"] two none
  show ?thesis by simp
qed

end
