(* ===== verification/Relay_Connections.thy ===== *)
theory Relay_Connections
  imports Relay_World_Properties Relay_Log_Fetch
begin

text \<open>
  The session registry and the table of connections agree in every reachable state of the relay:
  what the registry would send to is a live connection of the right agent, so a delivery goes to a
  channel its recipient opened.
\<close>

subsection \<open>The invariant\<close>

abbreviation w_reg :: "world \<Rightarrow> session_registry" where
  "w_reg w \<equiv> ss_sessions (w_state w)"

definition bound_live :: "world \<Rightarrow> bool" where
  "bound_live w \<longleftrightarrow> (\<forall>a sid tx. hm_get (sr_by_agent (w_reg w)) a = Some (sid, tx) \<longrightarrow>
     (\<exists>c. hm_get (w_conns w) sid = Some c \<and> cn_agent c = a \<and> cn_tx c = tx))"

definition watchers_live :: "world \<Rightarrow> bool" where
  "watchers_live w \<longleftrightarrow> (\<forall>a sid tx. (sid, tx) \<in> set (watchers_of (w_reg w) a) \<longrightarrow>
     (\<exists>c. hm_get (w_conns w) sid = Some c \<and> cn_tx c = tx))"

definition conns_wf :: "world \<Rightarrow> bool" where
  "conns_wf w \<longleftrightarrow> hm_wf (w_conns w) \<and> (\<forall>sid. hm_get (w_conns w) sid \<noteq> None \<longrightarrow> sid \<le> sr_next_id (w_reg w)) \<and>
     mt_connections_active (ss_metrics (w_state w)) = of_nat (length (w_conns w))"

definition live_inv :: "world \<Rightarrow> bool" where
  "live_inv w \<longleftrightarrow> watch_inv (w_reg w) \<and> bound_live w \<and> watchers_live w \<and> conns_wf w"

subsection \<open>Steps that leave the sessions alone\<close>

text \<open>
  Two worlds agree on the sessions when their registries are equal, the gauge is equal and each
  connection has the same agent and channel.
\<close>

definition same_sessions :: "world \<Rightarrow> world \<Rightarrow> bool" where
  "same_sessions w w' \<longleftrightarrow> w_reg w' = w_reg w \<and>
     mt_connections_active (ss_metrics (w_state w')) = mt_connections_active (ss_metrics (w_state w)) \<and>
     hm_wf (w_conns w') = hm_wf (w_conns w) \<and> length (w_conns w') = length (w_conns w) \<and>
     (\<forall>sid. map_option (\<lambda>c. (cn_agent c, cn_tx c)) (hm_get (w_conns w') sid) =
            map_option (\<lambda>c. (cn_agent c, cn_tx c)) (hm_get (w_conns w) sid))"

lemma same_sessions_conn:
  "same_sessions w w' \<Longrightarrow> (\<exists>c. hm_get (w_conns w') sid = Some c \<and> P (cn_agent c) (cn_tx c)) \<longleftrightarrow>
     (\<exists>c. hm_get (w_conns w) sid = Some c \<and> P (cn_agent c) (cn_tx c))"
  unfolding same_sessions_def
  by (cases "hm_get (w_conns w) sid"; cases "hm_get (w_conns w') sid") (auto dest!: spec [where x = sid])

lemma same_sessions_live: "same_sessions w w' \<Longrightarrow> live_inv w \<Longrightarrow> live_inv w'"
proof -
  assume same: "same_sessions w w'" and inv: "live_inv w"
  have reg: "w_reg w' = w_reg w" using same by (simp add: same_sessions_def)
  have "bound_live w'" using inv same_sessions_conn [OF same, where P = "\<lambda>a t. a = x \<and> t = y" for x y]
    by (simp add: live_inv_def bound_live_def reg)
  moreover have "watchers_live w'" using inv same_sessions_conn [OF same, where P = "\<lambda>a t. t = y" for y]
    by (simp add: live_inv_def watchers_live_def reg)
  moreover have "hm_get (w_conns w') sid \<noteq> None \<longleftrightarrow> hm_get (w_conns w) sid \<noteq> None" for sid
    using same_sessions_conn [OF same, where P = "\<lambda>_ _. True" and sid = sid] by simp
  then have "conns_wf w'" using inv same by (simp add: live_inv_def conns_wf_def same_sessions_def reg)
  ultimately show ?thesis using inv by (simp add: live_inv_def reg)
qed

lemma handle_send_active [simp]:
  "mt_connections_active (ss_metrics (handle_send E agent caps tx now clk f s)) = mt_connections_active (ss_metrics s)"
  unfolding handle_send_def Let_def by (auto simp: metric_defs split: prod.splits sum.splits)

lemma handle_log_append_active [simp]:
  "mt_connections_active (ss_metrics (handle_log_append E agent caps tx now clk a s)) = mt_connections_active (ss_metrics s)"
  unfolding handle_log_append_def Let_def by (auto simp: metric_defs split: prod.splits sum.splits)

lemma frame_active:
  "mt_connections_active (ss_metrics (snd (handle_client_frame E agent caps tx sid now clk fr s))) =
     mt_connections_active (ss_metrics s)"
  by (cases fr) (auto simp: handle_client_frame_def metric_defs split: prod.splits)

definition watch_change :: "accepts \<Rightarrow> session_id \<Rightarrow> chan \<Rightarrow> watch_presence \<Rightarrow> session_registry \<times> outbound
    \<Rightarrow> session_registry" where
  "watch_change A sid tx wp st =
     (let r = fst (if wp_add wp \<noteq> [] then add_watches A sid tx (wp_add wp) st else st)
      in if wp_remove wp \<noteq> [] then remove_watches sid (wp_remove wp) r else r)"

lemma frame_sessions:
  "ss_sessions (snd (handle_client_frame E agent caps tx sid now clk fr s)) =
     (case fr of C_WatchPresence wp \<Rightarrow> watch_change (ev_accepts E) sid tx wp (ss_sessions s, ss_out s) | _ \<Rightarrow> ss_sessions s)"
  by (cases fr) (auto simp: handle_client_frame_def watch_change_def split: prod.splits)

lemma add_loop_kept [simp]: "sr_next_id (fst (add_watch_loop A sid tx as r out)) = sr_next_id r"
  by (induction A sid tx as r out rule: add_watch_loop.induct) (auto simp: Let_def)

lemma next_id_kept [simp]:
  "sr_next_id (fst (add_watches A sid tx as (r, out))) = sr_next_id r"
  "sr_next_id (remove_watches sid as r) = sr_next_id r" "sr_next_id (drop_all_watches sid r) = sr_next_id r"
  by (auto simp: add_watches_def remove_watches_def drop_all_watches_def fold_unwatch(3) Let_def split: option.split)

lemma add_loop_watchers:
  "x \<in> set (watchers_of (fst (add_watch_loop A sid tx as r out)) a) \<Longrightarrow> x \<in> set (watchers_of r a) \<or> x = (sid, tx)"
proof (induction A sid tx as r out rule: add_watch_loop.induct)
  case (2 A sid tx agent agents r out)
  let ?r = "r\<lparr> sr_watches_by_session := hm_insert sid (watches_of r sid @ [agent]) (sr_watches_by_session r),
               sr_watchers := hm_insert agent (watchers_of r agent @ [(sid, tx)]) (sr_watchers r) \<rparr>"
  have "watchers_of ?r a = (if a = agent then watchers_of r agent @ [(sid, tx)] else watchers_of r a)"
    by (simp add: watchers_of_def hm_simps)
  then show ?case using 2 by (auto simp: Let_def split: if_splits)
qed simp

lemma remove_watchers: "x \<in> set (watchers_of (remove_watches sid as r) a) \<Longrightarrow> x \<in> set (watchers_of r a)"
  by (auto simp: remove_watches_def Let_def fold_unwatch(6) split: option.splits if_splits)

lemma watch_change_watchers:
  "x \<in> set (watchers_of (watch_change A sid tx wp (r, out)) a) \<Longrightarrow> x \<in> set (watchers_of r a) \<or> x = (sid, tx)"
  by (auto simp: watch_change_def Let_def add_watches_def split: if_splits dest!: remove_watchers add_loop_watchers)

lemma watch_change_kept [simp]:
  "sr_by_agent (watch_change A sid tx wp (r, out)) = sr_by_agent r"
  "sr_next_id (watch_change A sid tx wp (r, out)) = sr_next_id r"
  "watch_inv r \<Longrightarrow> watch_inv (watch_change A sid tx wp (r, out))"
  by (simp_all add: watch_change_def Let_def add_watch remove_watch)

lemma watch_live:
  assumes inv: "live_inv w" and c: "hm_get (w_conns w) sid = Some c"
    and w': "w_reg w' = watch_change A sid (cn_tx c) wp (w_reg w, out)" "w_conns w' = w_conns w"
      "mt_connections_active (ss_metrics (w_state w')) = mt_connections_active (ss_metrics (w_state w))"
  shows "live_inv w'"
proof -
  have "watchers_live w'" unfolding watchers_live_def
  proof (intro allI impI)
    fix a i t assume "(i, t) \<in> set (watchers_of (w_reg w') a)"
    then have "(i, t) \<in> set (watchers_of (w_reg w) a) \<or> (i, t) = (sid, cn_tx c)"
      unfolding w' by (rule watch_change_watchers)
    then show "\<exists>c. hm_get (w_conns w') i = Some c \<and> cn_tx c = t"
      using inv c by (auto simp: live_inv_def watchers_live_def w')
  qed
  then show ?thesis using inv by (simp add: live_inv_def bound_live_def conns_wf_def w')
qed

subsection \<open>Closing and opening a connection\<close>

definition closed_reg :: "accepts \<Rightarrow> relay_id \<Rightarrow> session_id \<Rightarrow> session_registry \<times> outbound \<Rightarrow> session_registry" where
  "closed_reg A agent sid st = fst (unregister A agent sid (drop_all_watches sid (fst st), snd st))"

lemma close_fields:
  "ss_sessions (close_session E agent sid s) = closed_reg (ev_accepts E) agent sid (ss_sessions s, ss_out s)"
  "mt_connections_active (ss_metrics (close_session E agent sid s)) = mt_connections_active (ss_metrics s) - 1"
  by (simp_all add: close_session_def closed_reg_def Let_def connection_closed_def split: prod.splits)

lemma closed_by_agent:
  "hm_get (sr_by_agent (closed_reg A agent sid (r, out))) a =
     (if a = agent \<and> (\<exists>tx. hm_get (sr_by_agent r) agent = Some (sid, tx)) then None else hm_get (sr_by_agent r) a)"
  by (auto simp: closed_reg_def unregister_def Let_def hm_simps split: option.split prod.split)

lemma closed_kept:
  "sr_next_id (closed_reg A agent sid (r, out)) = sr_next_id r"
  "watchers_of (closed_reg A agent sid (r, out)) a = watchers_of (drop_all_watches sid r) a"
  "watch_inv r \<Longrightarrow> watch_inv (closed_reg A agent sid (r, out))"
  using unregister_watch [OF drop_watch(1)]
  by (auto simp: closed_reg_def unregister_def Let_def split: option.split prod.split)

lemma dropped_watchers:
  assumes "watch_inv r" "(i, tx) \<in> set (watchers_of (drop_all_watches sid r) a)"
  shows "i \<noteq> sid \<and> (i, tx) \<in> set (watchers_of r a)"
proof
  have "watch_inv (drop_all_watches sid r)" "watches_of (drop_all_watches sid r) sid = []"
    using drop_watch [OF assms(1)] by auto
  then show "i \<noteq> sid" using assms(2) by (force simp: watch_inv_def)
  show "(i, tx) \<in> set (watchers_of r a)"
    using assms(2) by (auto simp: drop_all_watches_def fold_unwatch(6) split: option.splits if_splits)
qed

lemma hm_length_remove:
  "hm_wf m \<Longrightarrow> hm_get m k = Some v \<Longrightarrow> Suc (length (hm_remove k m)) = length m"
  unfolding hm_wf_def hm_get_def hm_remove_def AList.delete_eq
  by (induction m) (force simp: filter_id_conv split: if_splits intro!: arg_cong [where f = length])+

lemma hm_length_insert:
  "length (hm_insert k v m) = (if hm_get m k = None then Suc (length m) else length m)"
  unfolding hm_get_def hm_insert_def by (induction m) auto

lemma end_live:
  assumes inv: "live_inv w"
  shows "live_inv (end_session E sid w)"
proof (cases "hm_get (w_conns w) sid")
  case (Some c)
  let ?w = "end_session E sid w" and ?r = "closed_reg (ev_accepts E) (cn_agent c) sid (w_reg w, ss_out (w_state w))"
  have w: "w_reg ?w = ?r" "w_conns ?w = hm_remove sid (w_conns w)"
    "mt_connections_active (ss_metrics (w_state ?w)) = mt_connections_active (ss_metrics (w_state w)) - 1"
    by (simp_all add: end_session_def Some close_fields)
  have wi: "watch_inv (w_reg w)" and bl: "bound_live w" and wl: "watchers_live w" and cw: "conns_wf w"
    using inv by (simp_all add: live_inv_def)
  have "bound_live ?w" unfolding bound_live_def w
  proof (intro allI impI)
    fix a i tx assume b: "hm_get (sr_by_agent ?r) a = Some (i, tx)"
    then have old: "hm_get (sr_by_agent (w_reg w)) a = Some (i, tx)" by (auto simp: closed_by_agent split: if_splits)
    then obtain c' where c': "hm_get (w_conns w) i = Some c'" "cn_agent c' = a" "cn_tx c' = tx"
      using bl unfolding bound_live_def by blast
    then have "i \<noteq> sid" using b old Some by (auto simp: closed_by_agent)
    then show "\<exists>c. hm_get (hm_remove sid (w_conns w)) i = Some c \<and> cn_agent c = a \<and> cn_tx c = tx"
      using c' by (simp add: hm_simps)
  qed
  moreover have "watchers_live ?w" unfolding watchers_live_def w closed_kept
    using dropped_watchers [OF wi] wl by (fastforce simp: watchers_live_def hm_simps)
  moreover have "length (w_conns w) = Suc (length (hm_remove sid (w_conns w)))"
    using cw Some by (simp add: conns_wf_def hm_length_remove)
  then have "conns_wf ?w" using cw unfolding conns_wf_def w closed_kept by (simp add: hm_simps)
  ultimately show ?thesis using closed_kept(3) [OF wi] by (simp add: live_inv_def w)
qed (simp add: end_session_def inv)

lemma upgrade_fields:
  "ss_sessions (snd (ws_handler now hdr q s)) = ss_sessions s" "ss_metrics (snd (ws_handler now hdr q s)) = ss_metrics s"
  "ss_out (snd (ws_handler now hdr q s)) = ss_out s" "ss_transit (snd (ws_handler now hdr q s)) = ss_transit s"
  by (auto simp: ws_handler_def split: option.splits prod.splits)

lemma register_fields:
  "fst (register A a tx (r, out)) = u64_wrap_add (sr_next_id r) 1"
  "sr_next_id (fst (snd (register A a tx (r, out)))) = u64_wrap_add (sr_next_id r) 1"
  "sr_by_agent (fst (snd (register A a tx (r, out)))) = hm_insert a (u64_wrap_add (sr_next_id r) 1, tx) (sr_by_agent r)"
  "watchers_of (fst (snd (register A a tx (r, out)))) b = watchers_of r b"
  by (simp_all add: register_def Let_def split: option.split)

lemma open_None: "fst (open_session E greet auth h tx clk s) = None \<Longrightarrow> snd (open_session E greet auth h tx clk s) = s"
  by (auto simp: open_session_def Let_def split: option.splits sum.splits prod.splits if_splits)

lemma open_Some:
  assumes "open_session E greet auth h tx clk s = (Some (sid, caps), s')"
  shows "sid = u64_wrap_add (sr_next_id (ss_sessions s)) 1 \<and>
    ss_sessions s' = fst (snd (register (ev_accepts E) (at_agent_id auth) tx (ss_sessions s, ss_out s))) \<and>
    mt_connections_active (ss_metrics s') = mt_connections_active (ss_metrics s) + 1 \<and>
    ss_transit s' = ss_transit s \<and>
    ss_out s' = snd (replay_transit (ev_accepts E) tx (clk 1)
       (take replay_batch_max (read_all (ss_transit s) (at_agent_id auth)))
       (snd (snd (register (ev_accepts E) (at_agent_id auth) tx (ss_sessions s, ss_out s)))))"
proof -
  obtain i r out where reg: "register (ev_accepts E) (at_agent_id auth) tx (ss_sessions s, ss_out s) = (i, r, out)"
    by (metis prod_cases3)
  have i: "i = u64_wrap_add (sr_next_id (ss_sessions s)) 1"
    using register_fields(1) [of "ev_accepts E" "at_agent_id auth" tx "ss_sessions s" "ss_out s"] reg by simp
  show ?thesis using assms unfolding open_session_def reg i
    by (auto simp: Let_def pushes_ledger connection_opened_def split: option.splits sum.splits prod.splits if_splits)
qed

lemma open_live:
  assumes inv: "live_inv w" and room: "sr_next_id (w_reg w) < u64_max"
    and reg: "w_reg w' = fst (snd (register A (cn_agent c) (cn_tx c) (w_reg w, out)))"
      "sid = u64_wrap_add (sr_next_id (w_reg w)) 1" "w_conns w' = hm_insert sid c (w_conns w)"
      "mt_connections_active (ss_metrics (w_state w')) = mt_connections_active (ss_metrics (w_state w)) + 1"
  shows "live_inv w'"
proof -
  have sid: "sid = Suc (sr_next_id (w_reg w))" using room by (simp add: reg(2) u64_wrap_add_def)
  have wi: "watch_inv (w_reg w)" and bl: "bound_live w" and wl: "watchers_live w" and cw: "conns_wf w"
    using inv by (simp_all add: live_inv_def)
  have fresh: "hm_get (w_conns w) sid = None" using cw sid unfolding conns_wf_def by fastforce
  then have other: "hm_get (w_conns w) i = Some c' \<Longrightarrow> i \<noteq> sid" for i c' by auto
  have "bound_live w'" unfolding bound_live_def reg(1,3) register_fields hm_simps
  proof (intro allI impI)
    fix a i tx
    assume "(if a = cn_agent c then Some (u64_wrap_add (sr_next_id (w_reg w)) 1, cn_tx c)
        else hm_get (sr_by_agent (w_reg w)) a) = Some (i, tx)"
    then consider "a = cn_agent c" "i = sid" "tx = cn_tx c" | "hm_get (sr_by_agent (w_reg w)) a = Some (i, tx)"
      by (auto simp: reg(2) split: if_splits)
    then show "\<exists>c'. (if i = sid then Some c else hm_get (w_conns w) i) = Some c' \<and> cn_agent c' = a \<and> cn_tx c' = tx"
    proof cases
      case 2
      then show ?thesis using bl other unfolding bound_live_def by metis
    qed simp
  qed
  moreover have "watchers_live w'" unfolding watchers_live_def reg(1,3) register_fields hm_simps
    using wl other unfolding watchers_live_def by metis
  moreover have next_id: "sr_next_id (w_reg w') = sid" unfolding reg(1,2) by (rule register_fields(2))
  have "conns_wf w'" unfolding conns_wf_def next_id reg(3,4)
  proof (intro conjI allI impI)
    show "hm_wf (hm_insert sid c (w_conns w))" using cw by (simp add: conns_wf_def)
    show "i \<le> sid" if "hm_get (hm_insert sid c (w_conns w)) i \<noteq> None" for i
      using that cw unfolding conns_wf_def by (cases "i = sid") (auto simp: hm_simps sid intro: le_SucI)
    show "mt_connections_active (ss_metrics (w_state w)) + 1 = of_nat (length (hm_insert sid c (w_conns w)))"
      using cw fresh by (simp add: conns_wf_def hm_length_insert)
  qed
  ultimately show ?thesis using register_watch [OF wi] reg(1) by (simp add: live_inv_def)
qed

subsection \<open>Every step\<close>

text \<open>The state after the frame of a message, before the loop decides whether to go on.\<close>

lemma io_step_conn:
  assumes "run_io_step E dec sid now ms clk msg c s = (ex, c', s')"
  shows "cn_agent c' = cn_agent c" "cn_tx c' = cn_tx c"
    "mt_connections_active (ss_metrics s') = mt_connections_active (ss_metrics s)"
    "ss_sessions s' = ss_sessions s \<or> (\<exists>wp. ss_sessions s' = watch_change (ev_accepts E) sid (cn_tx c) wp (ss_sessions s, ss_out s))"
proof -
  have "s' = s \<or> (\<exists>fr. s' = snd (handle_client_frame E (cn_agent c) (cn_caps c) (cn_tx c) sid now clk fr s))"
    using assms by (auto simp: run_io_step_def split: option.splits ws_message.splits prod.splits) (metis snd_conv)+
  then show "mt_connections_active (ss_metrics s') = mt_connections_active (ss_metrics s)"
    "ss_sessions s' = ss_sessions s \<or> (\<exists>wp. ss_sessions s' = watch_change (ev_accepts E) sid (cn_tx c) wp (ss_sessions s, ss_out s))"
    by (auto simp: frame_active frame_sessions split: client_frame.split) blast+
  show "cn_agent c' = cn_agent c" "cn_tx c' = cn_tx c"
    using assms by (auto simp: run_io_step_def split: option.splits ws_message.splits prod.splits)
qed

lemma same_sessionsI:
  "w_reg w' = w_reg w \<Longrightarrow> w_conns w' = w_conns w \<Longrightarrow>
   mt_connections_active (ss_metrics (w_state w')) = mt_connections_active (ss_metrics (w_state w)) \<Longrightarrow> same_sessions w w'"
  by (simp add: same_sessions_def)

lemma io_live:
  assumes "live_inv w" "hm_get (w_conns w) sid = Some c" "run_io_step E dec sid now ms clk msg c (w_state w) = (ex, c', s')"
  shows "live_inv (w\<lparr> w_state := s' \<rparr>)"
  using io_step_conn(4) [OF assms(3)]
proof
  assume "ss_sessions s' = w_reg w"
  then show ?thesis using same_sessions_live [OF same_sessionsI assms(1)] io_step_conn(3) [OF assms(3)] by simp
next
  assume "\<exists>wp. ss_sessions s' = watch_change (ev_accepts E) sid (cn_tx c) wp (w_reg w, ss_out (w_state w))"
  then obtain wp where "ss_sessions s' = watch_change (ev_accepts E) sid (cn_tx c) wp (w_reg w, ss_out (w_state w))" ..
  then show ?thesis using io_step_conn(3) [OF assms(3)] by (intro watch_live [OF assms(1,2)]) simp_all
qed

lemma conn_update_live:
  assumes "live_inv w" "hm_get (w_conns w) sid = Some c" "cn_agent c' = cn_agent c" "cn_tx c' = cn_tx c"
  shows "live_inv (w\<lparr> w_conns := hm_insert sid c' (w_conns w) \<rparr>)"
proof (rule same_sessions_live [OF _ assms(1)])
  show "same_sessions w (w\<lparr> w_conns := hm_insert sid c' (w_conns w) \<rparr>)"
    using assms by (auto simp: same_sessions_def live_inv_def conns_wf_def hm_simps hm_length_insert)
qed

lemma quiet_fields:
  "ss_sessions (sweeper_tick now clk s) = ss_sessions s"
  "mt_connections_active (ss_metrics (sweeper_tick now clk s)) = mt_connections_active (ss_metrics s)"
  "ss_sessions (snd (auth_challenge_endpoint bs now unix s)) = ss_sessions s"
  "mt_connections_active (ss_metrics (snd (auth_challenge_endpoint bs now unix s))) = mt_connections_active (ss_metrics s)"
  "ss_sessions (snd (auth_verify_endpoint E now unix rnd req s)) = ss_sessions s"
  "mt_connections_active (ss_metrics (snd (auth_verify_endpoint E now unix rnd req s))) = mt_connections_active (ss_metrics s)"
  by (auto simp: sweeper_tick_def auth_challenge_endpoint_def auth_verify_endpoint_def Let_def metric_defs
      split: prod.splits sum.splits)

lemma upgrade_live:
  assumes inv: "live_inv w" and room: "sr_next_id (w_reg w) < u64_max"
  shows "live_inv (world_step E B J dec w (W_Upgrade now ms hdr query msgs tx clk greet))"
proof -
  obtain auth s where up: "ws_handler now hdr query (w_state w) = (auth, s)" by fastforce
  have s: "ss_sessions s = w_reg w" "ss_metrics s = ss_metrics (w_state w)" "ss_out s = ss_out (w_state w)"
    using upgrade_fields [of now hdr query "w_state w"] up by simp_all
  have same: "live_inv (w\<lparr> w_state := s \<rparr>)"
    by (rule same_sessions_live [OF same_sessionsI inv]) (simp_all add: s)
  show ?thesis
  proof (cases auth)
    case None
    then show ?thesis using same up by simp
  next
    case (Some a)
    obtain res s' where op: "open_session E greet a (await_hello_inner dec msgs) tx clk s = (res, s')" by fastforce
    show ?thesis
    proof (cases res)
      case None
      then have "s' = s" using open_None op by (metis fst_conv snd_conv)
      then show ?thesis using same up op Some None by simp
    next
      case (Some r)
      obtain sid caps where r: "r = (sid, caps)" by fastforce
      let ?c = "\<lparr> cn_agent = at_agent_id a, cn_caps = caps, cn_tx = tx, cn_pong = pong_clock_new ms \<rparr>"
      have step: "world_step E B J dec w (W_Upgrade now ms hdr query msgs tx clk greet) =
          w\<lparr> w_state := s', w_conns := hm_insert sid ?c (w_conns w) \<rparr>"
        using up \<open>auth = Some a\<close> op Some r by simp
      note o = open_Some [OF op [unfolded Some r], unfolded s]
      show ?thesis unfolding step
        by (rule open_live [OF inv room, where c = ?c and A = "ev_accepts E" and out = "ss_out (w_state w)" and sid = sid])
           (use o in auto)
    qed
  qed
qed

lemma step_live:
  assumes inv: "live_inv w" and room: "sr_next_id (w_reg w) < u64_max"
  shows "live_inv (world_step E B J dec w op)"
proof (cases op)
  case (W_Upgrade now ms hdr query msgs tx clk greet)
  then show ?thesis using upgrade_live [OF assms] by simp
next
  case (W_Receive sid now ms clk msg)
  show ?thesis
  proof (cases "hm_get (w_conns w) sid")
    case (Some c)
    obtain ex c' s' where io: "run_io_step E dec sid now ms clk msg c (w_state w) = (ex, c', s')" by (metis prod_cases3)
    have live: "live_inv (w\<lparr> w_state := s' \<rparr>)" by (rule io_live [OF inv Some io])
    show ?thesis
    proof (cases ex)
      case None
      have "live_inv (w\<lparr> w_state := s', w_conns := hm_insert sid c' (w_conns w) \<rparr>)"
        using conn_update_live [OF live _ io_step_conn(1,2) [OF io], of sid] Some by simp
      then show ?thesis using W_Receive Some io None by simp
    next
      case (Some x)
      then show ?thesis using W_Receive \<open>hm_get (w_conns w) sid = Some c\<close> io end_live [OF live] by simp
    qed
  qed (use W_Receive inv in simp)
next
  case (W_PingTick sid ms)
  then show ?thesis using inv end_live [OF inv] by (simp split: option.split)
next
  case (W_WriterExit sid)
  then show ?thesis using end_live [OF inv] by simp
next
  case (W_Index iop)
  then show ?thesis
    by (intro same_sessions_live [OF same_sessionsI inv]) (simp_all add: Let_def split: prod.split)
next
  case (W_Sweep now clk)
  then show ?thesis by (intro same_sessions_live [OF same_sessionsI inv]) (simp_all add: quiet_fields)
next
  case (W_Challenge bs now unix)
  then show ?thesis by (intro same_sessions_live [OF same_sessionsI inv]) (simp_all add: quiet_fields)
next
  case (W_Verify now unix rnd req)
  then show ?thesis by (intro same_sessions_live [OF same_sessionsI inv]) (simp_all add: quiet_fields)
qed

subsection \<open>Runs\<close>

lemma end_next_id: "sr_next_id (w_reg (end_session E sid w)) = sr_next_id (w_reg w)"
  by (simp add: end_session_def close_fields closed_kept split: option.split)

lemma wrap_le: "u64_wrap_add n 1 \<le> Suc n"
  by (simp add: u64_wrap_add_def)

lemma step_next_id: "sr_next_id (w_reg (world_step E B J dec w op)) \<le> Suc (sr_next_id (w_reg w))"
proof (cases op)
  case (W_Upgrade now ms hdr query msgs tx clk greet)
  obtain auth s where up: "ws_handler now hdr query (w_state w) = (auth, s)" by fastforce
  have s: "ss_sessions s = w_reg w" using upgrade_fields(1) [of now hdr query "w_state w"] up by simp
  show ?thesis
  proof (cases auth)
    case (Some a)
    obtain res s' where op: "open_session E greet a (await_hello_inner dec msgs) tx clk s = (res, s')" by fastforce
    have "sr_next_id (ss_sessions s') \<le> Suc (sr_next_id (w_reg w))"
    proof (cases res)
      case None
      then have "s' = s" using open_None op by (metis fst_conv snd_conv)
      then show ?thesis by (simp add: s)
    next
      case (Some r)
      then obtain sid caps where "res = Some (sid, caps)" by (cases r) simp
      then have "ss_sessions s' = fst (snd (register (ev_accepts E) (at_agent_id a) tx (ss_sessions s, ss_out s)))"
        using open_Some op by blast
      then show ?thesis using register_fields(2) wrap_le s by metis
    qed
    then show ?thesis using up op Some W_Upgrade by (simp split: option.split)
  qed (use W_Upgrade up s in simp)
next
  case (W_Receive sid now ms clk msg)
  show ?thesis
  proof (cases "hm_get (w_conns w) sid")
    case (Some c)
    obtain ex c' s' where io: "run_io_step E dec sid now ms clk msg c (w_state w) = (ex, c', s')" by (metis prod_cases3)
    have "sr_next_id (ss_sessions s') = sr_next_id (w_reg w)" using io_step_conn(4) [OF io] by auto
    then show ?thesis using W_Receive Some io end_next_id [of E sid "w\<lparr> w_state := s' \<rparr>"] by (simp split: option.split)
  qed (use W_Receive in simp)
next
  case (W_PingTick sid ms)
  then show ?thesis by (simp add: end_next_id split: option.split)
next
  case (W_Index iop)
  then show ?thesis by (simp add: Let_def split: prod.split)
qed (simp_all add: end_next_id quiet_fields)

lemma new_live: "live_inv (world_new now cf)"
  using watch_inv_new
  by (simp add: live_inv_def world_new_def server_new_def bound_live_def watchers_live_def conns_wf_def
      registry_new_def watchers_of_def metrics_new_def)

lemma run_live:
  "length ops < 2 ^ 64 \<Longrightarrow> live_inv (world_run E B J dec (world_new now cf) ops) \<and>
     sr_next_id (w_reg (world_run E B J dec (world_new now cf) ops)) \<le> length ops"
proof (induction ops rule: rev_induct)
  case Nil
  then show ?case using new_live by (simp add: world_new_def server_new_def registry_new_def)
next
  case (snoc op ops)
  let ?w = "world_run E B J dec (world_new now cf) ops"
  have inv: "live_inv ?w" and n: "sr_next_id (w_reg ?w) \<le> length ops" using snoc by simp_all
  moreover have "sr_next_id (w_reg ?w) < u64_max" using n snoc.prems by simp
  ultimately show ?case
    using step_live [of ?w E B J dec op] step_next_id [of E B J dec ?w op] by simp
qed

text \<open>
  (C22) No ghost sessions. In every state the relay reaches within fewer than \<open>2 ^ 64\<close> events, an agent
  is bound only to a live connection that authenticated as that agent, on that connection's
  channel; every presence watcher is a live connection with its channel; and the gauge of active
  connections is the number of live connections. So a connection that ended, in whichever way,
  leaves nothing behind to which the relay would still send.
\<close>

theorem no_ghost_sessions:
  assumes "length ops < 2 ^ 64" and "w = world_run E B J dec (world_new now cf) ops"
  shows "(\<forall>a sid tx. hm_get (sr_by_agent (ss_sessions (w_state w))) a = Some (sid, tx) \<longrightarrow>
       (\<exists>c. hm_get (w_conns w) sid = Some c \<and> cn_agent c = a \<and> cn_tx c = tx)) \<and>
     (\<forall>a sid tx. (sid, tx) \<in> set (watchers_of (ss_sessions (w_state w)) a) \<longrightarrow>
       (\<exists>c. hm_get (w_conns w) sid = Some c \<and> cn_tx c = tx)) \<and>
     mt_connections_active (ss_metrics (w_state w)) = of_nat (length (w_conns w))"
  using run_live [OF assms(1), of E B J dec now cf] unfolding assms(2) [symmetric]
  by (simp add: live_inv_def bound_live_def watchers_live_def conns_wf_def)

theorem no_ghost_sessions_witness:
  "hm_get (sr_by_agent (ss_sessions (w_state (demo_run (demo_login 1 10 @ demo_login 1 20 @ [W_WriterExit 1]))))) [1] =
     Some (2, 20) \<and>
   (\<exists>c. hm_get (w_conns (demo_run (demo_login 1 10 @ demo_login 1 20 @ [W_WriterExit 1]))) 2 = Some c \<and>
      cn_agent c = [1] \<and> cn_tx c = 20)"
proof -
  let ?ops = "demo_login 1 10 @ demo_login 1 20 @ [W_WriterExit 1]"
  have bound: "hm_get (sr_by_agent (ss_sessions (w_state (demo_run ?ops)))) [1] = Some (2, 20)" by code_simp
  have "length ?ops < 2 ^ 64" by (simp add: demo_login_def)
  from no_ghost_sessions [OF this demo_run_def] bound show ?thesis by blast
qed

subsection \<open>Where deliveries go\<close>

text \<open>\<open>emits P\<close>: the output only grew, by frames that satisfy \<open>P\<close>.\<close>

definition emits :: "(chan \<Rightarrow> server_frame \<Rightarrow> bool) \<Rightarrow> outbound \<Rightarrow> outbound \<Rightarrow> bool" where
  "emits P out out' \<longleftrightarrow> (\<exists>new. out' = out @ new \<and> (\<forall>(tx, f) \<in> set new. P tx f))"

lemma emits_refl [simp]: "emits P out out"
  by (simp add: emits_def)

lemma emits_trans: "emits P a b \<Longrightarrow> emits P b c \<Longrightarrow> emits P a c"
  by (auto simp: emits_def)

lemma emits_mono: "emits P a b \<Longrightarrow> (\<And>tx f. P tx f \<Longrightarrow> Q tx f) \<Longrightarrow> emits Q a b"
  by (fastforce simp: emits_def)

lemma emits_try: "P tx f \<Longrightarrow> emits P out (snd (try_send A tx f out))"
  by (auto simp: emits_def try_send_def)

lemma emits_foldl:
  "(\<And>x out. x \<in> set xs \<Longrightarrow> emits P out (g out x)) \<Longrightarrow> emits P out (foldl g out xs)"
proof (induction xs arbitrary: out)
  case (Cons x xs)
  have "emits P out (g out x)" "emits P (g out x) (foldl g (g out x) xs)" using Cons by simp_all
  then show ?case using emits_trans by simp
qed simp

fun quiet :: "chan \<Rightarrow> server_frame \<Rightarrow> bool" where
  "quiet tx (S_Deliver _) = False"
| "quiet tx (S_LogRecords _) = False"
| "quiet tx _ = True"

lemma quiet_presence: "emits quiet out (broadcast_presence A agent on r out)"
  unfolding broadcast_presence_def
  by (auto split: option.split intro!: emits_foldl emits_try)

lemma quiet_register: "emits quiet out (snd (snd (register A a tx (r, out))))"
  by (auto simp: register_def Let_def quiet_presence intro!: emits_try split: option.split)

lemma quiet_unregister: "emits quiet out (snd (unregister A a i (r, out)))"
  by (auto simp: unregister_def Let_def quiet_presence split: option.split)

lemma quiet_add_loop: "emits quiet out (snd (add_watch_loop A sid tx as r out))"
proof (induction A sid tx as r out rule: add_watch_loop.induct)
  case (2 A sid tx agent agents r out)
  have "emits quiet out (snd (try_send A tx (S_PresenceUpdate \<lparr> pu_agent_id = agent, pu_online = is_online r agent \<rparr>) out))"
    by (rule emits_try) simp
  then show ?case using 2 by (auto simp: Let_def intro: emits_trans)
qed simp

lemma quiet_close: "emits quiet (ss_out s) (ss_out (close_session E agent sid s))"
  using quiet_unregister [of "ss_out s" "ev_accepts E" agent sid "drop_all_watches sid (ss_sessions s)"]
  by (auto simp: close_session_def Let_def split: prod.splits)

lemma quiet_end: "emits quiet (ss_out (w_state w)) (ss_out (w_state (end_session E sid w)))"
  by (simp add: end_session_def quiet_close split: option.split)

lemma quiet_reply: "quiet tx f \<Longrightarrow> ss_out s0 = out \<Longrightarrow> emits quiet out (ss_out (reply E tx f s0))"
  using emits_try [of quiet tx f] by (auto simp: reply_def)

lemma quiet_append: "emits quiet (ss_out s) (ss_out (handle_log_append E agent caps tx now clk a s))"
  unfolding handle_log_append_def Let_def throttle_reply_def
  by (auto intro!: quiet_reply split: prod.split sum.split)

lemma quiet_frame:
  "(\<And>f. fr \<noteq> C_Send f) \<Longrightarrow> (\<And>l. fr \<noteq> C_LogFetch l) \<Longrightarrow>
   emits quiet (ss_out s) (ss_out (snd (handle_client_frame E agent caps tx sid now clk fr s)))"
proof (cases fr)
  case (C_Ping p)
  then show ?thesis using emits_try [of quiet tx "S_Pong \<lparr> po_nonce = pi_nonce p \<rparr>" "ss_out s" "ev_accepts E"]
    by (simp add: handle_client_frame_def split: prod.split) (metis snd_conv)
next
  case (C_WatchPresence wp)
  let ?st = "if wp_add wp \<noteq> [] then add_watches (ev_accepts E) sid tx (wp_add wp) (ss_sessions s, ss_out s)
      else (ss_sessions s, ss_out s)"
  obtain r out where st: "?st = (r, out)" by fastforce
  have "emits quiet (ss_out s) (snd ?st)" by (simp add: add_watches_def quiet_add_loop)
  then have "emits quiet (ss_out s) out" unfolding st by simp
  then show ?thesis unfolding handle_client_frame_def C_WatchPresence client_frame.case st Let_def by simp
next
  case (C_TransitAck a)
  then show ?thesis by (simp add: handle_client_frame_def split: prod.split)
qed (auto simp: handle_client_frame_def quiet_append)

text \<open>
  A frame is addressed right when its channel belongs to a live connection and the frame carries
  only what is stored for that connection's agent, or for everyone in a group log.
\<close>

fun addressed :: "world \<Rightarrow> chan \<Rightarrow> server_frame \<Rightarrow> bool" where
  "addressed w tx (S_Deliver d) =
     (\<exists>sid c x. hm_get (w_conns w) sid = Some c \<and> cn_tx c = tx \<and>
        x \<in> set (read_all (ss_transit (w_state w)) (cn_agent c)) \<and>
        se_id x = dl_transit_seq d \<and> se_envelope x = dl_envelope d)"
| "addressed w tx (S_LogRecords l) =
     (\<exists>sid c. hm_get (w_conns w) sid = Some c \<and> cn_tx c = tx \<and>
        (\<forall>r \<in> set (lr_records l). lw_recipient r = None \<or> lw_recipient r = Some (cn_agent c)))"
| "addressed w tx _ = True"

lemma quiet_addressed: "emits quiet a b \<Longrightarrow> emits (addressed w) a b"
proof (rule emits_mono)
  show "addressed w tx f" if "quiet tx f" for tx f using that by (cases f) simp_all
qed

lemma quiet_outs:
  "ss_out (sweeper_tick now clk s) = ss_out s"
  "ss_out (snd (auth_challenge_endpoint bs now unix s)) = ss_out s"
  "ss_out (snd (auth_verify_endpoint E now unix rnd req s)) = ss_out s"
  by (auto simp: sweeper_tick_def auth_challenge_endpoint_def auth_verify_endpoint_def Let_def split: prod.splits sum.splits)

text \<open>A deposit from a live connection pushes only to a live connection of the recipient.\<close>

lemma send_addressed:
  assumes inv: "live_inv w" and books: "books_inv (w_state w)"
    and w': "w_state w' = handle_send E agent caps tx now clk f (w_state w)" "same_sessions w w'"
  shows "emits (addressed w') (ss_out (w_state w)) (ss_out (w_state w'))"
proof (cases rule: deposit_outcome [of E agent caps now f "w_state w" tx clk])
  case silent
  then show ?thesis by (simp add: w')
next
  case (refused fr)
  then have "addressed w' tx fr" by (cases fr) simp_all
  with refused show ?thesis by (auto simp: w' answered_def emits_def)
next
  case (acked d i)
  have inv_t: "transit_inv (ss_transit (w_state w))" using books by (simp add: books_inv_def)
  let ?x = "\<lparr> se_id = i, se_envelope = sf_envelope f, se_enqueued_at_ms = clk 1 \<rparr>"
  have x: "?x \<in> set (read_all (ss_transit (w_state w')) (sf_to f))"
    using tb.enq_ok [OF inv_t acked(6), of "sf_to f"] by (simp add: w'(1))
  have "\<forall>(t, fr) \<in> set d. addressed w' t fr"
  proof (cases d)
    case (Cons p ps)
    then obtain sid t where b: "hm_get (sr_by_agent (w_reg w)) (sf_to f) = Some (sid, t)"
      and d: "d = [(t, S_Deliver \<lparr> dl_envelope = sf_envelope f, dl_transit_seq = i, dl_delivered_at_ms = clk 2 \<rparr>)]"
      using acked(2) by (auto simp: at_most_pushes_def)
    have "live_inv w'" by (rule same_sessions_live [OF w'(2) inv])
    then obtain c where "hm_get (w_conns w') sid = Some c" "cn_agent c = sf_to f" "cn_tx c = t"
      using b w'(2) unfolding live_inv_def bound_live_def same_sessions_def by metis
    then show ?thesis using x unfolding d by fastforce
  qed simp
  then show ?thesis using acked(3) unfolding w' answered_def ack_of_def by (auto simp: emits_def)
qed

lemma fetch_addressed:
  assumes "hm_get (w_conns w') sid = Some c" "w_state w' = handle_log_fetch E (cn_agent c) (cn_tx c) l s"
  shows "emits (addressed w') (ss_out s) (ss_out (w_state w'))"
proof -
  obtain new where new: "ss_out (w_state w') = ss_out s @ new" "\<forall>(t, f) \<in> set new. t = cn_tx c \<and> (\<exists>l. f = S_LogRecords l \<and>
        (\<forall>r \<in> set (lr_records l). lw_recipient r = None \<or> lw_recipient r = Some (cn_agent c)))"
    using fetch_frames [of E "cn_agent c" "cn_tx c" l s] assms(2) by auto
  have "addressed w' t f" if "(t, f) \<in> set new" for t f using new(2) that assms(1) by fastforce
  then show ?thesis unfolding emits_def using new(1) by blast
qed

lemma receive_addressed:
  assumes inv: "live_inv w" and books: "books_inv (w_state w)" and c: "hm_get (w_conns w) sid = Some c"
    and w'_def: "w' = world_step E B J dec w (W_Receive sid now ms clk msg)"
  shows "emits (addressed w') (ss_out (w_state w)) (ss_out (w_state w'))"
proof -
  consider (send) b f where "msg = Some (WsBinary b)" "dec b = Some (C_Send f)"
    | (fetch) b l where "msg = Some (WsBinary b)" "dec b = Some (C_LogFetch l)"
    | (other) b fr where "msg = Some (WsBinary b)" "dec b = Some fr" "\<And>f. fr \<noteq> C_Send f" "\<And>l. fr \<noteq> C_LogFetch l"
    | (none) "\<And>b fr. msg = Some (WsBinary b) \<Longrightarrow> dec b \<noteq> Some fr"
    by (metis option.exhaust)
  then show ?thesis
  proof cases
    case send
    have w': "w' = w\<lparr> w_state := handle_send E (cn_agent c) (cn_caps c) (cn_tx c) now clk f (w_state w),
        w_conns := hm_insert sid c (w_conns w) \<rparr>"
      by (simp add: w'_def c send run_io_step_def handle_client_frame_def)
    have "same_sessions w w'"
      using c inv by (auto simp: w' same_sessions_def hm_simps hm_length_insert live_inv_def conns_wf_def)
    then show ?thesis by (intro send_addressed [OF inv books]) (simp_all add: w')
  next
    case fetch
    then show ?thesis
      by (intro fetch_addressed [where sid = sid and c = c and E = E and l = l])
         (simp_all add: w'_def c run_io_step_def handle_client_frame_def hm_simps)
  next
    case other
    obtain go s' where h: "handle_client_frame E (cn_agent c) (cn_caps c) (cn_tx c) sid now clk fr (w_state w) = (go, s')"
      by fastforce
    have "emits quiet (ss_out (w_state w)) (ss_out s')" using quiet_frame [OF other(3,4)] h by (metis snd_conv)
    moreover have "emits quiet (ss_out s') (ss_out (w_state w'))"
      using quiet_end [of "w\<lparr> w_state := s' \<rparr>" E sid] by (auto simp: w'_def c other run_io_step_def h)
    ultimately show ?thesis using emits_trans quiet_addressed by blast
  next
    case none
    then have "emits quiet (ss_out (w_state w)) (ss_out (w_state w'))"
      using quiet_end [of w E sid] by (auto simp: w'_def c run_io_step_def split: option.split ws_message.split)
    then show ?thesis by (rule quiet_addressed)
  qed
qed

lemma replay_emits:
  "emits (\<lambda>t f. t = tx \<and> (\<exists>x d. f = S_Deliver d \<and> x \<in> set es \<and> se_id x = dl_transit_seq d \<and> se_envelope x = dl_envelope d))
     out (snd (replay_transit A tx t0 es out))"
proof (induction A tx t0 es out rule: replay_transit.induct)
  case (2 A tx t0 e es out)
  let ?P = "\<lambda>es t f. t = tx \<and> (\<exists>x d. f = S_Deliver d \<and> x \<in> set es \<and> se_id x = dl_transit_seq d \<and> se_envelope x = dl_envelope d)"
  let ?f = "S_Deliver \<lparr> dl_envelope = se_envelope e, dl_transit_seq = se_id e, dl_delivered_at_ms = t0 \<rparr>"
  obtain ok out' where t: "try_send A tx ?f out = (ok, out')" by fastforce
  have "?P (e # es) tx ?f" by fastforce
  from emits_try [of "?P (e # es)", OF this, of out A] have one: "emits (?P (e # es)) out out'" by (simp add: t)
  show ?case
  proof (cases ok)
    case True
    have "emits (?P es) out' (snd (replay_transit A tx t0 es out'))" using 2 t True by simp
    then have "emits (?P (e # es)) out' (snd (replay_transit A tx t0 es out'))" by (rule emits_mono) auto
    with one have "emits (?P (e # es)) out (snd (replay_transit A tx t0 es out'))" by (rule emits_trans)
    then show ?thesis using True by (simp add: t case_prod_beta)
  qed (use one t in simp)
qed simp

lemma upgrade_addressed:
  assumes w'_def: "w' = world_step E B J dec w (W_Upgrade now ms hdr query msgs tx clk greet)"
  shows "emits (addressed w') (ss_out (w_state w)) (ss_out (w_state w'))"
proof -
  obtain auth s where up: "ws_handler now hdr query (w_state w) = (auth, s)" by fastforce
  have s: "ss_out s = ss_out (w_state w)" "ss_transit s = ss_transit (w_state w)"
    using upgrade_fields [of now hdr query "w_state w"] up by simp_all
  show ?thesis
  proof (cases auth)
    case None
    then show ?thesis using up s by (simp add: w'_def)
  next
    case (Some a)
    obtain res s' where op: "open_session E greet a (await_hello_inner dec msgs) tx clk s = (res, s')" by fastforce
    show ?thesis
    proof (cases res)
      case None
      then have "s' = s" using open_None op by (metis fst_conv snd_conv)
      then show ?thesis using up op s \<open>auth = Some a\<close> None by (simp add: w'_def)
    next
      case (Some r)
      obtain sid caps where r: "r = (sid, caps)" by fastforce
      let ?c = "\<lparr> cn_agent = at_agent_id a, cn_caps = caps, cn_tx = tx, cn_pong = pong_clock_new ms \<rparr>"
      have step: "w' = w\<lparr> w_state := s', w_conns := hm_insert sid ?c (w_conns w) \<rparr>"
        using up \<open>auth = Some a\<close> op Some r by (simp add: w'_def)
      note o = open_Some [OF op [unfolded Some r]]
      let ?es = "take replay_batch_max (read_all (ss_transit s) (at_agent_id a))"
      let ?out = "snd (snd (register (ev_accepts E) (at_agent_id a) tx (ss_sessions s, ss_out s)))"
      have "emits (addressed w') (ss_out s) ?out" by (rule quiet_addressed [OF quiet_register])
      moreover have "emits (addressed w') ?out (snd (replay_transit (ev_accepts E) tx (clk 1) ?es ?out))"
      proof (rule emits_mono [OF replay_emits])
        fix t f
        assume "t = tx \<and> (\<exists>x d. f = S_Deliver d \<and> x \<in> set ?es \<and> se_id x = dl_transit_seq d \<and> se_envelope x = dl_envelope d)"
        then obtain x d where f: "f = S_Deliver d" "t = tx" "x \<in> set (read_all (ss_transit s) (at_agent_id a))"
          "se_id x = dl_transit_seq d" "se_envelope x = dl_envelope d" using in_set_takeD by fast
        have "hm_get (w_conns w') sid = Some ?c" "ss_transit (w_state w') = ss_transit s"
          using o by (simp_all add: step hm_simps)
        then show "addressed w' t f" using f by fastforce
      qed
      ultimately have "emits (addressed w') (ss_out s) (ss_out s')" using o emits_trans by metis
      then show ?thesis by (simp add: step s)
    qed
  qed
qed

lemma step_addressed:
  assumes inv: "live_inv w" and books: "books_inv (w_state w)" and w': "w' = world_step E B J dec w op"
  shows "emits (addressed w') (ss_out (w_state w)) (ss_out (w_state w'))"
proof (cases op)
  case (W_Upgrade now ms hdr query msgs tx clk greet)
  then show ?thesis using upgrade_addressed w' by simp
next
  case (W_Receive sid now ms clk msg)
  show ?thesis
  proof (cases "hm_get (w_conns w) sid")
    case (Some c)
    then show ?thesis using receive_addressed [OF inv books Some w' [unfolded W_Receive]] by simp
  qed (simp add: w' W_Receive)
next
  case (W_PingTick sid ms)
  then show ?thesis using quiet_addressed [OF quiet_end] by (simp add: w' split: option.split)
next
  case (W_WriterExit sid)
  then show ?thesis using quiet_addressed [OF quiet_end] by (simp add: w')
next
  case (W_Index iop)
  then show ?thesis by (simp add: w' Let_def split: prod.split)
qed (simp_all add: w' quiet_outs)



end
