(* ===== verification/Epoch_Recovery.thy ===== *)
theory Epoch_Recovery
  imports Send_State Relay_Proto
begin

text \<open>
  Automatic recovery of a group member that fell behind (\<^verbatim>\<open>fetchit-chat/src/groups/epoch_recovery\<close>):
  the comparison of epochs, the status a shell shows, the wedge watchdog, the loop that applies log
  records in order, and the driver that all triggers funnel through. What the driver calls (the
  daemon and the relay) is a record of functions on an outside world \<open>'w\<close>: every awaited call takes
  the world and gives it back, so the world may change in any way while a pass is under way.
\<close>

subsection \<open>Epochs\<close>

datatype epoch_rel = Behind | Equal | Ahead

definition epoch_relation :: "nat \<Rightarrow> nat \<Rightarrow> epoch_rel" where
  "epoch_relation inbound_epoch local_epoch =
     (if inbound_epoch > local_epoch then Behind else if inbound_epoch = local_epoch then Equal else Ahead)"

definition frame_is_behind :: "32 word \<Rightarrow> nat \<Rightarrow> bool" where
  "frame_is_behind frame_epoch local_epoch \<longleftrightarrow> epoch_relation (unat frame_epoch) local_epoch = Behind"

subsection \<open>The status a shell shows\<close>

datatype group_recovery_status = Live | Reconnecting

record group_status_event =
  ge_group_id :: string
  ge_status :: group_recovery_status

record group_status_map =
  gm_inner :: "(string, group_recovery_status) hmap"
  gm_events :: "group_status_event list"

definition gsm_new :: group_status_map where
  "gsm_new = \<lparr> gm_inner = hm_empty, gm_events = [] \<rparr>"

definition gsm_get :: "group_status_map \<Rightarrow> string \<Rightarrow> group_recovery_status" where
  "gsm_get m group_id = (case hm_get (gm_inner m) group_id of Some s \<Rightarrow> s | None \<Rightarrow> Live)"

definition gsm_reconnecting :: "group_status_map \<Rightarrow> string list" where
  "gsm_reconnecting m = map fst (filter (\<lambda>(_, s). s = Reconnecting) (gm_inner m))"

definition gsm_set :: "string \<Rightarrow> group_recovery_status \<Rightarrow> group_status_map \<Rightarrow> group_status_map" where
  "gsm_set group_id status m =
     (if gsm_get m group_id = status then m
      else m\<lparr> gm_inner := hm_insert group_id status (gm_inner m),
              gm_events := gm_events m @ [\<lparr> ge_group_id = group_id, ge_status = status \<rparr>] \<rparr>)"

definition set_reconnecting :: "string \<Rightarrow> group_status_map \<Rightarrow> group_status_map" where
  "set_reconnecting group_id = gsm_set group_id Reconnecting"

definition set_live :: "string \<Rightarrow> group_status_map \<Rightarrow> group_status_map" where
  "set_live group_id = gsm_set group_id Live"

subsection \<open>The wedge watchdog\<close>

definition wedge_threshold_ms :: nat where "wedge_threshold_ms = 60000"

record wedge_signals =
  ws_last_progress_ms :: nat
  ws_recent_receipt_activity :: bool
  ws_current_epoch :: nat
  ws_last_seen_epoch :: nat

definition wedge_should_trip :: "wedge_signals \<Rightarrow> nat \<Rightarrow> nat \<Rightarrow> bool" where
  "wedge_should_trip signals now_ms threshold_ms =
     (if \<not> ws_recent_receipt_activity signals then False
      else if ws_current_epoch signals > ws_last_seen_epoch signals then False
      else now_ms - ws_last_progress_ms signals \<ge> threshold_ms)"

definition groups_to_recover :: "nat \<Rightarrow> nat \<Rightarrow> (string \<times> wedge_signals) list \<Rightarrow> string list" where
  "groups_to_recover now_ms threshold_ms groups =
     map fst (filter (\<lambda>(_, s). wedge_should_trip s now_ms threshold_ms) groups)"

subsection \<open>Records and the ordered apply loop\<close>

datatype commit_record_kind = CommitKind | JoinResultKind

record commit_record =
  cr_seq :: nat
  cr_kind :: commit_record_kind
  cr_payload_b64 :: string
  cr_author_agent_id_hex :: "string option"

datatype membership_status = Absent | ActiveKeyed | ListedButUnkeyed

record group_state =
  gt_keyed :: bool
  gt_in_roster :: bool
  gt_epoch :: nat

definition membership :: "group_state \<Rightarrow> membership_status" where
  "membership s = (if gt_keyed s then ActiveKeyed else if gt_in_roster s then ListedButUnkeyed else Absent)"

datatype apply_outcome = Applied | AlreadyApplied

record apply_loop_result =
  al_cursor :: nat
  al_applied :: nat
  al_skipped :: nat
  al_stopped_on_gap :: bool

fun apply_loop :: "(commit_record \<Rightarrow> 'w \<Rightarrow> (chat_error + apply_outcome) \<times> 'w) \<Rightarrow> nat \<Rightarrow> nat \<Rightarrow> nat
    \<Rightarrow> commit_record list \<Rightarrow> 'w \<Rightarrow> (chat_error + apply_loop_result) \<times> 'w" where
  "apply_loop ap cursor applied skipped [] w =
     (Inr \<lparr> al_cursor = cursor, al_applied = applied, al_skipped = skipped, al_stopped_on_gap = False \<rparr>, w)"
| "apply_loop ap cursor applied skipped (r # rs) w =
     (if cr_seq r \<le> cursor then apply_loop ap cursor applied (skipped + 1) rs w
      else if cr_seq r > cursor + 1
      then (Inr \<lparr> al_cursor = cursor, al_applied = applied, al_skipped = skipped, al_stopped_on_gap = True \<rparr>, w)
      else (case ap r w of
              (Inl e, w) \<Rightarrow> (Inl e, w)
            | (Inr Applied, w) \<Rightarrow> apply_loop ap (cr_seq r) (applied + 1) skipped rs w
            | (Inr AlreadyApplied, w) \<Rightarrow> apply_loop ap (cr_seq r) applied skipped rs w))"

definition apply_records_in_order :: "(commit_record \<Rightarrow> 'w \<Rightarrow> (chat_error + apply_outcome) \<times> 'w) \<Rightarrow> nat
    \<Rightarrow> commit_record list \<Rightarrow> 'w \<Rightarrow> (chat_error + apply_loop_result) \<times> 'w" where
  "apply_records_in_order ap start_seq records = apply_loop ap start_seq 0 0 records"

subsection \<open>The driver\<close>

definition max_passes :: nat where "max_passes = 64"

datatype recover_outcome = Converged | StillReconnecting | ColdPending bool

record 'w seams =
  sm_probe :: "string \<Rightarrow> 'w \<Rightarrow> (chat_error + group_state) \<times> 'w"
  sm_fetch :: "string \<Rightarrow> nat \<Rightarrow> 'w \<Rightarrow> (chat_error + commit_record list) \<times> 'w"
  sm_apply :: "string \<Rightarrow> commit_record \<Rightarrow> 'w \<Rightarrow> (chat_error + apply_outcome) \<times> 'w"
  sm_cold :: "string \<Rightarrow> 'w \<Rightarrow> (chat_error + bool) \<times> 'w"

record recovery =
  rc_status :: group_status_map
  rc_cursors :: "(string, nat) hmap"

definition rc_cursor :: "recovery \<Rightarrow> string \<Rightarrow> nat" where
  "rc_cursor d group_id = (case hm_get (rc_cursors d) group_id of Some n \<Rightarrow> n | None \<Rightarrow> 0)"

definition set_cursor :: "string \<Rightarrow> nat \<Rightarrow> recovery \<Rightarrow> recovery" where
  "set_cursor group_id seq d = d\<lparr> rc_cursors := hm_insert group_id seq (rc_cursors d) \<rparr>"

definition mark_live :: "string \<Rightarrow> recovery \<Rightarrow> recovery" where
  "mark_live group_id d = d\<lparr> rc_status := set_live group_id (rc_status d) \<rparr>"

definition mark_reconnecting :: "string \<Rightarrow> recovery \<Rightarrow> recovery" where
  "mark_reconnecting group_id d = d\<lparr> rc_status := set_reconnecting group_id (rc_status d) \<rparr>"

definition caught_up :: "nat option \<Rightarrow> group_state \<Rightarrow> bool" where
  "caught_up target_epoch state \<longleftrightarrow> membership state = ActiveKeyed \<and>
     (case target_epoch of None \<Rightarrow> True | Some t \<Rightarrow> gt_epoch state \<ge> t)"

text \<open>The catch-up passes; the first argument counts the passes left.\<close>

fun warm_passes :: "nat \<Rightarrow> 'w seams \<Rightarrow> string \<Rightarrow> nat option \<Rightarrow> recovery \<times> 'w
    \<Rightarrow> (chat_error + recover_outcome) \<times> recovery \<times> 'w" where
  "warm_passes 0 S gid target (d, w) = (Inr StillReconnecting, d, w)"
| "warm_passes (Suc n) S gid target (d, w) =
     (let cursor = rc_cursor d gid in
      case sm_fetch S gid cursor w of
        (Inl e, w) \<Rightarrow> (Inl e, d, w)
      | (Inr [], w) \<Rightarrow>
          (case sm_probe S gid w of
             (Inl e, w) \<Rightarrow> (Inl e, d, w)
           | (Inr state, w) \<Rightarrow>
               if caught_up target state then (Inr Converged, mark_live gid d, w) else (Inr StillReconnecting, d, w))
      | (Inr records, w) \<Rightarrow>
          (case apply_records_in_order (sm_apply S gid) cursor records w of
             (Inl e, w) \<Rightarrow> (Inl e, d, w)
           | (Inr res, w) \<Rightarrow>
               (let d = set_cursor gid (al_cursor res) d in
                if al_stopped_on_gap res then (Inr StillReconnecting, d, w)
                else (case sm_probe S gid w of
                        (Inl e, w) \<Rightarrow> (Inl e, d, w)
                      | (Inr state, w) \<Rightarrow>
                          if target \<noteq> None \<and> caught_up target state then (Inr Converged, mark_live gid d, w)
                          else warm_passes n S gid target (d, w)))))"

definition recover_once :: "'w seams \<Rightarrow> string \<Rightarrow> nat option \<Rightarrow> recovery \<times> 'w
    \<Rightarrow> (chat_error + recover_outcome) \<times> recovery \<times> 'w" where
  "recover_once S gid target = (\<lambda>(d, w).
     (case sm_probe S gid w of
        (Inl e, w) \<Rightarrow> (Inl e, d, w)
      | (Inr state, w) \<Rightarrow>
          if membership state \<noteq> ActiveKeyed
          then (let d = mark_reconnecting gid d in
                case sm_cold S gid w of
                  (Inl e, w) \<Rightarrow> (Inl e, d, w)
                | (Inr drove, w) \<Rightarrow> (Inr (ColdPending drove), d, w))
          else if target \<noteq> None \<and> caught_up target state then (Inr Converged, mark_live gid d, w)
          else warm_passes max_passes S gid target (mark_reconnecting gid d, w)))"

end
