(* ===== verification/Group_Log_Client.thy ===== *)
theory Group_Log_Client
  imports Epoch_Recovery
begin

text \<open>
  The two ends of the group log on the client: what the owner of a group appends when a member
  joins (\<^verbatim>\<open>groups/group_log.rs\<close>, \<^verbatim>\<open>bridge_member_added.rs\<close>, \<^verbatim>\<open>join_bridge.rs\<close>), how a fetched record is
  mapped and applied (\<^verbatim>\<open>epoch_recovery/wire_map.rs\<close>, \<^verbatim>\<open>log_applier.rs\<close>, \<^verbatim>\<open>engine_a.rs\<close>), and how the
  pages of a fetch are collected (\<^verbatim>\<open>fetchit-relay-client\<close>, \<^verbatim>\<open>log_source.rs\<close>). Base64, hex and JSON text
  are third-party codecs and form a record of parameters.
\<close>

subsection \<open>JSON values and codecs\<close>

text \<open>The values of \<^verbatim>\<open>serde_json\<close>; a number is kept as its text.\<close>

datatype json = JNull | JBool bool | JNumber string | JString string | JArray "json list" | JObject "(string \<times> json) list"

fun json_get :: "string \<Rightarrow> json \<Rightarrow> json option" where
  "json_get k (JObject m) = hm_get m k"
| "json_get k _ = None"

fun json_as_str :: "json \<Rightarrow> string option" where
  "json_as_str (JString s) = Some s"
| "json_as_str _ = None"

definition json_str_at :: "string \<Rightarrow> json \<Rightarrow> string option" where
  "json_str_at k v = Option.bind (json_get k v) json_as_str"

record codec =
  cd_b64_encode :: "bytes \<Rightarrow> string"
  cd_b64_decode :: "string \<Rightarrow> bytes option"
  cd_hex_encode :: "bytes \<Rightarrow> string"
  cd_hex_decode32 :: "string \<Rightarrow> string + bytes"
  cd_json_parse :: "bytes \<Rightarrow> json option"
  cd_json_print :: "json \<Rightarrow> string + bytes"

definition ascii_lower :: "string \<Rightarrow> string" where
  "ascii_lower = map (\<lambda>c. if 65 \<le> (of_char c :: nat) \<and> (of_char c :: nat) \<le> 90 then char_of ((of_char c :: nat) + 32) else c)"

fun contains_text :: "string \<Rightarrow> string \<Rightarrow> bool" where
  "contains_text p [] = (p = [])"
| "contains_text p (c # s) = (take (length p) (c # s) = p \<or> contains_text p s)"

subsection \<open>What the owner appends\<close>

fun commit_only_member_added :: "json \<Rightarrow> json" where
  "commit_only_member_added (JObject m) = JObject (hm_remove ''welcome_ref'' (hm_remove ''treekem_welcome_b64'' m))"
| "commit_only_member_added v = v"

record group_log_intent =
  gi_group_id :: group_key
  gi_kind :: log_record_kind
  gi_recipient :: "relay_id option"
  gi_payload :: bytes

definition join_reply_log_intents :: "codec \<Rightarrow> string \<Rightarrow> relay_id \<Rightarrow> json \<Rightarrow> chat_error + group_log_intent list" where
  "join_reply_log_intents C mls_group_id_hex joiner welcome_event =
     (case cd_hex_decode32 C mls_group_id_hex of
        Inl e \<Rightarrow> Inl (Invalid (''group-log: mls group id hex: '' @ e))
      | Inr group_id \<Rightarrow>
          (case cd_json_print C welcome_event of
             Inl e \<Rightarrow> Inl (Invalid (''group-log: welcome event encode: '' @ e))
           | Inr welcome_bytes \<Rightarrow>
               (case cd_json_print C (commit_only_member_added welcome_event) of
                  Inl e \<Rightarrow> Inl (Invalid (''group-log: commit event encode: '' @ e))
                | Inr commit_bytes \<Rightarrow>
                    Inr [\<lparr> gi_group_id = group_id, gi_kind = JoinResult, gi_recipient = Some joiner, gi_payload = welcome_bytes \<rparr>,
                         \<lparr> gi_group_id = group_id, gi_kind = Commit, gi_recipient = None, gi_payload = commit_bytes \<rparr>])))"

definition group_id_from_member_joined :: "codec \<Rightarrow> bytes \<Rightarrow> string option" where
  "group_id_from_member_joined C payload =
     (case cd_json_parse C payload of None \<Rightarrow> None | Some v \<Rightarrow> json_str_at ''group_id'' v)"

definition member_added_self_target :: "codec \<Rightarrow> bytes \<Rightarrow> string \<Rightarrow> (string \<times> string) option" where
  "member_added_self_target C payload my_agent_hex =
     (case cd_json_parse C payload of
        None \<Rightarrow> None
      | Some v \<Rightarrow>
          if json_str_at ''event'' v \<noteq> Some ''member_added'' \<and> json_str_at ''event'' v \<noteq> Some ''member_rekeyed'' then None
          else (case json_str_at ''agent_id'' v of
                  None \<Rightarrow> None
                | Some agent_id \<Rightarrow>
                    if ascii_lower agent_id \<noteq> ascii_lower my_agent_hex then None
                    else (case json_str_at ''group_id'' v of
                            None \<Rightarrow> None
                          | Some group_id \<Rightarrow> Some (group_id, agent_id))))"

subsection \<open>From the wire to a plan\<close>

definition commit_record_from_wire :: "codec \<Rightarrow> log_record_wire \<Rightarrow> commit_record" where
  "commit_record_from_wire C w =
     \<lparr> cr_seq = lw_seq w, cr_kind = (case lw_kind w of Commit \<Rightarrow> CommitKind | JoinResult \<Rightarrow> JoinResultKind),
       cr_payload_b64 = cd_b64_encode C (lw_payload w),
       cr_author_agent_id_hex = map_option (cd_hex_encode C) (lw_author w) \<rparr>"

datatype apply_plan =
    PlanMetadata string string
  | PlanJoinResult string string string string
  | PlanSkip string

definition plan_apply :: "codec \<Rightarrow> commit_record \<Rightarrow> string \<Rightarrow> apply_plan" where
  "plan_apply C rc my_agent_hex =
     (case cr_author_agent_id_hex rc of
        None \<Rightarrow> PlanSkip ''record carries no author''
      | Some author_hex \<Rightarrow>
          (case cr_kind rc of
             CommitKind \<Rightarrow> PlanMetadata (cr_payload_b64 rc) author_hex
           | JoinResultKind \<Rightarrow>
               (case cd_b64_decode C (cr_payload_b64 rc) of
                  None \<Rightarrow> PlanSkip ''join-result payload not base64''
                | Some bs \<Rightarrow>
                    (case member_added_self_target C bs my_agent_hex of
                       Some (stable_group_id, member) \<Rightarrow> PlanJoinResult stable_group_id member (cr_payload_b64 rc) author_hex
                     | None \<Rightarrow> PlanSkip ''join-result not addressed to this node''))))"

subsection \<open>Applying through the daemon\<close>

fun route_miss_404 :: "x0xd_error \<Rightarrow> bool" where
  "route_miss_404 (XApplyRejected status detail) = (status = 404 \<and> \<not> contains_text ''\"error\"'' detail)"
| "route_miss_404 _ = False"

fun apply_conflict_409 :: "x0xd_error \<Rightarrow> bool" where
  "apply_conflict_409 (XApplyRejected status detail) = (status = 409 \<and> contains_text ''\"applied\"'' detail)"
| "apply_conflict_409 _ = False"

text \<open>The capability latch is set once; a second setting is ignored.\<close>

definition latch_set :: "bool \<Rightarrow> bool option \<Rightarrow> bool option" where
  "latch_set b l = (case l of None \<Rightarrow> Some b | Some _ \<Rightarrow> l)"

fun record_fault :: "x0xd_error \<Rightarrow> bool" where
  "record_fault (XApplyRejected status detail) =
     (400 \<le> status \<and> status < 500 \<and> status \<notin> {401, 407, 408, 429, 431})"
| "record_fault _ = False"

definition classify_apply_error :: "x0xd_error \<Rightarrow> bool option \<Rightarrow> (chat_error + apply_outcome) \<times> bool option" where
  "classify_apply_error e engine_a =
     (if route_miss_404 e then (Inl (chat_error_of_x0xd e), latch_set False engine_a)
      else if record_fault e then (Inr AlreadyApplied, engine_a)
      else (Inl (chat_error_of_x0xd e), engine_a))"

text \<open>The daemon's apply endpoints, on the outside world.\<close>

record 'w daemon =
  dm_secure :: "chat_error + unit"
  dm_apply_metadata_event :: "string \<Rightarrow> string \<Rightarrow> string \<Rightarrow> 'w \<Rightarrow> (x0xd_error + bool) \<times> 'w"
  dm_apply_join_result :: "string \<Rightarrow> string \<Rightarrow> string \<Rightarrow> string \<Rightarrow> 'w \<Rightarrow> (x0xd_error + bool) \<times> 'w"

definition finish_apply :: "(x0xd_error + bool) \<times> 'w \<Rightarrow> bool option \<Rightarrow> (chat_error + apply_outcome) \<times> 'w \<times> bool option" where
  "finish_apply res engine_a =
     (case res of
        (Inr applied, w) \<Rightarrow> (Inr (if applied then Applied else AlreadyApplied), w, engine_a)
      | (Inl e, w) \<Rightarrow> (case classify_apply_error e engine_a of (out, engine_a) \<Rightarrow> (out, w, engine_a)))"

definition x0xd_apply :: "codec \<Rightarrow> 'w daemon \<Rightarrow> string \<Rightarrow> string \<Rightarrow> commit_record \<Rightarrow> 'w \<times> bool option
    \<Rightarrow> (chat_error + apply_outcome) \<times> 'w \<times> bool option" where
  "x0xd_apply C D my_agent_hex group_id rc = (\<lambda>(w, engine_a).
     (case plan_apply C rc my_agent_hex of
        PlanMetadata payload_b64 author_hex \<Rightarrow>
          (case dm_secure D of
             Inl e \<Rightarrow> (Inl e, w, engine_a)
           | Inr _ \<Rightarrow> finish_apply (dm_apply_metadata_event D group_id payload_b64 author_hex w) engine_a)
      | PlanJoinResult stable_group_id member payload_b64 owner_hex \<Rightarrow>
          (case dm_secure D of
             Inl e \<Rightarrow> (Inl e, w, engine_a)
           | Inr _ \<Rightarrow> finish_apply (dm_apply_join_result D stable_group_id member payload_b64 owner_hex w) engine_a)
      | PlanSkip _ \<Rightarrow> (Inr AlreadyApplied, w, engine_a)))"

subsection \<open>Collecting a fetch\<close>

datatype log_fetch_error = InboxClosed | LogFetchTimeout

fun log_fetch_error_display :: "log_fetch_error \<Rightarrow> string" where
  "log_fetch_error_display InboxClosed = ''inbox channel closed''"
| "log_fetch_error_display LogFetchTimeout = ''log fetch timed out after 10s''"

datatype log_event = LogChunk log_records | LogClosed | LogDeadline

text \<open>
  The reassembly of the pages: the events of the log channel in order. \<open>None\<close> means that the call
  is still waiting when the list of events ends.
\<close>

fun log_fetch_loop :: "group_key \<Rightarrow> log_record_wire list \<Rightarrow> log_event list \<Rightarrow> (log_fetch_error + log_record_wire list) option" where
  "log_fetch_loop group_id out [] = None"
| "log_fetch_loop group_id out (LogChunk lr # evs) =
     (if lr_group_id lr = group_id
      then (let out = out @ lr_records lr in if lr_done lr then Some (Inr out) else log_fetch_loop group_id out evs)
      else log_fetch_loop group_id out evs)"
| "log_fetch_loop group_id out (LogClosed # evs) = Some (Inl InboxClosed)"
| "log_fetch_loop group_id out (LogDeadline # evs) = Some (Inl LogFetchTimeout)"

definition client_log_fetch :: "group_key \<Rightarrow> log_event list \<Rightarrow> (log_fetch_error + log_record_wire list) option" where
  "client_log_fetch group_id evs = log_fetch_loop group_id [] evs"

text \<open>The fetch of the recovery driver over an optional relay.\<close>

type_synonym 'w relay_fetch = "group_key \<Rightarrow> nat \<Rightarrow> 'w \<Rightarrow> (log_fetch_error + log_record_wire list) \<times> 'w"

definition transport_log_fetch :: "'w relay_fetch \<Rightarrow> group_key \<Rightarrow> nat \<Rightarrow> 'w \<Rightarrow> (chat_error + log_record_wire list) \<times> 'w" where
  "transport_log_fetch R g since_seq w =
     (case R g since_seq w of
        (Inl e, w) \<Rightarrow> (Inl (MessageTransport (''group-log fetch: '' @ log_fetch_error_display e)), w)
      | (Inr rs, w) \<Rightarrow> (Inr rs, w))"

definition source_fetch_since :: "codec \<Rightarrow> 'w relay_fetch option \<Rightarrow> string \<Rightarrow> nat \<Rightarrow> 'w
    \<Rightarrow> (chat_error + commit_record list) \<times> 'w" where
  "source_fetch_since C relay group_id since_seq w =
     (case relay of
        None \<Rightarrow> (Inr [], w)
      | Some R \<Rightarrow>
          (case cd_hex_decode32 C group_id of
             Inl e \<Rightarrow> (Inl (Invalid (''recover: group id hex: '' @ e)), w)
           | Inr g \<Rightarrow>
               (case transport_log_fetch R g since_seq w of
                  (Inl e, w) \<Rightarrow> (Inl e, w)
                | (Inr wire, w) \<Rightarrow> (Inr (map (commit_record_from_wire C) wire), w))))"

end
