(* ===== verification/Pending_Join.thy ===== *)
theory Pending_Join
  imports At_Rest Group_Log_Client
begin

text \<open>
  Durable joins of private groups: the record of a join in progress and its store
  (\<^verbatim>\<open>fetchit-chat/src/groups/pending_join.rs\<close>), the driver that resumes it
  (\<^verbatim>\<open>pending_join_driver.rs\<close>), and the convergence records (\<^verbatim>\<open>convergence.rs\<close>). A store is a
  directory of plain files; the JSON codec and the operating system are parameters.
\<close>

subsection \<open>A directory of files\<close>

text \<open>The files of one directory by name, in the order the operating system lists them.\<close>

type_synonym dir = "(string, bytes) hmap"

definition tmp_name :: "os_env \<Rightarrow> string \<Rightarrow> string" where
  "tmp_name E name = name @ ''.tmp.'' @ hex_encode E (rng_suffix E)"

definition write_bytes_in :: "os_env \<Rightarrow> string \<Rightarrow> bytes \<Rightarrow> dir \<Rightarrow> (chat_error + unit) \<times> dir" where
  "write_bytes_in E name out d =
     (let tmp = tmp_name E name in
      case io_fault E CreateDir of Some e \<Rightarrow> (Inl (Io e), d) | None \<Rightarrow>
      case io_fault E OpenTmp of Some e \<Rightarrow> (Inl (Io e), d) | None \<Rightarrow>
      if hm_get d tmp \<noteq> None then (Inl (Io (io_exists_text E)), d) else
      case io_fault E WriteTmp of
        Some e \<Rightarrow> (Inl (Io e), hm_insert tmp (take (io_short E) out) d) | None \<Rightarrow>
      case io_fault E RenameTmp of Some e \<Rightarrow> (Inl (Io e), hm_insert tmp out d) | None \<Rightarrow>
        (Inr (), hm_insert name out d))"

definition write_json_atomic :: "('a \<Rightarrow> string + bytes) \<Rightarrow> os_env \<Rightarrow> string \<Rightarrow> 'a \<Rightarrow> dir \<Rightarrow> (chat_error + unit) \<times> dir" where
  "write_json_atomic to_vec_pretty E name x d =
     (case to_vec_pretty x of
        Inl e \<Rightarrow> (Inl (Invalid (''json to_vec: '' @ e)), d)
      | Inr bs \<Rightarrow> write_bytes_in E name bs d)"

text \<open>\<^verbatim>\<open>std::fs::read\<close>, parsed; a missing file is \<open>None\<close>.\<close>

definition read_json :: "(bytes \<Rightarrow> string + 'a) \<Rightarrow> os_env \<Rightarrow> string \<Rightarrow> dir \<Rightarrow> chat_error + 'a option" where
  "read_json from_slice E name d =
     (case io_fault E ReadFile of Some e \<Rightarrow> Inl (Io e) | None \<Rightarrow>
      case hm_get d name of None \<Rightarrow> Inr None | Some bs \<Rightarrow>
      case from_slice bs of Inl e \<Rightarrow> Inl (Decode e) | Inr x \<Rightarrow> Inr (Some x))"

definition remove_in :: "os_env \<Rightarrow> string \<Rightarrow> dir \<Rightarrow> (chat_error + unit) \<times> dir" where
  "remove_in E name d =
     (if hm_get d name = None then (Inr (), d)
      else case io_fault E RemoveFile of Some e \<Rightarrow> (Inl (Io e), d) | None \<Rightarrow> (Inr (), hm_remove name d))"

definition open_store :: "os_env \<Rightarrow> chat_error + unit" where
  "open_store E = (case io_fault E CreateDir of Some e \<Rightarrow> Inl (Io e) | None \<Rightarrow> Inr ())"

text \<open>\<^verbatim>\<open>Path::extension\<close> of a file name.\<close>

definition path_extension :: "string \<Rightarrow> string option" where
  "path_extension name =
     (let r = dropWhile (\<lambda>c. c \<noteq> CHR ''.'') (rev name)
      in if length r \<le> 1 then None else Some (rev (takeWhile (\<lambda>c. c \<noteq> CHR ''.'') (rev name))))"

definition path_for :: "string \<Rightarrow> string" where
  "path_for group_id = group_id @ ''.json''"

subsection \<open>Pending joins and their store\<close>

datatype pending_join_state = Submitted | Bridged | KeyedButUnverified | JoinFailed string

record pending_join =
  pj_group_id :: string
  pj_captured_event_b64 :: string
  pj_captured_topic :: string
  pj_invite_hash :: string
  pj_owner_agent_id :: string
  pj_owner_kem_pubkey_b64 :: string
  pj_owner_relay_hints :: "string list"
  pj_joiner_kem_pubkey_b64 :: string
  pj_created_at_ms :: nat
  pj_last_attempt_ms :: nat
  pj_attempts :: nat
  pj_state :: pending_join_state

definition pending_join_new :: "string \<Rightarrow> string \<Rightarrow> string \<Rightarrow> string \<Rightarrow> string \<Rightarrow> string \<Rightarrow> string list \<Rightarrow> string \<Rightarrow> nat \<Rightarrow> pending_join" where
  "pending_join_new group_id captured_event_b64 captured_topic invite_hash owner_agent_id owner_kem_pubkey_b64
      owner_relay_hints joiner_kem_pubkey_b64 now_ms =
     \<lparr> pj_group_id = group_id, pj_captured_event_b64 = captured_event_b64, pj_captured_topic = captured_topic,
       pj_invite_hash = invite_hash, pj_owner_agent_id = owner_agent_id, pj_owner_kem_pubkey_b64 = owner_kem_pubkey_b64,
       pj_owner_relay_hints = owner_relay_hints, pj_joiner_kem_pubkey_b64 = joiner_kem_pubkey_b64,
       pj_created_at_ms = now_ms, pj_last_attempt_ms = 0, pj_attempts = 0, pj_state = Submitted \<rparr>"

definition pj_is_terminal :: "pending_join \<Rightarrow> bool" where
  "pj_is_terminal r = (case pj_state r of JoinFailed _ \<Rightarrow> True | _ \<Rightarrow> False)"

record pj_codec =
  pj_to_vec :: "pending_join \<Rightarrow> string + bytes"
  pj_from_slice :: "bytes \<Rightarrow> string + pending_join"

definition pjs_upsert :: "pj_codec \<Rightarrow> os_env \<Rightarrow> pending_join \<Rightarrow> dir \<Rightarrow> (chat_error + unit) \<times> dir" where
  "pjs_upsert J E r d = write_json_atomic (pj_to_vec J) E (path_for (pj_group_id r)) r d"

definition pjs_get :: "pj_codec \<Rightarrow> os_env \<Rightarrow> string \<Rightarrow> dir \<Rightarrow> chat_error + pending_join option" where
  "pjs_get J E group_id d = read_json (pj_from_slice J) E (path_for group_id) d"

definition pjs_remove :: "os_env \<Rightarrow> string \<Rightarrow> dir \<Rightarrow> (chat_error + unit) \<times> dir" where
  "pjs_remove E group_id d = remove_in E (path_for group_id) d"

text \<open>Reading the entries one by one; each read may meet a fault of its own.\<close>

fun read_entries :: "pj_codec \<Rightarrow> ('v \<Rightarrow> os_env \<times> 'v) \<Rightarrow> dir \<Rightarrow> 'v \<Rightarrow> pending_join list \<times> 'v" where
  "read_entries J os [] v = ([], v)"
| "read_entries J os ((name, bs) # es) v =
     (if path_extension name \<noteq> Some ''json'' then read_entries J os es v
      else (let (E, v) = os v; (rs, v) = read_entries J os es v
            in case io_fault E ReadFile of Some _ \<Rightarrow> (rs, v) | None \<Rightarrow>
               case pj_from_slice J bs of Inl _ \<Rightarrow> (rs, v) | Inr r \<Rightarrow> (r # rs, v)))"

definition pjs_list :: "pj_codec \<Rightarrow> ('v \<Rightarrow> os_env \<times> 'v) \<Rightarrow> dir \<Rightarrow> 'v \<Rightarrow> (chat_error + pending_join list) \<times> 'v" where
  "pjs_list J os d v =
     (let (E, v) = os v
      in case io_fault E ReadDir of Some e \<Rightarrow> (Inl (Io e), v)
         | None \<Rightarrow> (case read_entries J os d v of (rs, v) \<Rightarrow> (Inr rs, v)))"

subsection \<open>The driver\<close>

datatype drive_outcome = DriveConverged | DrivePending | DriveFailed string

definition join_backoff_ms :: "nat \<Rightarrow> nat" where
  "join_backoff_ms attempts =
     (if attempts = 0 then 0 else min (u64_sat_mul 2000 (2 ^ min attempts 20)) (5 * 60 * 1000))"

definition is_due :: "pending_join \<Rightarrow> nat \<Rightarrow> bool" where
  "is_due r now_ms \<longleftrightarrow> u64_sat_add (pj_last_attempt_ms r) (join_backoff_ms (pj_attempts r)) \<le> now_ms"

definition apply_ok_retires_record :: "bool option \<Rightarrow> bool" where
  "apply_ok_retires_record probe_keyed \<longleftrightarrow> probe_keyed = Some True"

text \<open>
  What the driver is built from, over the rest \<open>'v\<close> of the world: how the operating system answers
  the next file operation, the clock, the probe of the membership and the two ways to bridge.
\<close>

record 'v join_seams =
  js_os :: "'v \<Rightarrow> os_env \<times> 'v"
  js_now :: "'v \<Rightarrow> nat \<times> 'v"
  js_status :: "string \<Rightarrow> 'v \<Rightarrow> (chat_error + membership_status) \<times> 'v"
  js_rebridge :: "pending_join \<Rightarrow> 'v \<Rightarrow> (chat_error + unit) \<times> 'v"
  js_request_join_result :: "pending_join \<Rightarrow> 'v \<Rightarrow> (chat_error + unit) \<times> 'v"

text \<open>One attempt: the record is stamped and stored before anything is sent.\<close>

definition attempt :: "pj_codec \<Rightarrow> 'v join_seams \<Rightarrow> pending_join_state \<Rightarrow> (pending_join \<Rightarrow> 'v \<Rightarrow> (chat_error + unit) \<times> 'v)
    \<Rightarrow> pending_join \<Rightarrow> dir \<times> 'v \<Rightarrow> (chat_error + drive_outcome) \<times> dir \<times> 'v" where
  "attempt J S st send r = (\<lambda>(d, v).
     (let (now, v) = js_now S v;
          r = r\<lparr> pj_state := st, pj_last_attempt_ms := now, pj_attempts := u32_sat_add (pj_attempts r) 1 \<rparr>;
          (E, v) = js_os S v
      in case pjs_upsert J E r d of
           (Inl e, d) \<Rightarrow> (Inl e, d, v)
         | (Inr _, d) \<Rightarrow> (case send r v of (_, v) \<Rightarrow> (Inr DrivePending, d, v))))"

definition drive_once :: "pj_codec \<Rightarrow> 'v join_seams \<Rightarrow> pending_join \<Rightarrow> dir \<times> 'v \<Rightarrow> (chat_error + drive_outcome) \<times> dir \<times> 'v" where
  "drive_once J S r = (\<lambda>(d, v).
     if pj_is_terminal r
     then (Inr (DriveFailed (case pj_state r of JoinFailed reason \<Rightarrow> reason | _ \<Rightarrow> [])), d, v)
     else (case js_status S (pj_group_id r) v of
        (Inl _, v) \<Rightarrow> (Inr DrivePending, d, v)
      | (Inr ActiveKeyed, v) \<Rightarrow>
          (let (E, v) = js_os S v
           in case pjs_remove E (pj_group_id r) d of
                (Inl e, d) \<Rightarrow> (Inl e, d, v)
              | (Inr _, d) \<Rightarrow> (Inr DriveConverged, d, v))
      | (Inr ListedButUnkeyed, v) \<Rightarrow> attempt J S KeyedButUnverified (js_request_join_result S) r (d, v)
      | (Inr Absent, v) \<Rightarrow> attempt J S Bridged (js_rebridge S) r (d, v)))"

fun drive_each :: "pj_codec \<Rightarrow> 'v join_seams \<Rightarrow> pending_join list \<Rightarrow> dir \<times> 'v
    \<Rightarrow> (chat_error + (string \<times> drive_outcome) list) \<times> dir \<times> 'v" where
  "drive_each J S [] (d, v) = (Inr [], d, v)"
| "drive_each J S (r # rs) (d, v) =
     (case drive_once J S r (d, v) of
        (Inl e, d, v) \<Rightarrow> (Inl e, d, v)
      | (Inr out, d, v) \<Rightarrow>
          (case drive_each J S rs (d, v) of
             (Inl e, d, v) \<Rightarrow> (Inl e, d, v)
           | (Inr outs, d, v) \<Rightarrow> (Inr ((pj_group_id r, out) # outs), d, v)))"

definition drive_all :: "pj_codec \<Rightarrow> 'v join_seams \<Rightarrow> dir \<times> 'v \<Rightarrow> (chat_error + (string \<times> drive_outcome) list) \<times> dir \<times> 'v" where
  "drive_all J S = (\<lambda>(d, v).
     (case pjs_list J (js_os S) d v of
        (Inl e, v) \<Rightarrow> (Inl e, d, v)
      | (Inr rs, v) \<Rightarrow> drive_each J S rs (d, v)))"

text \<open>The loop of the client: terminal records are passed over, those not yet due are left alone.\<close>

fun drive_due :: "pj_codec \<Rightarrow> 'v join_seams \<Rightarrow> pending_join list \<Rightarrow> dir \<times> 'v
    \<Rightarrow> (chat_error + (string \<times> drive_outcome) list) \<times> dir \<times> 'v" where
  "drive_due J S [] (d, v) = (Inr [], d, v)"
| "drive_due J S (r # rs) (d, v) =
     (if pj_is_terminal r then drive_due J S rs (d, v)
      else (let (now, v) = js_now S v;
                (x, d, v) = (if is_due r now then drive_once J S r (d, v) else (Inr DrivePending, d, v))
            in case x of
                 Inl e \<Rightarrow> (Inl e, d, v)
               | Inr out \<Rightarrow>
                   (case drive_due J S rs (d, v) of
                      (Inl e, d, v) \<Rightarrow> (Inl e, d, v)
                    | (Inr outs, d, v) \<Rightarrow> (Inr ((pj_group_id r, out) # outs), d, v))))"

subsection \<open>Convergence records\<close>

record convergence_record =
  cv_group_id :: string
  cv_epoch :: nat
  cv_at_ms :: nat

record cv_codec =
  cv_to_vec :: "convergence_record \<Rightarrow> string + bytes"
  cv_from_slice :: "bytes \<Rightarrow> string + convergence_record"

definition cvs_record :: "cv_codec \<Rightarrow> os_env \<Rightarrow> string \<Rightarrow> nat \<Rightarrow> nat \<Rightarrow> dir \<Rightarrow> (chat_error + unit) \<times> dir" where
  "cvs_record J E group_id epoch at_ms d =
     write_json_atomic (cv_to_vec J) E (path_for group_id) \<lparr> cv_group_id = group_id, cv_epoch = epoch, cv_at_ms = at_ms \<rparr> d"

definition cvs_get :: "cv_codec \<Rightarrow> os_env \<Rightarrow> string \<Rightarrow> dir \<Rightarrow> chat_error + convergence_record option" where
  "cvs_get J E group_id d = read_json (cv_from_slice J) E (path_for group_id) d"

definition cvs_remove :: "os_env \<Rightarrow> string \<Rightarrow> dir \<Rightarrow> (chat_error + unit) \<times> dir" where
  "cvs_remove E group_id d = remove_in E (path_for group_id) d"

end
