(* ===== verification/Pending_Join_Properties.thy ===== *)
theory Pending_Join_Properties
  imports Pending_Join
begin

text \<open>
  A join in progress is never lost: whatever faults the file system shows, driving the stored
  records keeps each of them, up to its attempt counters, until a probe finds the group keyed.
\<close>

subsection \<open>Names and files\<close>

text \<open>The random suffix of a temporary file is made of hex digits.\<close>

definition os_ok :: "os_env \<Rightarrow> bool" where
  "os_ok E \<longleftrightarrow> set (hex_encode E (rng_suffix E)) \<subseteq> set ''0123456789abcdef''"

lemma path_extension_json: "g \<noteq> [] \<Longrightarrow> path_extension (path_for g) = Some ''json''"
  by (cases g) (simp_all add: path_extension_def path_for_def Let_def)

lemma path_extension_tmp: "os_ok E \<Longrightarrow> path_extension (tmp_name E name) \<noteq> Some ''json''"
proof -
  let ?h = "hex_encode E (rng_suffix E)"
  assume "os_ok E"
  then have h: "set ?h \<subseteq> set ''0123456789abcdef''" by (simp add: os_ok_def)
  then have "\<forall>c \<in> set (rev ?h). c \<noteq> CHR ''.''" by auto
  then have "takeWhile (\<lambda>c. c \<noteq> CHR ''.'') (rev (tmp_name E name)) = rev ?h"
    by (simp add: tmp_name_def takeWhile_append)
  moreover have "?h \<noteq> ''json''" using h by auto
  ultimately show ?thesis by (auto simp: path_extension_def Let_def)
qed

lemma tmp_name_neq [simp]: "tmp_name E name \<noteq> name" "name \<noteq> tmp_name E name"
  by (auto simp: tmp_name_def)

lemma path_for_inj [simp]: "path_for g = path_for g' \<longleftrightarrow> g = g'"
  by (simp add: path_for_def)

lemma write_in_other: "n \<noteq> name \<Longrightarrow> n \<noteq> tmp_name E name \<Longrightarrow> hm_get (snd (write_bytes_in E name out d)) n = hm_get d n"
  by (simp add: write_bytes_in_def Let_def hm_simps split: option.split)

lemma write_in_self:
  "hm_get (snd (write_bytes_in E name out d)) name = (if isl (fst (write_bytes_in E name out d)) then hm_get d name else Some out)"
  by (simp add: write_bytes_in_def Let_def hm_simps split: option.split)

lemma write_in_wf: "hm_wf d \<Longrightarrow> hm_wf (snd (write_bytes_in E name out d))"
  by (simp add: write_bytes_in_def Let_def hm_simps split: option.split)

lemma remove_in_other: "n \<noteq> name \<Longrightarrow> hm_get (snd (remove_in E name d)) n = hm_get d n"
  by (simp add: remove_in_def hm_simps split: option.split)

lemma remove_in_wf: "hm_wf d \<Longrightarrow> hm_wf (snd (remove_in E name d))"
  by (simp add: remove_in_def hm_simps split: option.split)

lemma remove_in_get: "hm_get (snd (remove_in E name d)) n = Some bs \<Longrightarrow> hm_get d n = Some bs"
  by (cases "n = name") (auto simp: remove_in_def hm_simps split: option.splits if_splits)

text \<open>The directory view agrees with the write on the whole file system.\<close>

definition files_of :: "path \<Rightarrow> dir \<Rightarrow> files" where
  "files_of p d q = (if q \<noteq> [] \<and> butlast q = p then hm_get d (last q) else None)"

lemma write_bytes_in_refines:
  assumes "write_bytes_in E name out d = (res, d')"
  shows "write_bytes_atomic E (p @ [name]) out (files_of p d) = (res, files_of p d')"
proof -
  have tmp: "tmp_path E (p @ [name]) = p @ [tmp_name E name]"
    by (simp add: tmp_path_def with_file_name_def file_name_def tmp_name_def)
  have ins: "files_of p (hm_insert n bs d) = (files_of p d)(p @ [n] \<mapsto> bs)" for n bs
  proof
    fix q
    show "files_of p (hm_insert n bs d) q = ((files_of p d)(p @ [n] \<mapsto> bs)) q"
      by (cases q rule: rev_cases) (auto simp: files_of_def hm_simps)
  qed
  have none: "hm_get d (tmp_name E name) = None \<Longrightarrow> (files_of p d)(p @ [tmp_name E name] := None) = files_of p d"
    by (rule ext) (auto simp: files_of_def)
  have "files_of p d (p @ [n]) = hm_get d n" for n by (simp add: files_of_def)
  with assms tmp show ?thesis
    by (auto simp: write_bytes_in_def write_bytes_atomic_def Let_def ins none split: option.splits if_splits)
qed

subsection \<open>Stored joins\<close>

text \<open>A join that can be resumed from a directory: its record is read back from its own file.\<close>

definition intent :: "pj_codec \<Rightarrow> dir \<Rightarrow> pending_join \<Rightarrow> bool" where
  "intent J d r \<longleftrightarrow> (\<exists>bs. hm_get d (path_for (pj_group_id r)) = Some bs \<and> pj_from_slice J bs = Inr r)"

text \<open>Every record in the directory is in the file of its group.\<close>

definition store_wf :: "pj_codec \<Rightarrow> dir \<Rightarrow> bool" where
  "store_wf J d \<longleftrightarrow> hm_wf d \<and> (\<forall>n bs r. hm_get d n = Some bs \<and> path_extension n = Some ''json'' \<and> pj_from_slice J bs = Inr r
      \<longrightarrow> n = path_for (pj_group_id r))"

text \<open>The same join up to its progress, and not given up.\<close>

definition same_join :: "pending_join \<Rightarrow> pending_join \<Rightarrow> bool" where
  "same_join r r' \<longleftrightarrow>
     r'\<lparr> pj_state := pj_state r, pj_last_attempt_ms := pj_last_attempt_ms r, pj_attempts := pj_attempts r \<rparr> = r \<and>
     (pj_is_terminal r' \<longrightarrow> pj_is_terminal r)"

definition codec_ok :: "pj_codec \<Rightarrow> bool" where
  "codec_ok J \<longleftrightarrow> (\<forall>r bs. pj_to_vec J r = Inr bs \<longrightarrow> pj_from_slice J bs = Inr r)"

lemma same_join_refl [simp, intro]: "same_join r r"
  by (simp add: same_join_def)

lemma same_join_group: "same_join r r' \<Longrightarrow> pj_group_id r' = pj_group_id r"
  unfolding same_join_def by (drule conjunct1, drule arg_cong [of _ _ pj_group_id]) simp

lemma intent_unique: "intent J d r \<Longrightarrow> intent J d r' \<Longrightarrow> pj_group_id r = pj_group_id r' \<Longrightarrow> r = r'"
  by (auto simp: intent_def)

lemma read_entries_from:
  "r \<in> set (fst (read_entries J os es v)) \<Longrightarrow> \<exists>n bs. (n, bs) \<in> set es \<and> path_extension n = Some ''json'' \<and> pj_from_slice J bs = Inr r"
proof (induction es arbitrary: v)
  case (Cons e es)
  obtain name bs where e: "e = (name, bs)" by fastforce
  obtain E v1 where E: "os v = (E, v1)" by fastforce
  obtain rs v2 where rs: "read_entries J os es v1 = (rs, v2)" by fastforce
  show ?case
  proof (cases "path_extension name = Some ''json''")
    case False
    then have "r \<in> set (fst (read_entries J os es v))" using Cons.prems e by simp
    from Cons.IH [OF this] show ?thesis by auto
  next
    case True
    then have "r \<in> set rs \<or> pj_from_slice J bs = Inr r"
      using Cons.prems e E rs by (auto split: option.splits sum.splits)
    then show ?thesis
    proof
      assume "r \<in> set rs"
      then have "r \<in> set (fst (read_entries J os es v1))" by (simp add: rs)
      from Cons.IH [OF this] show ?thesis by auto
    next
      assume "pj_from_slice J bs = Inr r"
      then show ?thesis using True e by auto
    qed
  qed
qed simp

lemma listed_intent:
  assumes "store_wf J d" "pjs_list J os d v = (Inr rs, v')" "r \<in> set rs"
  shows "intent J d r"
proof -
  obtain E v1 where E: "os v = (E, v1)" by fastforce
  then have "r \<in> set (fst (read_entries J os d v1))"
    using assms(2,3) by (auto simp: pjs_list_def split: option.splits prod.splits)
  from read_entries_from [OF this] obtain n bs where "(n, bs) \<in> set d" "path_extension n = Some ''json''" "pj_from_slice J bs = Inr r"
    by blast
  moreover from this have "hm_get d n = Some bs" using assms(1) by (simp add: store_wf_def hm_get_iff)
  ultimately show ?thesis using assms(1) by (auto simp: store_wf_def intent_def)
qed

text \<open>A fault-free listing finds every join.\<close>

definition fault_free :: "('v \<Rightarrow> os_env \<times> 'v) \<Rightarrow> bool" where
  "fault_free os \<longleftrightarrow> (\<forall>v. io_fault (fst (os v)) = (\<lambda>_. None))"

lemma read_entries_all:
  assumes "fault_free os" "(n, bs) \<in> set es" "path_extension n = Some ''json''" "pj_from_slice J bs = Inr r"
  shows "r \<in> set (fst (read_entries J os es v))"
  using assms(2-)
proof (induction es arbitrary: v)
  case (Cons e es)
  obtain name b where e: "e = (name, b)" by fastforce
  obtain E v1 where E: "os v = (E, v1)" by fastforce
  have ok: "io_fault E = (\<lambda>_. None)" using assms(1) E by (metis fault_free_def fst_conv)
  obtain rs v2 where rs: "read_entries J os es v1 = (rs, v2)" by fastforce
  show ?case
  proof (cases "(n, bs) = e")
    case True
    then show ?thesis using Cons.prems(2,3) e E ok rs by simp
  next
    case False
    then have "r \<in> set (fst (read_entries J os es v))" "r \<in> set rs" using Cons rs by (auto, metis fst_conv)
    then show ?thesis using e E ok rs by (auto split: sum.split)
  qed
qed simp

lemma list_succeeds: "fault_free os \<Longrightarrow> \<exists>rs v'. pjs_list J os d v = (Inr rs, v')"
proof -
  assume "fault_free os"
  obtain E v1 where E: "os v = (E, v1)" by fastforce
  then have "io_fault E = (\<lambda>_. None)" using \<open>fault_free os\<close> by (metis fault_free_def fst_conv)
  then show ?thesis using E by (cases "read_entries J os d v1") (simp add: pjs_list_def)
qed

lemma list_all_intents:
  assumes "fault_free os" "intent J d r" "pj_group_id r \<noteq> []"
  shows "\<exists>rs v'. pjs_list J os d v = (Inr rs, v') \<and> r \<in> set rs"
proof -
  obtain E v1 where E: "os v = (E, v1)" by fastforce
  have ok: "io_fault E = (\<lambda>_. None)" using assms(1) E by (metis fault_free_def fst_conv)
  obtain bs where "hm_get d (path_for (pj_group_id r)) = Some bs" "pj_from_slice J bs = Inr r"
    using assms(2) by (auto simp: intent_def)
  then have "r \<in> set (fst (read_entries J os d v1))"
    using read_entries_all [OF assms(1) _ path_extension_json [OF assms(3)]] hm_get_in_set by metis
  then show ?thesis using E ok by (auto simp: pjs_list_def split: prod.splits)
qed

lemma listed_group:
  assumes "store_wf J d" "pjs_list J os d v = (Inr rs, v')" "r \<in> set rs"
  shows "pj_group_id r \<noteq> []"
proof
  assume empty: "pj_group_id r = []"
  obtain E v1 where E: "os v = (E, v1)" by fastforce
  then have "r \<in> set (fst (read_entries J os d v1))"
    using assms(2,3) by (auto simp: pjs_list_def split: option.splits prod.splits)
  from read_entries_from [OF this] obtain n bs where n: "(n, bs) \<in> set d" "path_extension n = Some ''json''" "pj_from_slice J bs = Inr r"
    by blast
  moreover from this have "hm_get d n = Some bs" using assms(1) by (simp add: store_wf_def hm_get_iff)
  ultimately have "n = path_for []" using assms(1) empty unfolding store_wf_def by metis
  then show False using n(2) by (simp add: path_for_def path_extension_def)
qed

subsection \<open>One file operation on a store\<close>

lemma upsert_other:
  "os_ok E \<Longrightarrow> path_extension n = Some ''json'' \<Longrightarrow> n \<noteq> path_for (pj_group_id r) \<Longrightarrow>
   hm_get (snd (pjs_upsert J E r d)) n = hm_get d n"
  using path_extension_tmp [of E "path_for (pj_group_id r)"]
  by (cases "pj_to_vec J r") (auto simp: pjs_upsert_def write_json_atomic_def intro!: write_in_other)

lemma upsert_self:
  "hm_get (snd (pjs_upsert J E r d)) (path_for (pj_group_id r)) = hm_get d (path_for (pj_group_id r)) \<and> isl (fst (pjs_upsert J E r d)) \<or>
   (\<exists>bs. pj_to_vec J r = Inr bs \<and> hm_get (snd (pjs_upsert J E r d)) (path_for (pj_group_id r)) = Some bs)"
  by (cases "pj_to_vec J r") (auto simp: pjs_upsert_def write_json_atomic_def write_in_self)

lemma upsert_wf:
  assumes "store_wf J d" "codec_ok J" "os_ok E"
  shows "store_wf J (snd (pjs_upsert J E r d))"
proof -
  have "hm_wf (snd (pjs_upsert J E r d))"
    using assms(1) by (cases "pj_to_vec J r") (auto simp: store_wf_def pjs_upsert_def write_json_atomic_def write_in_wf)
  moreover have "n = path_for (pj_group_id x)"
    if *: "hm_get (snd (pjs_upsert J E r d)) n = Some bs" "path_extension n = Some ''json''" "pj_from_slice J bs = Inr x" for n bs x
  proof (cases "n = path_for (pj_group_id r)")
    case False
    then show ?thesis using * assms upsert_other by (simp add: store_wf_def)
  next
    case True
    from upsert_self [of J E r d] show ?thesis
    proof
      assume "hm_get (snd (pjs_upsert J E r d)) (path_for (pj_group_id r)) = hm_get d (path_for (pj_group_id r)) \<and> isl (fst (pjs_upsert J E r d))"
      then have "hm_get d n = Some bs" using True *(1) by simp
      then show ?thesis using * assms(1) by (simp add: store_wf_def)
    next
      assume "\<exists>bs. pj_to_vec J r = Inr bs \<and> hm_get (snd (pjs_upsert J E r d)) (path_for (pj_group_id r)) = Some bs"
      then have "pj_to_vec J r = Inr bs" using True *(1) by auto
      then show ?thesis using True *(3) assms(2) by (simp add: codec_ok_def)
    qed
  qed
  ultimately show ?thesis by (simp add: store_wf_def)
qed

lemma remove_wf: "store_wf J d \<Longrightarrow> store_wf J (snd (pjs_remove E g d))"
  unfolding store_wf_def pjs_remove_def using remove_in_wf remove_in_get by blast

lemma path_for_not_tmp: "os_ok E \<Longrightarrow> path_for g \<noteq> tmp_name E name"
proof
  let ?h = "hex_encode E (rng_suffix E)" and ?tw = "takeWhile (\<lambda>c. c \<noteq> CHR ''.'')"
  assume "os_ok E" and eq: "path_for g = tmp_name E name"
  then have h: "set ?h \<subseteq> set ''0123456789abcdef''" by (simp add: os_ok_def)
  then have "\<forall>c \<in> set (rev ?h). c \<noteq> CHR ''.''" by auto
  then have "?tw (rev (tmp_name E name)) = rev ?h" by (simp add: tmp_name_def takeWhile_append)
  moreover have "?tw (rev (path_for g)) = ''nosj''" by (simp add: path_for_def)
  ultimately have "rev ?h = ''nosj''" using eq by simp
  then have "CHR ''n'' \<in> set (rev ?h)" by simp
  then show False using h by auto
qed

lemma upsert_elsewhere:
  "os_ok E \<Longrightarrow> g \<noteq> pj_group_id r \<Longrightarrow> hm_get (snd (pjs_upsert J E r d)) (path_for g) = hm_get d (path_for g)"
  by (cases "pj_to_vec J r") (auto simp: pjs_upsert_def write_json_atomic_def path_for_not_tmp intro!: write_in_other)

subsection \<open>Driving\<close>

text \<open>What one driven record may do to the directory.\<close>

definition drove :: "pj_codec \<Rightarrow> 'v join_seams \<Rightarrow> pending_join \<Rightarrow> dir \<Rightarrow> dir \<Rightarrow> bool" where
  "drove J S r d d' \<longleftrightarrow> (store_wf J d \<longrightarrow> store_wf J d') \<and>
     (\<forall>g. g \<noteq> pj_group_id r \<longrightarrow> hm_get d' (path_for g) = hm_get d (path_for g)) \<and>
     (hm_get d' (path_for (pj_group_id r)) = hm_get d (path_for (pj_group_id r)) \<or>
      (\<exists>r'. intent J d' r' \<and> same_join r r') \<or>
      (\<exists>v v'. js_status S (pj_group_id r) v = (Inr ActiveKeyed, v')))"

lemma drove_same [simp]: "drove J S r d d"
  by (simp add: drove_def)

lemma drove_upsert:
  assumes "codec_ok J" "os_ok E" "same_join r r'" "pjs_upsert J E r' d = (x, d')"
  shows "drove J S r d d'"
proof -
  have g: "pj_group_id r' = pj_group_id r" by (rule same_join_group [OF assms(3)])
  have d': "d' = snd (pjs_upsert J E r' d)" by (simp add: assms(4))
  have "hm_get d' (path_for (pj_group_id r')) = hm_get d (path_for (pj_group_id r')) \<or>
      (\<exists>bs. pj_to_vec J r' = Inr bs \<and> hm_get d' (path_for (pj_group_id r')) = Some bs)"
    using upsert_self [of J E r' d] unfolding d' by blast
  then have "hm_get d' (path_for (pj_group_id r)) = hm_get d (path_for (pj_group_id r)) \<or> intent J d' r'"
    using assms(1) by (auto simp: g intent_def codec_ok_def)
  moreover have "store_wf J d \<longrightarrow> store_wf J d'" unfolding d' using upsert_wf assms(1,2) by blast
  moreover have "\<forall>g. g \<noteq> pj_group_id r \<longrightarrow> hm_get d' (path_for g) = hm_get d (path_for g)"
    unfolding d' using upsert_elsewhere [OF assms(2), of _ r'] g by simp
  ultimately show ?thesis using assms(3) unfolding drove_def by blast
qed

lemma attempt_drove:
  assumes "codec_ok J" "\<forall>v. os_ok (fst (js_os S v))" "attempt J S st send r (d, v) = (x, d', v')"
    "st = Bridged \<or> st = KeyedButUnverified"
  shows "drove J S r d d'"
proof -
  obtain now v1 where now: "js_now S v = (now, v1)" by fastforce
  obtain E v2 where E: "js_os S v1 = (E, v2)" by fastforce
  let ?r = "r\<lparr> pj_state := st, pj_last_attempt_ms := now, pj_attempts := u32_sat_add (pj_attempts r) 1 \<rparr>"
  obtain y d1 where up: "pjs_upsert J E ?r d = (y, d1)" by fastforce
  have "d' = d1" using assms(3) up by (auto simp: attempt_def Let_def now E split: sum.splits prod.splits)
  moreover have "os_ok E" using assms(2) E by (metis fst_conv)
  moreover have "same_join r ?r" using assms(4) by (auto simp: same_join_def pj_is_terminal_def)
  ultimately show ?thesis using drove_upsert [OF assms(1) _ _ up] by blast
qed

lemma drive_once_drove:
  assumes "codec_ok J" "\<forall>v. os_ok (fst (js_os S v))" "drive_once J S r (d, v) = (x, d', v')"
  shows "drove J S r d d'"
proof (cases "pj_is_terminal r")
  case True
  then show ?thesis using assms(3) by (simp add: drive_once_def)
next
  case False
  obtain st v1 where st: "js_status S (pj_group_id r) v = (st, v1)" by fastforce
  show ?thesis
  proof (cases st)
    case (Inl e)
    then show ?thesis using assms(3) False st by (simp add: drive_once_def)
  next
    case (Inr m)
    show ?thesis
    proof (cases m)
      case ActiveKeyed
      obtain E v2 where E: "js_os S v1 = (E, v2)" by fastforce
      have "d' = snd (pjs_remove E (pj_group_id r) d)"
        using assms(3) False st Inr ActiveKeyed E by (auto simp: drive_once_def split: sum.splits prod.splits)
      then show ?thesis using st Inr ActiveKeyed remove_wf [of J d E]
        by (auto simp: drove_def pjs_remove_def remove_in_other)
    next
      case Absent
      then have "attempt J S Bridged (js_rebridge S) r (d, v1) = (x, d', v')"
        using assms(3) False st Inr by (simp add: drive_once_def)
      then show ?thesis by (rule attempt_drove [OF assms(1,2)]) simp
    next
      case ListedButUnkeyed
      then have "attempt J S KeyedButUnverified (js_request_join_result S) r (d, v1) = (x, d', v')"
        using assms(3) False st Inr by (simp add: drive_once_def)
      then show ?thesis by (rule attempt_drove [OF assms(1,2)]) simp
    qed
  qed
qed

text \<open>Each loop over records read from a directory keeps every join of that directory.\<close>

definition kept :: "pj_codec \<Rightarrow> 'v join_seams \<Rightarrow> dir \<Rightarrow> dir \<Rightarrow> bool" where
  "kept J S d0 d \<longleftrightarrow> (\<forall>r. intent J d0 r \<longrightarrow> (\<exists>r'. intent J d r' \<and> same_join r r') \<or>
     (\<exists>v v'. js_status S (pj_group_id r) v = (Inr ActiveKeyed, v')))"

lemma kept_refl [simp]: "kept J S d d"
  using same_join_refl by (auto simp: kept_def)

lemma intent_carry:
  "hm_get d' (path_for (pj_group_id r)) = hm_get d (path_for (pj_group_id r)) \<Longrightarrow> intent J d r \<Longrightarrow> intent J d' r"
  by (simp add: intent_def)

lemma kept_drove:
  assumes "kept J S d0 d" "drove J S r d d'" "intent J d0 r"
  shows "kept J S d0 d'"
  unfolding kept_def
proof (intro allI impI)
  fix r0 assume r0: "intent J d0 r0"
  let ?keyed = "\<exists>v v'. js_status S (pj_group_id r0) v = (Inr ActiveKeyed, v')"
  from assms(1) r0 consider (still) r1 where "intent J d r1" "same_join r0 r1" | (keyed) ?keyed unfolding kept_def by blast
  then show "(\<exists>r'. intent J d' r' \<and> same_join r0 r') \<or> ?keyed"
  proof cases
    case still
    have g: "pj_group_id r1 = pj_group_id r0" by (rule same_join_group [OF still(2)])
    show ?thesis
    proof (cases "pj_group_id r0 = pj_group_id r")
      case True
      then have "r0 = r" using intent_unique [OF r0 assms(3)] by simp
      with assms(2) consider "hm_get d' (path_for (pj_group_id r1)) = hm_get d (path_for (pj_group_id r1))"
        | r' where "intent J d' r'" "same_join r0 r'" | ?keyed
        unfolding drove_def using g by auto
      then show ?thesis using still intent_carry by cases blast+
    next
      case False
      then have "hm_get d' (path_for (pj_group_id r1)) = hm_get d (path_for (pj_group_id r1))"
        using assms(2) g by (simp add: drove_def)
      then show ?thesis using still intent_carry by blast
    qed
  qed blast
qed

lemma drive_each_kept:
  assumes "codec_ok J" "\<forall>v. os_ok (fst (js_os S v))" "\<forall>r \<in> set rs. intent J d0 r" "kept J S d0 d" "store_wf J d"
    "drive_each J S rs (d, v) = (x, d', v')"
  shows "kept J S d0 d' \<and> store_wf J d'"
  using assms(3-)
proof (induction rs arbitrary: d v x d' v')
  case (Cons r rs)
  obtain y d1 v1 where one: "drive_once J S r (d, v) = (y, d1, v1)" by (metis prod_cases3)
  have dr: "drove J S r d d1" by (rule drive_once_drove [OF assms(1,2) one])
  have k: "kept J S d0 d1" "store_wf J d1" using kept_drove [OF Cons.prems(2) dr] Cons.prems(1,3) dr by (auto simp: drove_def)
  show ?case
  proof (cases y)
    case (Inl e)
    then show ?thesis using Cons.prems(4) one k by simp
  next
    case (Inr out)
    obtain z d2 v2 where rest: "drive_each J S rs (d1, v1) = (z, d2, v2)" by (metis prod_cases3)
    have "kept J S d0 d2 \<and> store_wf J d2" using Cons.IH [OF _ k rest] Cons.prems(1) by simp
    moreover have "d' = d2" using Cons.prems(4) one Inr rest by (auto split: sum.splits)
    ultimately show ?thesis by simp
  qed
qed simp

lemma drive_due_kept:
  assumes "codec_ok J" "\<forall>v. os_ok (fst (js_os S v))" "\<forall>r \<in> set rs. intent J d0 r" "kept J S d0 d" "store_wf J d"
    "drive_due J S rs (d, v) = (x, d', v')"
  shows "kept J S d0 d' \<and> store_wf J d'"
  using assms(3-)
proof (induction rs arbitrary: d v x d' v')
  case (Cons r rs)
  obtain now v0 where now: "js_now S v = (now, v0)" by fastforce
  obtain y d1 v1 where one: "(if is_due r now then drive_once J S r (d, v0) else (Inr DrivePending, d, v0)) = (y, d1, v1)"
    by (rule prod_cases3)
  have dr: "drove J S r d d1" using one drive_once_drove [OF assms(1,2)] by (auto split: if_splits)
  have k: "kept J S d0 d1" "store_wf J d1" using kept_drove [OF Cons.prems(2) dr] Cons.prems(1,3) dr by (auto simp: drove_def)
  show ?case
  proof (cases "pj_is_terminal r")
    case True
    then have "drive_due J S rs (d, v) = (x, d', v')" using Cons.prems(4) by simp
    then show ?thesis using Cons.IH [OF _ Cons.prems(2,3)] Cons.prems(1) by simp
  next
    case live: False
    show ?thesis
    proof (cases y)
      case (Inl e)
      then show ?thesis using Cons.prems(4) live now one k by simp
    next
      case (Inr out)
      obtain z d2 v2 where rest: "drive_due J S rs (d1, v1) = (z, d2, v2)" by (metis prod_cases3)
      have "kept J S d0 d2 \<and> store_wf J d2" using Cons.IH [OF _ k rest] Cons.prems(1) by simp
      moreover have "d' = d2" using Cons.prems(4) live now one Inr rest by (auto split: sum.splits)
      ultimately show ?thesis by simp
    qed
  qed
qed simp

end
