(* ===== verification/Group_Recovery.thy ===== *)
theory Group_Recovery
  imports Group_Log_Client Relay_Log_Fetch "HOL-Library.Sublist"
begin

text \<open>
  Group recovery as the client runs it (\<^verbatim>\<open>Client::recover_group_once\<close>, \<^verbatim>\<open>trigger_group_recovery\<close> and
  \<^verbatim>\<open>wedge_watchdog_once\<close> of \<^verbatim>\<open>fetchit-chat/src/client.rs\<close>), composed with the relay of the other
  theories: a fetch runs the relay's handler and collects the pages it sends.
\<close>

subsection \<open>The driver on the client\<close>

definition engine_a_available :: "bool option \<Rightarrow> bool" where
  "engine_a_available latch = (case latch of Some b \<Rightarrow> b | None \<Rightarrow> True)"

definition on_world :: "('w \<Rightarrow> 'r \<times> 'w) \<Rightarrow> 'w \<times> 'l \<Rightarrow> 'r \<times> 'w \<times> 'l" where
  "on_world f wl = (case f (fst wl) of (r, w) \<Rightarrow> (r, w, snd wl))"

text \<open>
  What the client plugs into the driver: a probe of the group state, the apply endpoints of the
  daemon, the resume of pending joins (the groups it drove), and the relay, if there is one.
\<close>

record 'w client_env =
  ce_codec :: codec
  ce_daemon :: "'w daemon"
  ce_my_agent_hex :: string
  ce_probe :: "string \<Rightarrow> 'w \<Rightarrow> (chat_error + group_state) \<times> 'w"
  ce_drive_pending :: "'w \<Rightarrow> (chat_error + string list) \<times> 'w"
  ce_relay :: "'w relay_fetch option"

definition client_cold :: "'w client_env \<Rightarrow> string \<Rightarrow> 'w \<Rightarrow> (chat_error + bool) \<times> 'w" where
  "client_cold K gid w =
     (case ce_drive_pending K w of
        (Inl e, w) \<Rightarrow> (Inl e, w)
      | (Inr outcomes, w) \<Rightarrow> (Inr (gid \<in> set outcomes), w))"

definition client_seams :: "'w client_env \<Rightarrow> bool option \<Rightarrow> ('w \<times> bool option) seams" where
  "client_seams K latch =
     \<lparr> sm_probe = (\<lambda>gid. on_world (ce_probe K gid)),
       sm_fetch = (\<lambda>gid since. on_world (source_fetch_since (ce_codec K)
          (if engine_a_available latch then ce_relay K else None) gid since)),
       sm_apply = (\<lambda>gid rc. x0xd_apply (ce_codec K) (ce_daemon K) (ce_my_agent_hex K) gid rc),
       sm_cold = (\<lambda>gid. on_world (client_cold K gid)) \<rparr>"

definition recover_group_once :: "'w client_env \<Rightarrow> string \<Rightarrow> nat option \<Rightarrow> recovery \<times> 'w \<times> bool option
    \<Rightarrow> (chat_error + recover_outcome) \<times> recovery \<times> 'w \<times> bool option" where
  "recover_group_once K gid target st = recover_once (client_seams K (snd (snd st))) gid target st"

subsection \<open>Triggers\<close>

definition ladder_cooldown_ms :: nat where "ladder_cooldown_ms = 10 * 60 * 1000"

type_synonym ladder = "(string, nat) hmap"

definition ladder_cooled_down :: "nat \<Rightarrow> string \<Rightarrow> ladder \<Rightarrow> bool" where
  "ladder_cooled_down now group_id m =
     (case hm_get m group_id of None \<Rightarrow> True | Some last_ms \<Rightarrow> now - last_ms \<ge> ladder_cooldown_ms)"

definition mark_ladder_attempt :: "nat \<Rightarrow> string \<Rightarrow> ladder \<Rightarrow> ladder" where
  "mark_ladder_attempt now group_id m = hm_insert group_id now (if length m > 10000 then hm_empty else m)"

text \<open>
  The client's recovery state: the driver's (its status map is the one the shell sees), the groups
  with a pass in flight, the marks of the re-key ladder, the tasks spawned and the conversations
  handed to the forced re-key.
\<close>

record client_rec =
  cl_recovery :: recovery
  cl_recovering :: "string list"
  cl_ladder :: ladder
  cl_spawned :: "(string \<times> nat option) list"
  cl_rekeys :: "string list"

text \<open>The part of a trigger that runs at once.\<close>

definition trigger_group_recovery :: "string \<Rightarrow> nat option \<Rightarrow> client_rec \<Rightarrow> client_rec" where
  "trigger_group_recovery gid target c =
     (let c = c\<lparr> cl_recovery := mark_reconnecting gid (cl_recovery c) \<rparr>
      in if gid \<in> set (cl_recovering c) then c
         else c\<lparr> cl_recovering := cl_recovering c @ [gid], cl_spawned := cl_spawned c @ [(gid, target)] \<rparr>)"

definition rekey_damped :: "nat \<Rightarrow> string \<Rightarrow> client_rec \<Rightarrow> client_rec" where
  "rekey_damped now gid c =
     (if ladder_cooled_down now gid (cl_ladder c)
      then c\<lparr> cl_ladder := mark_ladder_attempt now gid (cl_ladder c), cl_rekeys := cl_rekeys c @ [gid] \<rparr>
      else c)"

text \<open>The task a trigger spawns; \<open>is_group\<close> tells a group from a direct conversation.\<close>

definition recovery_task :: "'w client_env \<Rightarrow> (string \<Rightarrow> bool) \<Rightarrow> nat \<Rightarrow> string \<Rightarrow> nat option \<Rightarrow> client_rec \<times> 'w \<times> bool option
    \<Rightarrow> client_rec \<times> 'w \<times> bool option" where
  "recovery_task K is_group now gid target = (\<lambda>(c, wl).
     (let (c, wl) = (if is_group gid
            then (case recover_group_once K gid target (cl_recovery c, wl) of (_, d, wl) \<Rightarrow> (c\<lparr> cl_recovery := d \<rparr>, wl))
            else (rekey_damped now gid c, wl))
      in (c\<lparr> cl_recovering := removeAll gid (cl_recovering c) \<rparr>, wl)))"

definition watchdog_visit :: "(string \<Rightarrow> bool) \<Rightarrow> nat \<Rightarrow> string \<Rightarrow> client_rec \<Rightarrow> client_rec" where
  "watchdog_visit is_group now gid c =
     (if gsm_get (rc_status (cl_recovery c)) gid = Reconnecting then c
      else if is_group gid then trigger_group_recovery gid None c
      else rekey_damped now gid c)"

definition wedge_watchdog_once :: "(string \<Rightarrow> bool) \<Rightarrow> nat \<Rightarrow> (string \<times> wedge_signals) list \<Rightarrow> client_rec \<Rightarrow> client_rec" where
  "wedge_watchdog_once is_group now_ms snapshot c =
     fold (watchdog_visit is_group now_ms) (groups_to_recover now_ms wedge_threshold_ms snapshot) c"

subsection \<open>The relay behind a fetch\<close>

text \<open>The pages that arrived on a channel, as events of the client's log channel.\<close>

definition log_events :: "chan \<Rightarrow> outbound \<Rightarrow> log_event list" where
  "log_events tx out = List.map_filter (\<lambda>(t, f). if t = tx then (case f of S_LogRecords l \<Rightarrow> Some (LogChunk l) | _ \<Rightarrow> None) else None) out"

definition relay_fetch :: "env \<Rightarrow> relay_id \<Rightarrow> chan \<Rightarrow> (server_state \<times> 'd) relay_fetch" where
  "relay_fetch E me tx g since = (\<lambda>(s, x).
     (let s' = handle_log_fetch E me tx \<lparr> lf_group_id = g, lf_since_seq = since \<rparr> s;
          evs = log_events tx (drop (length (ss_out s)) (ss_out s'))
      in (case client_log_fetch g evs of Some r \<Rightarrow> r | None \<Rightarrow> Inl LogFetchTimeout, s', x)))"

lemma log_events_pages: "log_fetch_loop g acc (log_events tx (pages tx g rs)) = Some (Inr (acc @ rs))"
proof (induction rs arbitrary: acc rule: length_induct)
  case (1 rs)
  show ?case
  proof (cases "length rs > 64")
    case True
    then show ?thesis using 1 [rule_format, OF shorter [OF True], of "acc @ take 64 rs"]
      by (simp add: pages_big log_events_def map_filter_simps)
  qed (simp add: pages_small log_events_def map_filter_simps)
qed

text \<open>A reader whose channel takes frames gets exactly the records it may see.\<close>

lemma relay_fetch_visible:
  assumes "\<forall>out f. ev_accepts E out tx f"
  shows "fst (relay_fetch E me tx g since (s, x)) =
      Inr (map wire_record (filter (visible_to me) (fetch_since (ss_group_log s) g since)))"
    and "snd (snd (relay_fetch E me tx g since (s, x))) = x"
proof -
  let ?rs = "map wire_record (filter (visible_to me) (fetch_since (ss_group_log s) g since))"
  let ?s = "handle_log_fetch E me tx \<lparr> lf_group_id = g, lf_since_seq = since \<rparr> s"
  obtain n where "ss_out ?s = ss_out s @ take n (pages tx g ?rs)" "n = page_count ?rs"
    using send_log_pages [of "ev_accepts E" tx g ?rs "ss_out s"] assms unfolding fetch_out by auto
  then have "ss_out ?s = ss_out s @ pages tx g ?rs" by (simp add: pages_def)
  then show "fst (relay_fetch E me tx g since (s, x)) = Inr ?rs"
    using log_events_pages [of g "[]" tx ?rs] by (simp add: relay_fetch_def client_log_fetch_def Let_def)
  show "snd (snd (relay_fetch E me tx g since (s, x))) = x" by (simp add: relay_fetch_def Let_def)
qed

end
