(* ===== verification/Durable_Join.thy ===== *)
theory Durable_Join
  imports Pending_Join_Properties Group_Recovery
begin

text \<open>
  Joining a group durably, as the client does it (\<^verbatim>\<open>join_group_durable\<close>,
  \<^verbatim>\<open>drive_pending_joins_once\<close> and \<^verbatim>\<open>probe_group_state\<close> of \<^verbatim>\<open>fetchit-chat/src/client.rs\<close>, with
  \<^verbatim>\<open>groups/join_bridge.rs\<close>): the invite is posted once, the captured event is stored and
  re-sent until this device holds the keys.
\<close>

subsection \<open>The environment\<close>

definition ascii_alphanumeric :: "char \<Rightarrow> bool" where
  "ascii_alphanumeric c \<longleftrightarrow> (let n = of_char c :: nat in (48 \<le> n \<and> n \<le> 57) \<or> (65 \<le> n \<and> n \<le> 90) \<or> (97 \<le> n \<and> n \<le> 122))"

definition group_id_parse :: "string \<Rightarrow> chat_error + string" where
  "group_id_parse s =
     (if s = [] then Inl (Invalid ''GroupId is empty'')
      else if \<not> list_all (\<lambda>c. ascii_alphanumeric c \<or> c = CHR ''_'' \<or> c = CHR ''-'') s
      then Inl (Invalid ''GroupId contains characters outside [a-zA-Z0-9_-]'')
      else Inr s)"

record captured_self_join =
  cs_topic :: string
  cs_payload :: bytes

record bridge_wrapper =
  bw_topic :: string
  bw_payload_b64 :: string
  bw_joiner_kem_pubkey :: "bytes option"

record chat_identity =
  ci_agent_id_hex :: string
  ci_kem_public_key :: bytes
  ci_agent_id :: bytes
  ci_machine_id :: bytes

text \<open>
  What a join calls besides its own stores, over an outside world \<open>'w\<close>: the codecs and the hash,
  the operating system and the clock, the daemon, the contact cards, the sealing and the router.
\<close>

record 'w join_client =
  jc_codec :: codec
  jc_b64_decode :: "string \<Rightarrow> string + bytes"
  jc_hex_decode :: "string \<Rightarrow> string + bytes"
  jc_sha256_hex :: "string \<Rightarrow> string"
  jc_url_ok :: "string \<Rightarrow> bool"
  jc_pj :: pj_codec
  jc_cv :: cv_codec
  jc_chat :: "chat_identity option"
  jc_os :: "'w \<Rightarrow> os_env \<times> 'w"
  jc_now :: "'w \<Rightarrow> nat \<times> 'w"
  jc_secure :: "chat_error + unit"
  jc_group_self_status :: "string \<Rightarrow> 'w \<Rightarrow> (x0xd_error + group_state option) \<times> 'w"
  jc_members :: "string \<Rightarrow> 'w \<Rightarrow> (chat_error + string list) \<times> 'w"
  jc_encrypt :: "string \<Rightarrow> bytes \<Rightarrow> 'w \<Rightarrow> (x0xd_error + 32 word) \<times> 'w"
  jc_join_post :: "string \<Rightarrow> string option \<Rightarrow> 'w \<Rightarrow> (chat_error + string \<times> captured_self_join option) \<times> 'w"
  jc_wait_membership :: "string \<Rightarrow> string \<Rightarrow> nat \<Rightarrow> 'w \<Rightarrow> (chat_error + unit) \<times> 'w"
  jc_native_first_wait :: nat
  jc_membership_wait :: nat
  jc_primary_relay_url :: "'w \<Rightarrow> string option"
  jc_card_kem :: "string \<Rightarrow> 'w \<Rightarrow> chat_error + bytes"
  jc_import_card :: "string \<Rightarrow> string \<Rightarrow> 'w \<Rightarrow> (chat_error + bool) \<times> 'w"
  jc_card_hints :: "string \<Rightarrow> 'w \<Rightarrow> chat_error + string list option"
  jc_seal :: "bytes \<Rightarrow> bytes \<Rightarrow> bridge_wrapper \<Rightarrow> bytes \<Rightarrow> bytes \<Rightarrow> 'w \<Rightarrow> (chat_error + bytes) \<times> 'w"
  jc_send :: "string \<Rightarrow> bytes \<Rightarrow> string list option \<Rightarrow> 'w \<Rightarrow> (chat_error + unit) \<times> 'w"

subsection \<open>The probe\<close>

text \<open>The state beside the pending joins: the directory of convergence records and the world.\<close>

definition probe_group_state :: "'w join_client \<Rightarrow> string \<Rightarrow> dir \<times> 'w \<Rightarrow> (chat_error + group_state) \<times> dir \<times> 'w" where
  "probe_group_state K gid = (\<lambda>(c, w).
     case jc_secure K of Inl e \<Rightarrow> (Inl e, c, w) | Inr _ \<Rightarrow>
     (case jc_group_self_status K gid w of
        (Inl e, w) \<Rightarrow> (Inl (chat_error_of_x0xd e), c, w)
      | (Inr (Some st), w) \<Rightarrow> (Inr st, c, w)
      | (Inr None, w) \<Rightarrow>
     (case group_id_parse gid of Inl e \<Rightarrow> (Inl e, c, w) | Inr parsed \<Rightarrow>
     (case jc_members K parsed w of (Inl e, w) \<Rightarrow> (Inl e, c, w) | (Inr members, w) \<Rightarrow>
     (case jc_chat K of None \<Rightarrow> (Inl (Invalid ''group probe requires chat state''), c, w) | Some me \<Rightarrow>
      if ci_agent_id_hex me \<notin> set members
      then (Inr \<lparr> gt_keyed = False, gt_in_roster = False, gt_epoch = 0 \<rparr>, c, w)
      else (let (E, w) = jc_os K w in case open_store E of Inl e \<Rightarrow> (Inl e, c, w) | Inr _ \<Rightarrow>
       (let (E, w) = jc_os K w in case cvs_get (jc_cv K) E gid c of
          Inl e \<Rightarrow> (Inl e, c, w)
        | Inr found \<Rightarrow>
            if (case found of Some rec \<Rightarrow> cv_epoch rec > 0 | None \<Rightarrow> False)
            then (Inr \<lparr> gt_keyed = True, gt_in_roster = True, gt_epoch = cv_epoch (the found) \<rparr>, c, w)
            else (case jc_encrypt K gid [0] w of
                    (Inr secret_epoch, w) \<Rightarrow>
                      (let epoch = unat secret_epoch; (now, w) = jc_now K w; (E, w) = jc_os K w
                       in case cvs_record (jc_cv K) E gid epoch now c of
                            (Inl e, c) \<Rightarrow> (Inl e, c, w)
                          | (Inr _, c) \<Rightarrow> (Inr \<lparr> gt_keyed = True, gt_in_roster = True, gt_epoch = epoch \<rparr>, c, w))
                  | (Inl _, w) \<Rightarrow>
                      (let (c, w) = (if found \<noteq> None then (let (E, w) = jc_os K w in (snd (cvs_remove E gid c), w)) else (c, w))
                       in (Inr \<lparr> gt_keyed = False, gt_in_roster = True, gt_epoch = 0 \<rparr>, c, w))))))))))"

definition note_group_converged :: "'w join_client \<Rightarrow> string \<Rightarrow> nat \<Rightarrow> dir \<times> 'w \<Rightarrow> dir \<times> 'w" where
  "note_group_converged K gid epoch = (\<lambda>(c, w).
     (case jc_chat K of None \<Rightarrow> (c, w) | Some _ \<Rightarrow>
      (let (E, w) = jc_os K w in case open_store E of Inl _ \<Rightarrow> (c, w) | Inr _ \<Rightarrow>
       (let (now, w) = jc_now K w; (E, w) = jc_os K w in (snd (cvs_record (jc_cv K) E gid epoch now c), w)))))"

subsection \<open>The bridge\<close>

definition inviter_agent_id_from_member_joined :: "codec \<Rightarrow> bytes \<Rightarrow> string option" where
  "inviter_agent_id_from_member_joined C payload =
     (case cd_json_parse C payload of None \<Rightarrow> None | Some v \<Rightarrow> json_str_at ''inviter_agent_id'' v)"

definition agent_hex_to_bytes :: "'w join_client \<Rightarrow> string \<Rightarrow> chat_error + bytes" where
  "agent_hex_to_bytes K agent_hex =
     (case jc_hex_decode K agent_hex of
        Inl e \<Rightarrow> Inl (Invalid (''join-bridge: owner agent_id hex decode: '' @ e))
      | Inr bs \<Rightarrow> if length bs = 32 then Inr bs else Inl (Invalid ''join-bridge: owner agent_id is not 32 bytes''))"

definition emit_self_join_bridge :: "'w join_client \<Rightarrow> captured_self_join \<Rightarrow> string \<Rightarrow> bytes \<Rightarrow> bytes \<Rightarrow> bytes \<Rightarrow> bytes
    \<Rightarrow> string list option \<Rightarrow> 'w \<Rightarrow> (chat_error + unit) \<times> 'w" where
  "emit_self_join_bridge K captured owner_agent_hex owner_kem_pub joiner_kem_pub local_agent_id local_machine_id hints w =
     (case agent_hex_to_bytes K owner_agent_hex of Inl e \<Rightarrow> (Inl e, w) | Inr owner_bytes \<Rightarrow>
      (case jc_seal K owner_bytes owner_kem_pub
              \<lparr> bw_topic = cs_topic captured, bw_payload_b64 = cd_b64_encode (jc_codec K) (cs_payload captured),
                bw_joiner_kem_pubkey = Some joiner_kem_pub \<rparr> local_agent_id local_machine_id w of
         (Inl e, w) \<Rightarrow> (Inl e, w)
       | (Inr envelope, w) \<Rightarrow> jc_send K owner_agent_hex envelope hints w))"

definition resolve_owner_kem_with_fallback :: "'w join_client \<Rightarrow> string option \<Rightarrow> string \<Rightarrow> 'w \<Rightarrow> (chat_error + bytes) \<times> 'w" where
  "resolve_owner_kem_with_fallback K relay agent_id_hex w =
     (case jc_card_kem K agent_id_hex w of
        Inl (ShareCardMissing _) \<Rightarrow>
          (case relay of
             None \<Rightarrow> (Inl (ShareCardMissing (take 12 agent_id_hex)), w)
           | Some url \<Rightarrow>
               (case jc_import_card K url agent_id_hex w of
                  (Inl e, w) \<Rightarrow> (Inl e, w)
                | (Inr imported, w) \<Rightarrow>
                    if imported then (jc_card_kem K agent_id_hex w, w)
                    else (Inl (ShareCardMissing (take 12 agent_id_hex)), w)))
      | other \<Rightarrow> (other, w))"

definition owner_hints :: "'w join_client \<Rightarrow> string \<Rightarrow> string option \<Rightarrow> 'w \<Rightarrow> string list option" where
  "owner_hints K owner_hex primary w =
     (case jc_card_hints K owner_hex w of
        Inr (Some relays) \<Rightarrow> Some relays
      | _ \<Rightarrow> map_option (\<lambda>url. [url]) primary)"

definition parsed_relay :: "'w join_client \<Rightarrow> string option \<Rightarrow> string option" where
  "parsed_relay K primary = (case primary of Some u \<Rightarrow> if jc_url_ok K u then Some u else None | None \<Rightarrow> None)"

definition rebridge_pending :: "'w join_client \<Rightarrow> pending_join \<Rightarrow> 'w \<Rightarrow> (chat_error + unit) \<times> 'w" where
  "rebridge_pending K r w =
     (case jc_chat K of None \<Rightarrow> (Inl (Invalid ''durable join requires chat state''), w) | Some me \<Rightarrow>
     (case jc_b64_decode K (pj_captured_event_b64 r) of
        Inl e \<Rightarrow> (Inl (Invalid (''pending-join payload b64: '' @ e)), w) | Inr payload \<Rightarrow>
     (case jc_b64_decode K (pj_owner_kem_pubkey_b64 r) of
        Inl e \<Rightarrow> (Inl (Invalid (''pending-join owner_kem b64: '' @ e)), w) | Inr owner_kem \<Rightarrow>
     (case jc_b64_decode K (pj_joiner_kem_pubkey_b64 r) of
        Inl e \<Rightarrow> (Inl (Invalid (''pending-join joiner_kem b64: '' @ e)), w) | Inr joiner_kem \<Rightarrow>
      emit_self_join_bridge K \<lparr> cs_topic = pj_captured_topic r, cs_payload = payload \<rparr> (pj_owner_agent_id r) owner_kem joiner_kem
        (ci_agent_id me) (ci_machine_id me)
        (if pj_owner_relay_hints r = [] then None else Some (pj_owner_relay_hints r)) w))))"

definition build_pending_join :: "'w join_client \<Rightarrow> string \<Rightarrow> string \<Rightarrow> captured_self_join \<Rightarrow> 'w \<Rightarrow> (chat_error + pending_join) \<times> 'w" where
  "build_pending_join K gid_hex invite_hash captured w =
     (case jc_chat K of None \<Rightarrow> (Inl (Invalid ''durable join requires chat state''), w) | Some me \<Rightarrow>
     (case inviter_agent_id_from_member_joined (jc_codec K) (cs_payload captured) of
        None \<Rightarrow> (Inl (Invalid ''durable join: captured event has no inviter''), w) | Some owner_hex \<Rightarrow>
      (let primary = jc_primary_relay_url K w in
       case resolve_owner_kem_with_fallback K (parsed_relay K primary) owner_hex w of
         (Inl e, w) \<Rightarrow> (Inl e, w)
       | (Inr owner_kem, w) \<Rightarrow>
           (let hints = (case owner_hints K owner_hex primary w of Some relays \<Rightarrow> relays | None \<Rightarrow> []);
                (now, w) = jc_now K w
            in (Inr (pending_join_new gid_hex (cd_b64_encode (jc_codec K) (cs_payload captured)) (cs_topic captured) invite_hash
                  owner_hex (cd_b64_encode (jc_codec K) owner_kem) hints
                  (cd_b64_encode (jc_codec K) (ci_kem_public_key me)) now), w)))))"

definition bridge_captured_join :: "'w join_client \<Rightarrow> string \<Rightarrow> captured_self_join \<Rightarrow> 'w \<Rightarrow> (chat_error + unit) \<times> 'w" where
  "bridge_captured_join K gid captured w =
     (case jc_chat K of None \<Rightarrow> (Inl (Invalid ''client built without chat state''), w) | Some me \<Rightarrow>
     (case inviter_agent_id_from_member_joined (jc_codec K) (cs_payload captured) of
        None \<Rightarrow> (Inl (Invalid ''join-bridge: captured member_joined has no inviter_agent_id''), w) | Some owner_hex \<Rightarrow>
      (let primary = jc_primary_relay_url K w in
       case resolve_owner_kem_with_fallback K (parsed_relay K primary) owner_hex w of
         (Inl e, w) \<Rightarrow> (Inl e, w)
       | (Inr owner_kem, w) \<Rightarrow>
           (case emit_self_join_bridge K captured owner_hex owner_kem (ci_kem_public_key me) (ci_agent_id me) (ci_machine_id me)
                   (owner_hints K owner_hex primary w) w of
              (Inl e, w) \<Rightarrow> (Inl e, w)
            | (Inr _, w) \<Rightarrow> jc_wait_membership K gid (ci_agent_id_hex me) (jc_membership_wait K) w))))"

subsection \<open>Resuming the stored joins\<close>

definition client_status :: "'w join_client \<Rightarrow> string \<Rightarrow> dir \<times> 'w \<Rightarrow> (chat_error + membership_status) \<times> dir \<times> 'w" where
  "client_status K gid cw =
     (case jc_chat K of None \<Rightarrow> (Inl (Invalid ''durable join requires chat state''), cw) | Some me \<Rightarrow>
     (case group_id_parse gid of Inl e \<Rightarrow> (Inl e, cw) | Inr parsed \<Rightarrow>
     (case probe_group_state K gid cw of
        (Inr st, cw) \<Rightarrow> (Inr (membership st), cw)
      | (Inl _, c, w) \<Rightarrow>
          (case jc_members K parsed w of
             (Inl e, w) \<Rightarrow> (Inl e, c, w)
           | (Inr members, w) \<Rightarrow> (Inr (if ci_agent_id_hex me \<in> set members then ListedButUnkeyed else Absent), c, w)))))"

definition beside :: "('w \<Rightarrow> 'r \<times> 'w) \<Rightarrow> dir \<times> 'w \<Rightarrow> 'r \<times> dir \<times> 'w" where
  "beside f = (\<lambda>(c, w). case f w of (r, w) \<Rightarrow> (r, c, w))"

definition client_join_seams :: "'w join_client \<Rightarrow> (dir \<times> 'w) join_seams" where
  "client_join_seams K =
     \<lparr> js_os = beside (jc_os K), js_now = beside (jc_now K), js_status = client_status K,
       js_rebridge = (\<lambda>r. beside (rebridge_pending K r)),
       js_request_join_result = (\<lambda>r. beside (rebridge_pending K r)) \<rparr>"

definition drive_pending_joins_once :: "'w join_client \<Rightarrow> dir \<times> dir \<times> 'w
    \<Rightarrow> (chat_error + (string \<times> drive_outcome) list) \<times> dir \<times> dir \<times> 'w" where
  "drive_pending_joins_once K = (\<lambda>(d, v).
     (let S = client_join_seams K in
      if jc_chat K = None then (Inr [], d, v)
      else (let (E, v) = js_os S v in case open_store E of Inl e \<Rightarrow> (Inl e, d, v) | Inr _ \<Rightarrow>
           (let (E, v) = js_os S v in case open_store E of Inl e \<Rightarrow> (Inl e, d, v) | Inr _ \<Rightarrow>
           (case pjs_list (jc_pj K) (js_os S) d v of
              (Inl e, v) \<Rightarrow> (Inl e, d, v)
            | (Inr records, v) \<Rightarrow> drive_due (jc_pj K) S records (d, v))))))"

definition pending_joins :: "'w join_client \<Rightarrow> dir \<times> dir \<times> 'w \<Rightarrow> (chat_error + string list) \<times> dir \<times> dir \<times> 'w" where
  "pending_joins K = (\<lambda>(d, v).
     (let S = client_join_seams K in
      case jc_chat K of None \<Rightarrow> (Inl (Invalid ''durable join requires chat state''), d, v) | Some _ \<Rightarrow>
      (let (E, v) = js_os S v in case open_store E of Inl e \<Rightarrow> (Inl e, d, v) | Inr _ \<Rightarrow>
      (case pjs_list (jc_pj K) (js_os S) d v of
         (Inl e, v) \<Rightarrow> (Inl e, d, v)
       | (Inr records, v) \<Rightarrow> (Inr (map pj_group_id (filter (\<lambda>r. \<not> pj_is_terminal r) records)), d, v)))))"

subsection \<open>The first join\<close>

datatype join_outcome = JoinConverged string | JoinPending string

definition run_native_then_bridge :: "captured_self_join option \<Rightarrow> ('w \<Rightarrow> (chat_error + unit) \<times> 'w)
    \<Rightarrow> (captured_self_join \<Rightarrow> 'w \<Rightarrow> (chat_error + unit) \<times> 'w) \<Rightarrow> 'w \<Rightarrow> (chat_error + unit) \<times> 'w" where
  "run_native_then_bridge captured native bridge w =
     (case native w of (native_result, w) \<Rightarrow>
      (case captured of
         Some cap \<Rightarrow> bridge cap w
       | None \<Rightarrow>
           (case native_result of
              Inr _ \<Rightarrow> (Inr (), w)
            | Inl e \<Rightarrow> (Inl (Invalid (''group join: native convergence failed ('' @ chat_error_display e @
                 '') and the daemon returned no inline member_joined, so the Welcome cannot be bridged'')), w))))"

text \<open>The steps after the record is stored, and what the caller is told.\<close>

definition finish_join :: "'w join_client \<Rightarrow> chat_identity \<Rightarrow> string \<Rightarrow> captured_self_join option \<Rightarrow> dir \<times> dir \<times> 'w
    \<Rightarrow> (chat_error + join_outcome) \<times> dir \<times> dir \<times> 'w" where
  "finish_join K me gid captured = (\<lambda>(d, c, w).
     (case run_native_then_bridge captured
             (jc_wait_membership K gid (ci_agent_id_hex me) (jc_native_first_wait K)) (bridge_captured_join K gid) w of
        (Inr _, w) \<Rightarrow> (Inr (JoinConverged gid), d, c, w)
      | (Inl (JoinerNotConverged _ _), w) \<Rightarrow> (Inr (JoinPending gid), d, c, w)
      | (Inl e, w) \<Rightarrow>
          if captured \<noteq> None then (Inr (JoinPending gid), d, c, w)
          else (let (E, w) = jc_os K w in (Inl e, snd (pjs_remove E gid d), c, w))))"

definition post_and_join :: "'w join_client \<Rightarrow> chat_identity \<Rightarrow> string \<Rightarrow> string option \<Rightarrow> string \<Rightarrow> dir \<times> dir \<times> 'w
    \<Rightarrow> (chat_error + join_outcome) \<times> dir \<times> dir \<times> 'w" where
  "post_and_join K me invite display_name invite_hash = (\<lambda>(d, c, w).
     (case jc_join_post K invite display_name w of
        (Inl e, w) \<Rightarrow> (Inl e, d, c, w)
      | (Inr (gid, None), w) \<Rightarrow> finish_join K me gid None (d, c, w)
      | (Inr (gid, Some cap), w) \<Rightarrow>
          (case build_pending_join K gid invite_hash cap w of
             (Inl e, w) \<Rightarrow> (Inl e, d, c, w)
           | (Inr r, w) \<Rightarrow>
               (let (E, w) = jc_os K w in
                case pjs_upsert (jc_pj K) E r d of
                  (Inl e, d) \<Rightarrow> (Inl e, d, c, w)
                | (Inr _, d) \<Rightarrow> finish_join K me gid (Some cap) (d, c, w)))))"

definition join_group_durable :: "'w join_client \<Rightarrow> string \<Rightarrow> string option \<Rightarrow> dir \<times> dir \<times> 'w
    \<Rightarrow> (chat_error + join_outcome) \<times> dir \<times> dir \<times> 'w" where
  "join_group_durable K invite display_name = (\<lambda>(d, c, w).
     (case jc_chat K of None \<Rightarrow> (Inl (Invalid ''client built without chat state''), d, c, w) | Some me \<Rightarrow>
      (let (E, w) = jc_os K w in case open_store E of Inl e \<Rightarrow> (Inl e, d, c, w) | Inr _ \<Rightarrow>
       (let invite_hash = jc_sha256_hex K invite in
        case pjs_list (jc_pj K) (jc_os K) d w of
          (Inl e, w) \<Rightarrow> (Inl e, d, c, w)
        | (Inr records, w) \<Rightarrow>
            (case find (\<lambda>r. \<not> pj_is_terminal r \<and> pj_invite_hash r = invite_hash) records of
               Some existing \<Rightarrow> (Inr (JoinPending (pj_group_id existing)), d, c, w)
             | None \<Rightarrow> post_and_join K me invite display_name invite_hash (d, c, w))))))"

subsection \<open>Recovery on top\<close>

text \<open>
  The client of the recovery driver: its probe and its cold path are the ones above. The world of
  the driver is the two directories together with the rest.
\<close>

definition recovery_env :: "'w join_client \<Rightarrow> 'w daemon \<Rightarrow> 'w relay_fetch option \<Rightarrow> (dir \<times> dir \<times> 'w) client_env" where
  "recovery_env K D relay =
     \<lparr> ce_codec = jc_codec K,
       ce_daemon = \<lparr> dm_secure = dm_secure D,
         dm_apply_metadata_event = (\<lambda>g p a (d, c, w). case dm_apply_metadata_event D g p a w of (r, w) \<Rightarrow> (r, d, c, w)),
         dm_apply_join_result = (\<lambda>g m p o' (d, c, w). case dm_apply_join_result D g m p o' w of (r, w) \<Rightarrow> (r, d, c, w)) \<rparr>,
       ce_my_agent_hex = (case jc_chat K of Some me \<Rightarrow> ci_agent_id_hex me | None \<Rightarrow> []),
       ce_probe = (\<lambda>g (d, cw). case probe_group_state K g cw of (r, cw) \<Rightarrow> (r, d, cw)),
       ce_drive_pending = (\<lambda>dcw. case drive_pending_joins_once K dcw of
           (Inl e, dcw) \<Rightarrow> (Inl e, dcw) | (Inr outs, dcw) \<Rightarrow> (Inr (map fst outs), dcw)),
       ce_relay = map_option (\<lambda>R g since (d, c, w). case R g since w of (r, w) \<Rightarrow> (r, d, c, w)) relay \<rparr>"

subsection \<open>Waiting for the roster\<close>

text \<open>
  The poll loop of \<^verbatim>\<open>groups/membership.rs\<close>; the first argument bounds the polls, and \<open>None\<close> means
  that the loop is still running then.
\<close>

fun poll_membership :: "nat \<Rightarrow> string \<Rightarrow> string \<Rightarrow> nat \<Rightarrow> nat \<Rightarrow> ('w \<Rightarrow> (chat_error + string list) \<times> 'w) \<Rightarrow> ('w \<Rightarrow> nat) \<Rightarrow> ('w \<Rightarrow> 'w)
    \<Rightarrow> 'w \<Rightarrow> ((chat_error + unit) \<times> 'w) option" where
  "poll_membership 0 gid self_id timeout deadline members clock sleep w = None"
| "poll_membership (Suc n) gid self_id timeout deadline members clock sleep w =
     (case members w of (result, w) \<Rightarrow>
      if (case result of Inr ms \<Rightarrow> self_id \<in> set ms | Inl _ \<Rightarrow> False) then Some (Inr (), w)
      else if clock w \<ge> deadline
      then Some (case result of Inr _ \<Rightarrow> Inl (JoinerNotConverged gid timeout) | Inl e \<Rightarrow> Inl e, w)
      else poll_membership n gid self_id timeout deadline members clock sleep (sleep w))"

definition wait_for_active_membership :: "nat \<Rightarrow> string \<Rightarrow> string \<Rightarrow> nat \<Rightarrow> ('w \<Rightarrow> (chat_error + string list) \<times> 'w) \<Rightarrow> ('w \<Rightarrow> nat)
    \<Rightarrow> ('w \<Rightarrow> 'w) \<Rightarrow> 'w \<Rightarrow> ((chat_error + unit) \<times> 'w) option" where
  "wait_for_active_membership n gid self_id timeout members clock sleep w =
     poll_membership n gid self_id timeout (clock w + timeout) members clock sleep w"

text \<open>
  When a fetch never turns the clock back and every sleep moves it forward, the loop ends: as many
  polls as the timeout has milliseconds, and one more, are enough.
\<close>

lemma poll_ends:
  assumes "\<forall>w. clock w \<le> clock (snd (members w))" "\<forall>w. clock w < clock (sleep w)"
  shows "deadline \<le> clock w + n \<Longrightarrow> \<exists>r. poll_membership (Suc n) gid self_id timeout deadline members clock sleep w = Some r"
proof (induction n arbitrary: w)
  case 0
  obtain x w1 where m: "members w = (x, w1)" by fastforce
  then have "deadline \<le> clock w1" using assms(1) 0 by (metis add.right_neutral le_trans snd_conv)
  then show ?case using m by simp
next
  case (Suc n)
  obtain x w1 where m: "members w = (x, w1)" by fastforce
  then have "clock w \<le> clock w1" using assms(1) by (metis snd_conv)
  then have "deadline \<le> clock (sleep w1) + n" using assms(2) [rule_format, of w1] Suc.prems by simp
  from Suc.IH [OF this] show ?case using m by (subst poll_membership.simps(2)) auto
qed

lemma wait_ends:
  assumes "\<forall>w. clock w \<le> clock (snd (members w))" "\<forall>w. clock w < clock (sleep w)"
  shows "\<exists>r. wait_for_active_membership (Suc timeout) gid self_id timeout members clock sleep w = Some r"
  unfolding wait_for_active_membership_def by (rule poll_ends [OF assms]) simp

end
