(* ===== verification/Group_Recovery_Properties.thy ===== *)
theory Group_Recovery_Properties
  imports Group_Recovery
begin

text \<open>
  Correctness of group recovery: the loop applies records in order and once, the status never claims
  more than a probe showed, and what happens when the relay serves a log in which some records are
  addressed to another member.
\<close>

subsection \<open>The apply loop\<close>

text \<open>An applier that also notes which records it was given.\<close>

definition noting :: "(commit_record \<Rightarrow> 'w \<Rightarrow> (chat_error + apply_outcome) \<times> 'w) \<Rightarrow> commit_record
    \<Rightarrow> 'w \<times> commit_record list \<Rightarrow> (chat_error + apply_outcome) \<times> 'w \<times> commit_record list" where
  "noting ap r = (\<lambda>(w, l). (case ap r w of (x, w) \<Rightarrow> (x, w, l @ [r])))"

lemma noting_app: "noting ap r (w, l) = (case ap r w of (x, w) \<Rightarrow> (x, w, l @ [r]))"
  by (simp add: noting_def)

lemma apply_loop_noted:
  assumes "apply_loop (noting ap) c a k rs (w, l) = (res, w', l')"
  shows "\<exists>new. l' = l @ new \<and> subseq new rs \<and> map cr_seq new = [Suc c ..< Suc c + length new] \<and>
     (\<forall>v. res = Inr v \<longrightarrow> al_cursor v = c + length new \<and>
        (if al_stopped_on_gap v then \<exists>r \<in> set rs. cr_seq r > Suc (al_cursor v) else \<forall>r \<in> set rs. cr_seq r \<le> al_cursor v))"
  using assms
proof (induction rs arbitrary: c a k w l)
  case (Cons r rs)
  consider (old) "cr_seq r \<le> c" | (gap) "cr_seq r > c + 1" | (adj) "cr_seq r = Suc c" by linarith
  then show ?case
  proof cases
    case old
    then have "apply_loop (noting ap) c a (k + 1) rs (w, l) = (res, w', l')" using Cons.prems by simp
    from Cons.IH [OF this] obtain new where new: "l' = l @ new" "subseq new rs" "map cr_seq new = [Suc c ..< Suc c + length new]"
      "\<forall>v. res = Inr v \<longrightarrow> al_cursor v = c + length new \<and>
        (if al_stopped_on_gap v then \<exists>r \<in> set rs. cr_seq r > Suc (al_cursor v) else \<forall>r \<in> set rs. cr_seq r \<le> al_cursor v)"
      by blast
    have "\<forall>v. res = Inr v \<longrightarrow> al_cursor v = c + length new \<and>
        (if al_stopped_on_gap v then \<exists>r \<in> set (r # rs). cr_seq r > Suc (al_cursor v) else \<forall>r \<in> set (r # rs). cr_seq r \<le> al_cursor v)"
      using new(4) old by (metis (no_types, opaque_lifting) list.set_intros(2) set_ConsD trans_le_add1)
    then show ?thesis using new(1,3) list_emb_Cons [OF new(2)] by blast
  next
    case gap
    then show ?thesis using Cons.prems by (intro exI [of _ "[]"]) auto
  next
    case adj
    obtain x w1 where ap: "ap r w = (x, w1)" by fastforce
    show ?thesis
    proof (cases x)
      case (Inl e)
      then show ?thesis using adj Cons.prems ap by (intro exI [of _ "[r]"]) (auto simp: noting_app)
    next
      case (Inr out)
      then have "\<exists>a'. apply_loop (noting ap) (Suc c) a' k rs (w1, l @ [r]) = (res, w', l')"
        using adj Cons.prems ap by (cases out) (auto simp: noting_app)
      then obtain new where new: "l' = (l @ [r]) @ new" "subseq new rs" "map cr_seq new = [Suc (Suc c) ..< Suc (Suc c) + length new]"
        "\<forall>v. res = Inr v \<longrightarrow> al_cursor v = Suc c + length new \<and>
          (if al_stopped_on_gap v then \<exists>r \<in> set rs. cr_seq r > Suc (al_cursor v) else \<forall>r \<in> set rs. cr_seq r \<le> al_cursor v)"
        using Cons.IH by blast
      have "\<forall>v. res = Inr v \<longrightarrow> al_cursor v = c + length (r # new) \<and>
          (if al_stopped_on_gap v then \<exists>r \<in> set (r # rs). cr_seq r > Suc (al_cursor v) else \<forall>r \<in> set (r # rs). cr_seq r \<le> al_cursor v)"
        using new(4) adj by (metis (no_types, opaque_lifting) add_Suc_right add_Suc length_Cons list.set_intros(2) set_ConsD le_add1 add_Suc_shift)
      moreover have "map cr_seq (r # new) = [Suc c ..< Suc c + length (r # new)]" using new(3) adj by (simp add: upt_conv_Cons del: upt_Suc)
      moreover have "l' = l @ r # new" "subseq (r # new) (r # rs)" using new(1,2) by simp_all
      ultimately show ?thesis by blast
    qed
  qed
qed auto

lemma apply_loop_noting_result:
  "apply_loop (noting ap) c a k rs (w, l) = (res, w', l') \<Longrightarrow> apply_loop ap c a k rs w = (res, w')"
proof (induction rs arbitrary: c a k w l)
  case (Cons r rs)
  obtain x w1 where ap: "ap r w = (x, w1)" by fastforce
  with Cons show ?case by (cases x) (auto simp: noting_app split: if_splits apply_outcome.splits)
qed auto

text \<open>
  (C20) The apply loop hands over each record at most once and only in the order of the log: the
  records given to the applier are a subsequence of those fetched, and they carry exactly the
  sequence numbers that follow the cursor, without a hole. The new cursor is the number of the last
  record given, also when the applier found it already applied. If the loop reports a gap, a fetched
  record lies beyond the next number; otherwise every fetched record is at or below the new cursor.
\<close>

theorem apply_in_order:
  assumes "apply_records_in_order (noting ap) c rs (w, []) = (res, w', given)"
  shows "apply_records_in_order ap c rs w = (res, w') \<and> subseq given rs \<and>
      map cr_seq given = [Suc c ..< Suc c + length given] \<and>
      (\<forall>v. res = Inr v \<longrightarrow> al_cursor v = c + length given \<and>
        (if al_stopped_on_gap v then \<exists>r \<in> set rs. cr_seq r > Suc (al_cursor v) else \<forall>r \<in> set rs. cr_seq r \<le> al_cursor v))"
proof -
  note run = assms [unfolded apply_records_in_order_def]
  have "apply_records_in_order ap c rs w = (res, w')"
    unfolding apply_records_in_order_def by (rule apply_loop_noting_result [OF run])
  then show ?thesis using apply_loop_noted [OF run] by auto
qed

definition demo_record :: "nat \<Rightarrow> commit_record" where
  "demo_record n = \<lparr> cr_seq = n, cr_kind = CommitKind, cr_payload_b64 = [], cr_author_agent_id_hex = None \<rparr>"

theorem apply_in_order_witness:
  "\<exists>res w' given. apply_records_in_order (noting (\<lambda>r w. (Inr Applied, Suc w))) 4
       [demo_record 4, demo_record 5, demo_record 6, demo_record 8] (0, []) = (res, w', given) \<and>
     map cr_seq given = [5, 6] \<and> w' = 2 \<and>
     apply_records_in_order (\<lambda>r w. (Inr Applied, Suc w)) 4
       [demo_record 4, demo_record 5, demo_record 6, demo_record 8] 0 = (res, w') \<and>
     (\<forall>v. res = Inr v \<longrightarrow> al_cursor v = 6 \<and> al_stopped_on_gap v)"
proof -
  let ?rs = "[demo_record 4, demo_record 5, demo_record 6, demo_record 8]"
  let ?v = "\<lparr> al_cursor = 6, al_applied = 2, al_skipped = 1, al_stopped_on_gap = True \<rparr>"
  have run: "apply_records_in_order (noting (\<lambda>r w. (Inr Applied, Suc w))) 4 ?rs (0, [])
      = (Inr ?v, 2, [demo_record 5, demo_record 6])"
    by (simp add: apply_records_in_order_def noting_def demo_record_def)
  from apply_in_order [OF run] show ?thesis using run by (simp add: demo_record_def)
qed

subsection \<open>The status after a pass\<close>

lemma gsm_get_set: "gsm_get (gsm_set g st m) g' = (if g' = g then st else gsm_get m g')"
  by (auto simp: gsm_set_def gsm_get_def hm_simps)

lemma rc_marks [simp]:
  "gsm_get (rc_status (mark_live g d)) g' = (if g' = g then Live else gsm_get (rc_status d) g')"
  "gsm_get (rc_status (mark_reconnecting g d)) g' = (if g' = g then Reconnecting else gsm_get (rc_status d) g')"
  "rc_status (set_cursor g n d) = rc_status d"
  "rc_cursor (mark_live g d) g' = rc_cursor d g'"
  "rc_cursor (mark_reconnecting g d) g' = rc_cursor d g'"
  "rc_cursor (set_cursor g n d) g' = (if g' = g then n else rc_cursor d g')"
  by (simp_all add: mark_live_def mark_reconnecting_def set_live_def set_reconnecting_def gsm_get_set
      set_cursor_def rc_cursor_def hm_simps)

lemma apply_loop_cursor:
  "apply_loop ap c a k rs w = (Inr v, w') \<Longrightarrow> c \<le> al_cursor v"
proof (induction rs arbitrary: c a k w)
  case (Cons r rs)
  obtain x w1 where ap: "ap r w = (x, w1)" by fastforce
  with Cons show ?case by (cases x) (fastforce split: if_splits apply_outcome.splits)+
qed auto

text \<open>What a run of the driver may have done, given where it started.\<close>

definition pass_effect :: "'w seams \<Rightarrow> string \<Rightarrow> nat option \<Rightarrow> recovery \<Rightarrow> (chat_error + recover_outcome) \<times> recovery \<times> 'w \<Rightarrow> bool" where
  "pass_effect S gid target d = (\<lambda>(r, d', w').
     (if r = Inr Converged
      then gsm_get (rc_status d') gid = Live \<and> (\<exists>w st. sm_probe S gid w = (Inr st, w') \<and> caught_up target st)
      else gsm_get (rc_status d') gid = gsm_get (rc_status d) gid) \<and>
     rc_cursor d gid \<le> rc_cursor d' gid \<and>
     (\<forall>g. g \<noteq> gid \<longrightarrow> gsm_get (rc_status d') g = gsm_get (rc_status d) g \<and> rc_cursor d' g = rc_cursor d g))"

lemma pass_effect_same: "r \<noteq> Inr Converged \<Longrightarrow> pass_effect S gid target d (r, d, w)"
  by (simp add: pass_effect_def)

lemma pass_effect_live:
  "sm_probe S gid w = (Inr st, w') \<Longrightarrow> caught_up target st \<Longrightarrow> pass_effect S gid target d (Inr Converged, mark_live gid d, w')"
  by (auto simp: pass_effect_def)

lemma pass_effect_cursor:
  "pass_effect S gid target (set_cursor gid n d) x \<Longrightarrow> rc_cursor d gid \<le> n \<Longrightarrow> pass_effect S gid target d x"
  by (cases x) (auto simp: pass_effect_def split: if_splits)

lemma warm_passes_effect: "pass_effect S gid target d (warm_passes n S gid target (d, w))"
proof (induction n arbitrary: d w)
  case (Suc n)
  obtain f w1 where fetch: "sm_fetch S gid (rc_cursor d gid) w = (f, w1)" by fastforce
  show ?case
  proof (cases f)
    case (Inl e)
    with fetch show ?thesis by (simp add: pass_effect_same)
  next
    case (Inr rs)
    show ?thesis
    proof (cases rs)
      case Nil
      with fetch Inr show ?thesis
        by (auto simp: pass_effect_same pass_effect_live split: prod.splits sum.splits)
    next
      case (Cons r rs')
      obtain x w2 where app: "apply_records_in_order (sm_apply S gid) (rc_cursor d gid) rs w1 = (x, w2)" by fastforce
      show ?thesis
      proof (cases x)
        case (Inl e)
        with fetch Inr Cons app show ?thesis by (simp add: pass_effect_same)
      next
        case (Inr v)
        let ?d = "set_cursor gid (al_cursor v) d"
        have le: "rc_cursor d gid \<le> al_cursor v"
          using app unfolding Inr apply_records_in_order_def by (rule apply_loop_cursor)
        have "pass_effect S gid target ?d (warm_passes (Suc n) S gid target (d, w))"
          using fetch \<open>f = Inr rs\<close> Cons app Inr Suc.IH
          by (auto simp: Let_def pass_effect_same pass_effect_live split: prod.splits sum.splits)
        then show ?thesis using le by (rule pass_effect_cursor)
      qed
    qed
  qed
qed (simp add: pass_effect_same)

lemma recover_once_effect:
  assumes "recover_once S gid target (d, w) = (r, d', w')"
  shows "isl r \<and> d' = d \<or> pass_effect S gid target (mark_reconnecting gid d) (r, d', w') \<or>
      pass_effect S gid target d (r, d', w') \<and> r = Inr Converged"
proof -
  obtain p w1 where "sm_probe S gid w = (p, w1)" by fastforce
  with assms warm_passes_effect [of S gid target "mark_reconnecting gid d" max_passes w1] show ?thesis
    by (auto simp: recover_once_def Let_def pass_effect_same pass_effect_live split: sum.splits prod.splits if_splits)
qed

lemma not_converged_reconnecting:
  "recover_once S gid target (d, w) = (Inr out, d', w') \<Longrightarrow> out \<noteq> Converged \<Longrightarrow> gsm_get (rc_status d') gid = Reconnecting"
  using recover_once_effect [of S gid target d w "Inr out" d' w'] by (auto simp: pass_effect_def)

text \<open>
  (C19) The status a shell shows never claims more than the daemon showed. When a run ends converged,
  the last thing it did was a probe that found this device keyed and, for a known target, at that
  epoch or later, and the group is marked live. When it ends in any other way without an error the
  group is left marked reconnecting, and after an error it is either so marked or as it was before.
  The cursor never moves back, and nothing changes for any other group.
\<close>

theorem recovery_status_truthful:
  assumes "recover_once S gid target (d, w) = (r, d', w')"
  shows "(case r of
      Inr Converged \<Rightarrow> gsm_get (rc_status d') gid = Live \<and>
        (\<exists>w0 st. sm_probe S gid w0 = (Inr st, w') \<and> membership st = ActiveKeyed \<and>
           (case target of None \<Rightarrow> True | Some t \<Rightarrow> t \<le> gt_epoch st))
    | Inr _ \<Rightarrow> gsm_get (rc_status d') gid = Reconnecting
    | Inl _ \<Rightarrow> d' = d \<or> gsm_get (rc_status d') gid = Reconnecting) \<and>
    rc_cursor d gid \<le> rc_cursor d' gid \<and>
    (\<forall>g. g \<noteq> gid \<longrightarrow> gsm_get (rc_status d') g = gsm_get (rc_status d) g \<and> rc_cursor d' g = rc_cursor d g)"
  using recover_once_effect [OF assms]
  by (auto simp: pass_effect_def caught_up_def split: if_splits option.splits sum.splits recover_outcome.splits)

text \<open>A daemon that advances one epoch per applied record, over a log of three records.\<close>

definition demo_seams :: "nat seams" where
  "demo_seams = \<lparr> sm_probe = (\<lambda>g w. (Inr \<lparr> gt_keyed = True, gt_in_roster = True, gt_epoch = w \<rparr>, w)),
     sm_fetch = (\<lambda>g c w. (Inr (map demo_record [c + 1 ..< 4]), w)),
     sm_apply = (\<lambda>g r w. (Inr Applied, Suc w)),
     sm_cold = (\<lambda>g w. (Inr False, w)) \<rparr>"

definition demo_recovery :: recovery where
  "demo_recovery = \<lparr> rc_status = gsm_new, rc_cursors = hm_empty \<rparr>"

theorem recovery_status_truthful_witness:
  "\<exists>d' w' w0 st. recover_once demo_seams ''g'' (Some 3) (demo_recovery, 0) = (Inr Converged, d', w') \<and>
     gsm_get (rc_status d') ''g'' = Live \<and> rc_cursor d' ''g'' = 3 \<and>
     sm_probe demo_seams ''g'' w0 = (Inr st, w') \<and> membership st = ActiveKeyed \<and> 3 \<le> gt_epoch st"
proof -
  have run: "fst (recover_once demo_seams ''g'' (Some 3) (demo_recovery, 0)) = Inr Converged"
    "rc_cursor (fst (snd (recover_once demo_seams ''g'' (Some 3) (demo_recovery, 0)))) ''g'' = 3"
    by code_simp+
  obtain d' w' where res: "recover_once demo_seams ''g'' (Some 3) (demo_recovery, 0) = (Inr Converged, d', w')"
    using run(1) by (metis prod.collapse)
  from recovery_status_truthful [OF res] show ?thesis using res run(2) by auto
qed

subsection \<open>The watchdog\<close>

lemma watchdog_visit_skips:
  "gsm_get (rc_status (cl_recovery c)) gid = Reconnecting \<Longrightarrow>
   gsm_get (rc_status (cl_recovery (watchdog_visit is_group now g c))) gid = Reconnecting \<and>
   filter (\<lambda>(g, _). g = gid) (cl_spawned (watchdog_visit is_group now g c)) = filter (\<lambda>(g, _). g = gid) (cl_spawned c)"
  by (auto simp: watchdog_visit_def trigger_group_recovery_def rekey_damped_def Let_def)

lemma watchdog_fold_skips:
  "gsm_get (rc_status (cl_recovery c)) gid = Reconnecting \<Longrightarrow>
   gsm_get (rc_status (cl_recovery (fold (watchdog_visit is_group now) gs c))) gid = Reconnecting \<and>
   filter (\<lambda>(g, _). g = gid) (cl_spawned (fold (watchdog_visit is_group now) gs c)) = filter (\<lambda>(g, _). g = gid) (cl_spawned c)"
proof (induction gs arbitrary: c)
  case (Cons g gs)
  show ?case using Cons.IH [of "watchdog_visit is_group now g c"] watchdog_visit_skips [OF Cons.prems, of is_group now g] by simp
qed simp

text \<open>
  (C37) Once a recovery pass for a group ends without an error and without converging, the watchdog
  never starts another one: however many sweeps follow, at whatever times and with whatever
  signals, no task is spawned for that group, although no pass is in flight any more.
\<close>

theorem watchdog_never_retries:
  assumes "is_group gid"
    and "recover_group_once K gid target (cl_recovery c, wl) = (Inr out, d, wl')" "out \<noteq> Converged"
    and "recovery_task K is_group now gid target (c, wl) = (c', wl'')"
  shows "gid \<notin> set (cl_recovering c') \<and>
    filter (\<lambda>(g, _). g = gid) (cl_spawned (fold (\<lambda>(t, snapshot). wedge_watchdog_once is_group t snapshot) sweeps c'))
       = filter (\<lambda>(g, _). g = gid) (cl_spawned c)"
proof -
  have c': "c' = c\<lparr> cl_recovery := d, cl_recovering := removeAll gid (cl_recovering c) \<rparr>"
    using assms by (simp add: recovery_task_def Let_def)
  have "gsm_get (rc_status d) gid = Reconnecting"
    by (rule not_converged_reconnecting [OF assms(2,3) [unfolded recover_group_once_def]])
  then have "gsm_get (rc_status (cl_recovery c')) gid = Reconnecting" by (simp add: c')
  then have "filter (\<lambda>(g, _). g = gid) (cl_spawned (fold (\<lambda>(t, snapshot). wedge_watchdog_once is_group t snapshot) sweeps c'))
       = filter (\<lambda>(g, _). g = gid) (cl_spawned c')"
  proof (induction sweeps arbitrary: c')
    case (Cons sw sweeps)
    obtain t snap where "sw = (t, snap)" by fastforce
    then show ?case using Cons.IH watchdog_fold_skips [OF Cons.prems] by (simp add: wedge_watchdog_once_def)
  qed simp
  then show ?thesis by (simp add: c')
qed

text \<open>A client on its own: no relay, and a daemon that stays at the epoch of the world.\<close>

definition demo_codec :: codec where
  "demo_codec = \<lparr> cd_b64_encode = (\<lambda>_. []), cd_b64_decode = (\<lambda>_. None), cd_hex_encode = (\<lambda>_. []),
     cd_hex_decode32 = (\<lambda>_. Inr [4]), cd_json_parse = (\<lambda>_. None), cd_json_print = (\<lambda>_. Inr []) \<rparr>"

definition demo_client :: "'w relay_fetch option \<Rightarrow> ('w \<Rightarrow> nat) \<Rightarrow> 'w client_env" where
  "demo_client relay epoch = \<lparr> ce_codec = demo_codec,
     ce_daemon = \<lparr> dm_secure = Inr (), dm_apply_metadata_event = (\<lambda>_ _ _ w. (Inr True, w)),
       dm_apply_join_result = (\<lambda>_ _ _ _ w. (Inr True, w)) \<rparr>,
     ce_my_agent_hex = [], ce_probe = (\<lambda>g w. (Inr \<lparr> gt_keyed = True, gt_in_roster = True, gt_epoch = epoch w \<rparr>, w)),
     ce_drive_pending = (\<lambda>w. (Inr [], w)), ce_relay = relay \<rparr>"

definition demo_client_rec :: client_rec where
  "demo_client_rec = \<lparr> cl_recovery = demo_recovery, cl_recovering = [''g''], cl_ladder = hm_empty,
     cl_spawned = [(''g'', Some 3)], cl_rekeys = [] \<rparr>"

theorem watchdog_never_retries_witness:
  "\<exists>c'. recovery_task (demo_client None id) (\<lambda>_. True) 0 ''g'' (Some 3) (demo_client_rec, 1, None) = (c', 1, None) \<and>
     cl_recovering c' = [] \<and>
     filter (\<lambda>(g, _). g = ''g'') (cl_spawned (fold (\<lambda>(t, snapshot). wedge_watchdog_once (\<lambda>_. True) t snapshot)
        (replicate 9 (1000000, [(''g'', \<lparr> ws_last_progress_ms = 0, ws_recent_receipt_activity = True,
            ws_current_epoch = 1, ws_last_seen_epoch = 1 \<rparr>)])) c')) = [(''g'', Some 3)]"
proof -
  let ?K = "demo_client None id :: nat client_env"
  have still: "fst (recover_group_once ?K ''g'' (Some 3) (cl_recovery demo_client_rec, 1, None)) = Inr StillReconnecting"
    and task: "cl_recovering (fst (recovery_task ?K (\<lambda>_. True) 0 ''g'' (Some 3) (demo_client_rec, 1, None))) = []"
      "snd (recovery_task ?K (\<lambda>_. True) 0 ''g'' (Some 3) (demo_client_rec, 1, None)) = (1, None)"
    by code_simp+
  obtain d wl' where run: "recover_group_once ?K ''g'' (Some 3) (cl_recovery demo_client_rec, 1, None) = (Inr StillReconnecting, d, wl')"
    using still by (metis prod.collapse)
  obtain c' where c': "recovery_task ?K (\<lambda>_. True) 0 ''g'' (Some 3) (demo_client_rec, 1, None) = (c', 1, None)"
    using task(2) by (metis prod.collapse)
  have spawned: "filter (\<lambda>(g, _). g = ''g'') (cl_spawned demo_client_rec) = [(''g'', Some 3)]"
    by (simp add: demo_client_rec_def)
  have rec: "cl_recovering c' = []" using task(1) c' by simp
  show ?thesis
    by (rule exI [of _ c'], rule conjI [OF c'], rule conjI [OF rec],
        rule trans [OF conjunct2 [OF watchdog_never_retries [OF _ run _ c']] spawned]) simp_all
qed

subsection \<open>A log with records for one member\<close>

text \<open>A number is pinned when no record but one for \<open>joiner\<close> can ever carry it.\<close>

definition pinned :: "group_key \<Rightarrow> nat \<Rightarrow> relay_id \<Rightarrow> ram_group_log \<Rightarrow> bool" where
  "pinned g q joiner L \<longleftrightarrow> q < gs_next_seq (slot_of_group L g) \<and>
     (\<forall>r \<in> set (gs_records (slot_of_group L g)). sl_seq r = q \<longrightarrow> sl_recipient r = Some joiner)"

lemma evict_front_subset: "set (fst (evict_front cap rs tot)) \<subseteq> set rs"
  by (induction cap rs tot rule: evict_front.induct) auto

lemma append_slot:
  assumes "append_record t g kind rcp payload author L = (res, L')"
  shows "L' = L \<and> isl res \<or>
    res = Inr (gs_next_seq (slot_of_group L g)) \<and>
    gs_next_seq (slot_of_group L' g) = u64_sat_add (gs_next_seq (slot_of_group L g)) 1 \<and>
    (\<forall>r \<in> set (gs_records (slot_of_group L' g)). r = new_record t kind rcp payload author (gs_next_seq (slot_of_group L g)) \<or>
        r \<in> set (gs_records (slot_of_group L g))) \<and>
    (\<forall>g'. g' \<noteq> g \<longrightarrow> slot_of_group L' g' = slot_of_group L g')"
proof (cases "log_reserve_bytes (record_size (length payload)) L")
  case (Inl e)
  then show ?thesis using assms by (auto simp: append_record_def)
next
  case (Inr L1)
  then have L1: "slot_of_group L1 h = slot_of_group L h" for h
    by (auto simp: log_reserve_bytes_def Let_def split: if_splits)
  obtain recs tot where ev: "evict_front (gl_per_group_cap L1) (gs_records (slot_of_group L g)) (gl_total_bytes L1) = (recs, tot)"
    by fastforce
  then have sub: "set recs \<subseteq> set (gs_records (slot_of_group L g))"
    using evict_front_subset [of "gl_per_group_cap L1" "gs_records (slot_of_group L g)" "gl_total_bytes L1"] by simp
  have res: "res = Inr (gs_next_seq (slot_of_group L g))"
    and L': "L' = L1\<lparr> gl_groups := hm_insert g \<lparr> gs_next_seq = u64_sat_add (gs_next_seq (slot_of_group L g)) 1,
        gs_records = recs @ [new_record t kind rcp payload author (gs_next_seq (slot_of_group L g))] \<rparr> (gl_groups L1), gl_total_bytes := tot \<rparr>"
    using assms Inr ev L1 by (simp_all add: append_record_def Let_def new_record_def)
  have "slot_of_group L' h = (if h = g then \<lparr> gs_next_seq = u64_sat_add (gs_next_seq (slot_of_group L g)) 1,
        gs_records = recs @ [new_record t kind rcp payload author (gs_next_seq (slot_of_group L g))] \<rparr> else slot_of_group L h)" for h
    by (simp only: L' slot_of_insert slot_of_put slot_of_same L1)
  then show ?thesis using sub res by auto
qed

lemma pinned_append:
  assumes "append_record t g' kind rcp payload author L = (res, L')" "pinned g q joiner L" "q < u64_max"
  shows "pinned g q joiner L'"
proof (cases "g' = g")
  case True
  then show ?thesis using append_slot [OF assms(1)] assms(2,3)
    by (auto simp: pinned_def u64_sat_add_def new_record_def)
next
  case False
  then have "slot_of_group L' g = slot_of_group L g" using append_slot [OF assms(1)] by metis
  then show ?thesis using assms(2) by (simp add: pinned_def)
qed

text \<open>An appended record pins its number.\<close>

lemma append_pins:
  assumes "append_record t g kind (Some joiner) payload author L = (Inr q, L')" "log_inv L" "q < u64_max"
  shows "pinned g q joiner L'"
proof -
  have "\<forall>r \<in> set (gs_records (slot_of_group L g)). sl_seq r < gs_next_seq (slot_of_group L g)"
    using assms(2) by (auto simp: log_inv_def Let_def)
  with append_slot [OF assms(1)] assms(3) show ?thesis
    by (fastforce simp: pinned_def u64_sat_add_def new_record_def)
qed

lemma pinned_run: "pinned g q joiner L \<Longrightarrow> q < u64_max \<Longrightarrow> pinned g q joiner (foldl log_step L ops)"
proof (induction ops arbitrary: L)
  case (Cons op ops)
  have "pinned g q joiner (log_step L op)"
    proof (cases op)
    case (AppendOp t g' kind rcp payload author)
    then show ?thesis
      using pinned_append [OF _ Cons.prems, of t g' kind rcp payload author] by (metis log_step.simps(1) prod.collapse)
  next
    case (LogSweepOp now)
    then show ?thesis using Cons.prems by (simp add: pinned_def log_sweep_slot)
  qed
  then show ?case using Cons by simp
qed simp

lemma pinned_fetch:
  assumes "pinned g (Suc c) joiner L" "me \<noteq> joiner" "r \<in> set (filter (visible_to me) (fetch_since L g c))"
  shows "sl_seq r > Suc c"
proof -
  have r: "r \<in> set (gs_records (slot_of_group L g))" "sl_seq r > c" "visible_to me r"
    using assms(3) by (cases "hm_get (gl_groups L) g"; simp add: fetch_since_def slot_of_group_def)+
  then have "sl_seq r \<noteq> Suc c" using assms(1,2) by (auto simp: pinned_def visible_to_def)
  with r(2) show ?thesis by simp
qed

lemma apply_loop_all_beyond:
  "rs \<noteq> [] \<Longrightarrow> \<forall>r \<in> set rs. cr_seq r > Suc c \<Longrightarrow> apply_loop ap c a k rs w =
     (Inr \<lparr> al_cursor = c, al_applied = a, al_skipped = k, al_stopped_on_gap = True \<rparr>, w)"
  by (cases rs) auto

lemma warm_passes_gap:
  assumes "sm_fetch S gid (rc_cursor d gid) w = (Inr rs, w')" "rs \<noteq> []" "\<forall>r \<in> set rs. cr_seq r > Suc (rc_cursor d gid)"
  shows "warm_passes (Suc n) S gid target (d, w) = (Inr StillReconnecting, set_cursor gid (rc_cursor d gid) d, w')"
proof -
  obtain r rs' where rs: "rs = r # rs'" using assms(2) by (cases rs) auto
  show ?thesis using assms(1) apply_loop_all_beyond [OF assms(2,3), of "sm_apply S gid" 0 0 w']
    by (simp add: rs apply_records_in_order_def Let_def)
qed

text \<open>
  (C11) A join blocks the recovery of every other member. In the log of a relay, the
  owner's reply to a join appends the join result, which the relay shows only to the joiner, under the next number of the group's
  sequence. From then on, whatever else is appended or swept, a keyed member that is not the joiner,
  whose cursor stands just before that number and who is not yet at the target, gets records that
  all lie beyond the next number: its recovery stops on a gap, applies nothing, leaves the cursor
  where it was and the group marked reconnecting.
\<close>

theorem joins_of_others_block_recovery:
  assumes join: "append_record t g JoinResult (Some joiner) payload owner L = (Inr (Suc (rc_cursor d gid)), L1)"
      "Suc (rc_cursor d gid) < u64_max"
    and log: "L = foldl log_step (gl_new window cap bytes) before" "bytes < u64_max" "length before < u64_max"
      "ss_group_log s = foldl log_step L1 later"
    and me: "me \<noteq> joiner" "ce_relay K = Some (relay_fetch E me tx)" "\<forall>out f. ev_accepts E out tx f"
      "cd_hex_decode32 (ce_codec K) gid = Inr g" "latch \<noteq> Some False"
    and behind: "ce_probe K gid (s, x) = (Inr st, s, x)" "membership st = ActiveKeyed" "target = None \<or> \<not> caught_up target st"
    and more: "filter (visible_to me) (fetch_since (ss_group_log s) g (rc_cursor d gid)) \<noteq> []"
  shows "\<exists>d' s'. recover_group_once K gid target (d, (s, x), latch) = (Inr StillReconnecting, d', (s', x), latch) \<and>
    rc_cursor d' gid = rc_cursor d gid \<and> gsm_get (rc_status d') gid = Reconnecting"
proof -
  let ?c = "rc_cursor d gid" and ?S = "client_seams K latch" and ?d = "mark_reconnecting gid d"
  let ?seen = "filter (visible_to me) (fetch_since (ss_group_log s) g ?c)"
  let ?rs = "map (commit_record_from_wire (ce_codec K)) (map wire_record ?seen)"
  have "log_inv L" unfolding log(1) using log_new_inv [OF log(2), of window cap] log(3) by (intro log_run_inv) auto
  from append_pins [OF join(1) this join(2)]
  have pin: "pinned g (Suc ?c) joiner (ss_group_log s)" unfolding log(4) by (rule pinned_run) (rule join(2))
  obtain s' where "relay_fetch E me tx g ?c (s, x) = (Inr (map wire_record ?seen), s', x)"
    using relay_fetch_visible [OF me(3), of me g ?c s x] by (metis prod.collapse)
  then have fetch: "sm_fetch ?S gid (rc_cursor ?d gid) ((s, x), latch) = (Inr ?rs, (s', x), latch)"
    using me(2,4,5) by (auto simp: client_seams_def on_world_def source_fetch_since_def transport_log_fetch_def engine_a_available_def
        split: option.splits)
  have beyond: "\<forall>r \<in> set ?rs. cr_seq r > Suc (rc_cursor ?d gid)"
    using pinned_fetch [OF pin me(1)] by (auto simp: commit_record_from_wire_def wire_record_def)
  have "?rs \<noteq> []" using more by simp
  from warm_passes_gap [OF fetch this beyond, of 63 target]
  have "recover_group_once K gid target (d, (s, x), latch) = (Inr StillReconnecting, set_cursor gid ?c ?d, (s', x), latch)"
    using behind by (auto simp: recover_group_once_def recover_once_def client_seams_def on_world_def max_passes_def)
  then show ?thesis by (intro exI [of _ "set_cursor gid ?c ?d"] exI [of _ s']) simp
qed

definition demo_joined :: "server_state \<times> nat" where
  "demo_joined = (let L1 = snd (append_record 5 [4] JoinResult (Some [3]) [7] [1] (gl_new 1000 100 10000))
     in ((server_new 0 (config_defaults [] Nyc))\<lparr> ss_group_log := foldl log_step L1 [AppendOp 6 [4] Commit None [8] [1]] \<rparr>, 1))"

theorem joins_of_others_block_recovery_witness:
  "\<exists>d' s'. recover_group_once (demo_client (Some (relay_fetch demo_env [2] 20)) snd) ''g'' (Some 2) (demo_recovery, demo_joined, None)
       = (Inr StillReconnecting, d', (s', 1), None) \<and> rc_cursor d' ''g'' = 0 \<and> gsm_get (rc_status d') ''g'' = Reconnecting"
proof -
  let ?L = "gl_new 1000 100 10000"
  let ?K = "demo_client (Some (relay_fetch demo_env [2] 20)) snd :: (server_state \<times> nat) client_env"
  let ?st = "\<lparr> gt_keyed = True, gt_in_roster = True, gt_epoch = 1 \<rparr>"
  let ?L1 = "snd (append_record 5 [4] JoinResult (Some [3]) [7] [1] ?L)"
  have "fst (append_record 5 [4] JoinResult (Some [3]) [7] [1] ?L) = Inr 1" by code_simp
  then have join: "append_record 5 [4] JoinResult (Some [3]) [7] [1] ?L = (Inr (Suc (rc_cursor demo_recovery ''g'')), ?L1)"
    by (simp add: rc_cursor_def demo_recovery_def prod_eq_iff)
  have log: "ss_group_log (fst demo_joined) = foldl log_step ?L1 [AppendOp 6 [4] Commit None [8] [1]]"
    by (simp add: demo_joined_def Let_def)
  have K: "ce_relay ?K = Some (relay_fetch demo_env [2] 20)" "cd_hex_decode32 (ce_codec ?K) ''g'' = Inr [4]"
    "ce_probe ?K ''g'' (fst demo_joined, 1) = (Inr ?st, fst demo_joined, 1)"
    by (simp_all add: demo_client_def demo_codec_def)
  have more: "filter (visible_to [2]) (fetch_since (ss_group_log (fst demo_joined)) [4] (rc_cursor demo_recovery ''g'')) \<noteq> []"
    by code_simp
  have world: "demo_joined = (fst demo_joined, 1)" by (simp add: demo_joined_def Let_def)
  have "\<exists>d' s'. recover_group_once ?K ''g'' (Some 2) (demo_recovery, (fst demo_joined, 1), None) = (Inr StillReconnecting, d', (s', 1), None) \<and>
    rc_cursor d' ''g'' = rc_cursor demo_recovery ''g'' \<and> gsm_get (rc_status d') ''g'' = Reconnecting"
    by (rule joins_of_others_block_recovery [where before = "[]" and window = 1000 and cap = 100 and bytes = 10000 and st = ?st,
          OF join _ _ _ _ log _ K(1) _ K(2) _ K(3) _ _ more])
       (simp_all add: rc_cursor_def demo_recovery_def demo_env_def membership_def caught_up_def)
  then show ?thesis using world by (simp add: rc_cursor_def demo_recovery_def)
qed

end
