(* ===== verification/Durable_Join_Properties.thy ===== *)
theory Durable_Join_Properties
  imports Durable_Join Group_Recovery_Properties
begin

text \<open>
  Correctness of durable joins: a stored join is kept until the group is keyed, by the resume loop
  and by recovery; a posted invite is not posted again while its record is there; and two ways in
  which the stores give a wrong answer.
\<close>

subsection \<open>Resuming keeps every join\<close>

lemma same_join_trans: "same_join r r1 \<Longrightarrow> same_join r1 r2 \<Longrightarrow> same_join r r2"
proof -
  let ?as = "\<lambda>r x. x\<lparr> pj_state := pj_state r, pj_last_attempt_ms := pj_last_attempt_ms r, pj_attempts := pj_attempts r \<rparr>"
  assume "same_join r r1" "same_join r1 r2"
  then have "?as r r1 = r" "?as r1 r2 = r1" "pj_is_terminal r2 \<longrightarrow> pj_is_terminal r" by (auto simp: same_join_def)
  moreover have "?as r (?as r1 r2) = ?as r r2" by simp
  ultimately show ?thesis unfolding same_join_def by metis
qed

lemma kept_trans: "kept J S d0 d1 \<Longrightarrow> kept J S d1 d2 \<Longrightarrow> kept J S d0 d2"
  unfolding kept_def using same_join_trans same_join_group by metis

lemma client_seams_os: "\<forall>w. os_ok (fst (jc_os K w)) \<Longrightarrow> os_ok (fst (js_os (client_join_seams K) v))"
  by (cases v) (auto simp: client_join_seams_def beside_def split: prod.splits, metis fst_conv)

lemma drive_pending_kept:
  assumes "codec_ok (jc_pj K)" "\<forall>w. os_ok (fst (jc_os K w))" "store_wf (jc_pj K) d"
    "drive_pending_joins_once K (d, v) = (x, d', v')"
  shows "kept (jc_pj K) (client_join_seams K) d d' \<and> store_wf (jc_pj K) d'"
proof -
  let ?S = "client_join_seams K"
  obtain E1 v1 where 1: "js_os ?S v = (E1, v1)" by (metis surj_pair)
  obtain E2 v2 where 2: "js_os ?S v1 = (E2, v2)" by (metis surj_pair)
  obtain l v3 where 3: "pjs_list (jc_pj K) (js_os ?S) d v2 = (l, v3)" by (metis surj_pair)
  show ?thesis
  proof (cases "d' = d")
    case True
    then show ?thesis using assms(3) by simp
  next
    case False
    then obtain rs where l: "l = Inr rs" and run: "drive_due (jc_pj K) ?S rs (d, v3) = (x, d', v')"
      using assms(4) 1 2 3 by (auto simp: drive_pending_joins_once_def Let_def split: if_splits sum.splits)
    have "\<forall>r \<in> set rs. intent (jc_pj K) d r" using listed_intent [OF assms(3) 3 [unfolded l]] by blast
    from drive_due_kept [OF assms(1) _ this kept_refl assms(3) run] client_seams_os [OF assms(2)]
    show ?thesis by blast
  qed
qed


subsection \<open>So does recovery\<close>

text \<open>What every call of the driver keeps of the world, a run of the driver keeps.\<close>

definition seams_keep :: "('w \<Rightarrow> bool) \<Rightarrow> 'w seams \<Rightarrow> bool" where
  "seams_keep P S \<longleftrightarrow> (\<forall>g w. P w \<longrightarrow> P (snd (sm_probe S g w))) \<and> (\<forall>g n w. P w \<longrightarrow> P (snd (sm_fetch S g n w))) \<and>
     (\<forall>g r w. P w \<longrightarrow> P (snd (sm_apply S g r w))) \<and> (\<forall>g w. P w \<longrightarrow> P (snd (sm_cold S g w)))"

lemma apply_loop_keeps:
  "\<forall>r w. P w \<longrightarrow> P (snd (ap r w)) \<Longrightarrow> P w \<Longrightarrow> P (snd (apply_loop ap c a k rs w))"
proof (induction rs arbitrary: c a k w)
  case (Cons r rs)
  obtain x w1 where ap: "ap r w = (x, w1)" by fastforce
  then have w1: "P w1" using Cons.prems by (metis snd_conv)
  have "P (snd (apply_loop ap c a k rs w1))" "P (snd (apply_loop ap c a k rs w))" for c a k
    using Cons.IH [OF Cons.prems(1)] w1 Cons.prems(2) by blast+
  then show ?case using ap w1 Cons.prems(2) by (cases x) (simp_all split: apply_outcome.split)
qed simp

lemma warm_passes_keeps:
  "seams_keep P S \<Longrightarrow> P w \<Longrightarrow> P (snd (snd (warm_passes n S gid target (d, w))))"
proof (induction n arbitrary: d w)
  case (Suc n)
  note keep = Suc.prems(1) [unfolded seams_keep_def]
  have probe: "P (snd (sm_probe S gid w))" if "P w" for w using keep that by blast
  have fetch: "P (snd (sm_fetch S gid m w))" if "P w" for w m using keep that by blast
  have app: "P (snd (apply_records_in_order (sm_apply S gid) m rs w))" if "P w" for w m rs
    unfolding apply_records_in_order_def by (rule apply_loop_keeps [where P = P, OF _ that]) (use keep in blast)
  obtain f w1 where f: "sm_fetch S gid (rc_cursor d gid) w = (f, w1)" by fastforce
  have w1: "P w1" using fetch [OF Suc.prems(2), of "rc_cursor d gid"] f by simp
  show ?case
  proof (cases f)
    case (Inl e)
    then show ?thesis using f w1 by simp
  next
    case (Inr rs)
    obtain p w2 where p: "sm_probe S gid w1 = (p, w2)" by fastforce
    have w2: "P w2" using probe [OF w1] p by simp
    obtain y w3 where y: "apply_records_in_order (sm_apply S gid) (rc_cursor d gid) rs w1 = (y, w3)" by fastforce
    have w3: "P w3" using app [OF w1, of "rc_cursor d gid" rs] y by simp
    obtain q w4 where q: "sm_probe S gid w3 = (q, w4)" by fastforce
    have w4: "P w4" using probe [OF w3] q by simp
    show ?thesis
    proof (cases rs)
      case Nil
      then show ?thesis using f Inr p w2 by (cases p) simp_all
    next
      case (Cons r rs')
      have IH: "P (snd (snd (warm_passes n S gid target (d, w4))))" for d by (rule Suc.IH [OF Suc.prems(1) w4])
      show ?thesis using f Inr y q w3 w4 IH Cons by (cases y; cases q) (simp_all add: Let_def)
    qed
  qed
qed simp

lemma recover_once_keeps:
  assumes "seams_keep P S" "P w" "recover_once S gid target (d, w) = (r, d', w')"
  shows "P w'"
proof -
  obtain p w1 where p: "sm_probe S gid w = (p, w1)" by fastforce
  have w1: "P w1" using assms(1,2) p by (metis seams_keep_def snd_conv)
  obtain y w2 where y: "sm_cold S gid w1 = (y, w2)" by fastforce
  have w2: "P w2" using assms(1) w1 y by (metis seams_keep_def snd_conv)
  show ?thesis using assms(3) p y w1 w2 warm_passes_keeps [OF assms(1) w1, of max_passes gid target "mark_reconnecting gid d"]
    by (auto simp: recover_once_def Let_def split: sum.splits if_splits)
qed

text \<open>Recovery on the client touches the stored joins only through the resume loop.\<close>

definition joins_kept :: "'w join_client \<Rightarrow> dir \<Rightarrow> (dir \<times> dir \<times> 'w) \<times> bool option \<Rightarrow> bool" where
  "joins_kept K d0 wl \<longleftrightarrow> kept (jc_pj K) (client_join_seams K) d0 (fst (fst wl)) \<and> store_wf (jc_pj K) (fst (fst wl))"

lemma fst_fetch: "fst (snd (source_fetch_since C (map_option (\<lambda>R g since (d, c, w). case R g since w of (r, w) \<Rightarrow> (r, d, c, w)) relay) g n (d, c, w))) = d"
  by (cases relay) (auto simp: source_fetch_since_def transport_log_fetch_def split: sum.splits prod.splits)

lemma fst_apply:
  "fst (fst (snd (x0xd_apply C (ce_daemon (recovery_env K D relay)) my g rc ((d, c, w), l)))) = d"
  by (auto simp: x0xd_apply_def finish_apply_def recovery_env_def split: apply_plan.split sum.splits prod.splits)

lemma recovery_seams_keep:
  assumes "codec_ok (jc_pj K)" "\<forall>w. os_ok (fst (jc_os K w))"
  shows "seams_keep (joins_kept K d0) (client_seams (recovery_env K D relay) latch)"
  unfolding seams_keep_def
proof (intro conjI allI impI)
  fix g n r and wl :: "(dir \<times> dir \<times> 'a) \<times> bool option"
  obtain d c w l where wl: "wl = ((d, c, w), l)" by (metis prod.exhaust)
  assume P: "joins_kept K d0 wl"
  show "joins_kept K d0 (snd (sm_probe (client_seams (recovery_env K D relay) latch) g wl))"
    using P by (auto simp: wl client_seams_def on_world_def recovery_env_def joins_kept_def split: prod.splits)
  show "joins_kept K d0 (snd (sm_fetch (client_seams (recovery_env K D relay) latch) g n wl))"
    using P fst_fetch [of "jc_codec K" "if engine_a_available latch then relay else None" g n d c w]
    by (auto simp: wl client_seams_def on_world_def recovery_env_def joins_kept_def split: prod.splits if_splits)
  show "joins_kept K d0 (snd (sm_apply (client_seams (recovery_env K D relay) latch) g r wl))"
    using P fst_apply [of "ce_codec (recovery_env K D relay)" K D relay "ce_my_agent_hex (recovery_env K D relay)" g r d c w l]
    by (simp add: wl client_seams_def joins_kept_def)
  show "joins_kept K d0 (snd (sm_cold (client_seams (recovery_env K D relay) latch) g wl))"
  proof -
    obtain x d' v' where run: "drive_pending_joins_once K (d, c, w) = (x, d', v')" by (metis prod_cases3)
    have "kept (jc_pj K) (client_join_seams K) d d' \<and> store_wf (jc_pj K) d'"
      using drive_pending_kept [OF assms _ run] P by (simp add: joins_kept_def wl)
    then have "joins_kept K d0 ((d', v'), l)" using P kept_trans by (auto simp: joins_kept_def wl)
    then show ?thesis using run
      by (auto simp: wl client_seams_def on_world_def client_cold_def recovery_env_def split: sum.splits prod.splits)
  qed
qed


subsection \<open>An invite is posted once\<close>

fun join_group :: "join_outcome \<Rightarrow> string" where
  "join_group (JoinConverged g) = g" | "join_group (JoinPending g) = g"

text \<open>A daemon that hands back the captured event of a join it accepted.\<close>

definition returns_event :: "'w join_client \<Rightarrow> bool" where
  "returns_event K \<longleftrightarrow> (\<forall>invite name w gid cap w'. jc_join_post K invite name w = (Inr (gid, cap), w') \<longrightarrow> cap \<noteq> None \<and> gid \<noteq> [])"

definition on_record :: "'w join_client \<Rightarrow> string \<Rightarrow> string \<Rightarrow> dir \<Rightarrow> bool" where
  "on_record K invite gid d \<longleftrightarrow> store_wf (jc_pj K) d \<and> gid \<noteq> [] \<and> (\<exists>r. intent (jc_pj K) d r \<and> \<not> pj_is_terminal r \<and>
     pj_invite_hash r = jc_sha256_hex K invite \<and> pj_group_id r = gid)"

lemma same_join_hash: "same_join r r' \<Longrightarrow> pj_invite_hash r' = pj_invite_hash r"
  unfolding same_join_def by (drule conjunct1, drule arg_cong [of _ _ pj_invite_hash]) simp

lemma finish_join_stored:
  "finish_join K me gid (Some cap) (d, c, w) = (Inr out, d', v') \<Longrightarrow> d' = d \<and> join_group out = gid"
  by (auto simp: finish_join_def split: prod.splits sum.splits chat_error.splits)

lemma build_record:
  "build_pending_join K gid h cap w = (Inr r, w') \<Longrightarrow> pj_group_id r = gid \<and> pj_invite_hash r = h \<and> \<not> pj_is_terminal r"
  by (auto simp: build_pending_join_def Let_def pending_join_new_def pj_is_terminal_def split: option.splits prod.splits sum.splits)

lemma post_on_record:
  assumes "codec_ok (jc_pj K)" "\<forall>w. os_ok (fst (jc_os K w))" "returns_event K" "store_wf (jc_pj K) d"
    and "post_and_join K me invite name (jc_sha256_hex K invite) (d, c, w) = (Inr out, d', v')"
  shows "on_record K invite (join_group out) d'"
proof -
  obtain x w1 where post: "jc_join_post K invite name w = (x, w1)" by fastforce
  obtain gid cap where x: "x = Inr (gid, cap)" using assms(5) post by (cases x) (auto simp: post_and_join_def)
  obtain e where cap: "cap = Some e" and gid: "gid \<noteq> []" using assms(3) post x unfolding returns_event_def by blast
  obtain y w2 where build: "build_pending_join K gid (jc_sha256_hex K invite) e w1 = (y, w2)" by fastforce
  obtain r where y: "y = Inr r" using assms(5) post x cap build by (cases y) (auto simp: post_and_join_def)
  obtain E w3 where E: "jc_os K w2 = (E, w3)" by fastforce
  obtain z d1 where up: "pjs_upsert (jc_pj K) E r d = (z, d1)" by fastforce
  have z: "z = Inr ()" and fin: "finish_join K me gid (Some e) (d1, c, w3) = (Inr out, d', v')"
    using assms(5) post x cap build y E up by (cases z; auto simp: post_and_join_def)+
  have r: "pj_group_id r = gid" "pj_invite_hash r = jc_sha256_hex K invite" "\<not> pj_is_terminal r"
    using build_record [OF build [unfolded y]] by auto
  have os: "os_ok E" using assms(2) E by (metis fst_conv)
  have d1: "d1 = snd (pjs_upsert (jc_pj K) E r d)" "fst (pjs_upsert (jc_pj K) E r d) = Inr ()" using up z by simp_all
  then have "intent (jc_pj K) d1 r" using upsert_self [of "jc_pj K" E r d] assms(1)
    by (auto simp: intent_def codec_ok_def)
  moreover have "store_wf (jc_pj K) d1" unfolding d1(1) by (rule upsert_wf [OF assms(4,1) os])
  ultimately show ?thesis using finish_join_stored [OF fin] r gid by (auto simp: on_record_def)
qed

lemma join_on_record:
  assumes "codec_ok (jc_pj K)" "\<forall>w. os_ok (fst (jc_os K w))" "returns_event K" "store_wf (jc_pj K) d"
    and "join_group_durable K invite name (d, c, w) = (Inr out, d', v')"
  shows "on_record K invite (join_group out) d'"
proof -
  obtain me where me: "jc_chat K = Some me" using assms(5) by (cases "jc_chat K") (auto simp: join_group_durable_def)
  obtain E w1 where E: "jc_os K w = (E, w1)" by fastforce
  have open': "open_store E = Inr ()" using assms(5) me E by (cases "open_store E") (auto simp: join_group_durable_def)
  obtain l w2 where l: "pjs_list (jc_pj K) (jc_os K) d w1 = (l, w2)" by fastforce
  obtain rs where rs: "l = Inr rs" using assms(5) me E open' l by (cases l) (auto simp: join_group_durable_def Let_def)
  show ?thesis
  proof (cases "find (\<lambda>r. \<not> pj_is_terminal r \<and> pj_invite_hash r = jc_sha256_hex K invite) rs")
    case None
    then have "post_and_join K me invite name (jc_sha256_hex K invite) (d, c, w2) = (Inr out, d', v')"
      using assms(5) me E open' l rs by (simp add: join_group_durable_def Let_def)
    then show ?thesis by (rule post_on_record [OF assms(1-4)])
  next
    case (Some r)
    then have "r \<in> set rs" "\<not> pj_is_terminal r" "pj_invite_hash r = jc_sha256_hex K invite"
      by (auto simp: find_Some_iff in_set_conv_nth)
    moreover from Some have "d' = d" "join_group out = pj_group_id r"
      using assms(5) me E open' l rs by (auto simp: join_group_durable_def Let_def)
    ultimately show ?thesis using listed_intent [OF assms(4) l [unfolded rs]] listed_group [OF assms(4) l [unfolded rs]] assms(4)
      by (auto simp: on_record_def)
  qed
qed

text \<open>The resume loop run several times, whatever each run answers.\<close>

fun resume_times :: "nat \<Rightarrow> 'w join_client \<Rightarrow> dir \<times> dir \<times> 'w \<Rightarrow> dir \<times> dir \<times> 'w" where
  "resume_times 0 K s = s"
| "resume_times (Suc n) K s = resume_times n K (snd (drive_pending_joins_once K s))"

lemma resume_on_record:
  assumes "codec_ok (jc_pj K)" "\<forall>w. os_ok (fst (jc_os K w))" "\<forall>cw. fst (client_status K gid cw) \<noteq> Inr ActiveKeyed"
  shows "on_record K invite gid (fst s) \<Longrightarrow> on_record K invite gid (fst (resume_times n K s))"
proof (induction n arbitrary: s)
  case (Suc n)
  obtain d v where s: "s = (d, v)" by (metis surj_pair)
  obtain x d' v' where run: "drive_pending_joins_once K (d, v) = (x, d', v')" by (metis prod_cases3)
  obtain r where r: "intent (jc_pj K) d r" "\<not> pj_is_terminal r" "pj_invite_hash r = jc_sha256_hex K invite" "pj_group_id r = gid"
    and wf: "store_wf (jc_pj K) d" "gid \<noteq> []" using Suc.prems s by (auto simp: on_record_def)
  have k: "kept (jc_pj K) (client_join_seams K) d d'" "store_wf (jc_pj K) d'"
    using drive_pending_kept [OF assms(1,2) wf(1) run] by auto
  have "js_status (client_join_seams K) gid v1 \<noteq> (Inr ActiveKeyed, v2)" for v1 v2
    using spec [OF assms(3), of v1] by (auto simp: client_join_seams_def)
  with k(1) r(1,4) obtain r' where r': "intent (jc_pj K) d' r'" "same_join r r'" unfolding kept_def by blast
  then have "on_record K invite gid d'"
    using r wf(2) k(2) same_join_hash [OF r'(2)] same_join_group [OF r'(2)] by (auto simp: on_record_def same_join_def)
  then show ?case using Suc.IH [of "(d', v')"] run s by simp
qed simp

lemma rejoin_pending:
  assumes "on_record K invite gid d" "jc_chat K = Some me" "fault_free os"
  shows "\<exists>g w'. \<forall>post. join_group_durable (K\<lparr> jc_os := os, jc_join_post := post \<rparr>) invite name (d, c, w) = (Inr (JoinPending g), d, c, w')"
proof -
  obtain r where r: "intent (jc_pj K) d r" "\<not> pj_is_terminal r" "pj_invite_hash r = jc_sha256_hex K invite" "pj_group_id r \<noteq> []"
    using assms(1) by (auto simp: on_record_def)
  obtain E w1 where E: "os w = (E, w1)" by fastforce
  have "io_fault E = (\<lambda>_. None)" using assms(3) E by (metis fault_free_def fst_conv)
  then have op: "open_store E = Inr ()" by (simp add: open_store_def)
  obtain rs w2 where rs: "pjs_list (jc_pj K) os d w1 = (Inr rs, w2)" "r \<in> set rs"
    using list_all_intents [OF assms(3) r(1,4)] by blast
  obtain e where "find (\<lambda>r. \<not> pj_is_terminal r \<and> pj_invite_hash r = jc_sha256_hex K invite) rs = Some e"
    using rs(2) r(2,3) by (cases "find (\<lambda>r. \<not> pj_is_terminal r \<and> pj_invite_hash r = jc_sha256_hex K invite) rs")
      (auto simp: find_None_iff)
  then show ?thesis using assms(2) E op rs(1) by (auto simp: join_group_durable_def Let_def)
qed


subsection \<open>A concrete client\<close>

text \<open>
  One group, a daemon that knows neither the probe endpoint nor the member, an owner that never
  answers; the world is the list of posted invites. Records are printed as two bytes.
\<close>

definition join_demo_record :: "char \<Rightarrow> nat \<Rightarrow> pending_join" where
  "join_demo_record h n = (pending_join_new ''g'' [] [] [h] ''o'' [] [] [] 0)
     \<lparr> pj_attempts := n, pj_state := (if n = 0 then Submitted else Bridged) \<rparr>"

definition join_demo_pj :: pj_codec where
  "join_demo_pj = \<lparr>
     pj_to_vec = (\<lambda>r. case pj_invite_hash r of
        [h] \<Rightarrow> if r = join_demo_record h (pj_attempts r) \<and> pj_attempts r < 256 then Inr [of_nat (of_char h), of_nat (pj_attempts r)] else Inl []
      | _ \<Rightarrow> Inl []),
     pj_from_slice = (\<lambda>bs. case bs of [h, n] \<Rightarrow> Inr (join_demo_record (char_of (unat h)) (unat n)) | _ \<Rightarrow> Inl []) \<rparr>"

definition join_demo_os :: os_env where
  "join_demo_os = \<lparr> io_fault = (\<lambda>_. None), io_short = 0, io_exists_text = [], io_not_found_text = [], io_eof_text = [],
     rng_nonce = [], rng_suffix = [], hex_encode = (\<lambda>_. ''0'') \<rparr>"

definition join_demo :: "string list join_client" where
  "join_demo = \<lparr> jc_codec = \<lparr> cd_b64_encode = (\<lambda>_. []), cd_b64_decode = (\<lambda>_. None), cd_hex_encode = (\<lambda>_. []),
       cd_hex_decode32 = (\<lambda>_. Inr [4]), cd_json_parse = (\<lambda>_. Some (JObject [(''inviter_agent_id'', JString ''o'')])), cd_json_print = (\<lambda>_. Inr []) \<rparr>,
     jc_b64_decode = (\<lambda>_. Inr []), jc_hex_decode = (\<lambda>_. Inr (replicate 32 0)), jc_sha256_hex = id, jc_url_ok = (\<lambda>_. True),
     jc_pj = join_demo_pj, jc_cv = \<lparr> cv_to_vec = (\<lambda>_. Inl []), cv_from_slice = (\<lambda>_. Inr \<lparr> cv_group_id = ''g'', cv_epoch = 2, cv_at_ms = 0 \<rparr>) \<rparr>,
     jc_chat = Some \<lparr> ci_agent_id_hex = ''m'', ci_kem_public_key = [], ci_agent_id = [], ci_machine_id = [] \<rparr>,
     jc_os = (\<lambda>w. (join_demo_os, w)), jc_now = (\<lambda>w. (0, w)), jc_secure = Inr (),
     jc_group_self_status = (\<lambda>_ w. (Inr None, w)), jc_members = (\<lambda>_ w. (Inr [], w)),
     jc_encrypt = (\<lambda>_ _ w. (Inl (XRejected []), w)),
     jc_join_post = (\<lambda>invite _ w. (Inr (''g'', Some \<lparr> cs_topic = [], cs_payload = [] \<rparr>), w @ [invite])),
     jc_wait_membership = (\<lambda>g _ _ w. (Inl (JoinerNotConverged g 1), w)), jc_native_first_wait = 25000, jc_membership_wait = 60000,
     jc_primary_relay_url = (\<lambda>_. None), jc_card_kem = (\<lambda>_ _. Inr []), jc_import_card = (\<lambda>_ _ w. (Inr False, w)),
     jc_card_hints = (\<lambda>_ _. Inr None), jc_seal = (\<lambda>_ _ _ _ _ w. (Inr [], w)), jc_send = (\<lambda>_ _ _ w. (Inr (), w)) \<rparr>"

lemma join_demo_ok:
  "codec_ok (jc_pj join_demo)" "\<forall>w. os_ok (fst (jc_os join_demo w))" "returns_event join_demo" "fault_free (jc_os join_demo)"
  "store_wf (jc_pj join_demo) hm_empty"
proof -
  have "unat (of_nat n :: 8 word) = n" if "n < 256" for n using that by (simp add: unat_of_nat)
  moreover have "(of_char h :: nat) < 256" for h by simp
  ultimately show "codec_ok (jc_pj join_demo)"
    by (auto simp: codec_ok_def join_demo_def join_demo_pj_def split: list.splits if_splits)
  show "\<forall>w. os_ok (fst (jc_os join_demo w))" by (simp add: join_demo_def join_demo_os_def os_ok_def)
  show "returns_event join_demo" by (simp add: join_demo_def returns_event_def)
  show "fault_free (jc_os join_demo)" by (simp add: join_demo_def join_demo_os_def fault_free_def)
  show "store_wf (jc_pj join_demo) hm_empty" by (simp add: store_wf_def)
qed

lemma join_demo_never_keyed: "fst (client_status join_demo ''g'' cw) \<noteq> Inr ActiveKeyed"
  by (cases cw) (simp add: client_status_def probe_group_state_def join_demo_def group_id_parse_def ascii_alphanumeric_def membership_def)

definition join_demo_dir :: dir where
  "join_demo_dir = [(''g.json'', [97, 0])]"

lemma join_demo_dir_wf: "store_wf (jc_pj join_demo) join_demo_dir"
  by (auto simp: store_wf_def join_demo_dir_def join_demo_def join_demo_pj_def join_demo_record_def pending_join_new_def
      path_for_def hm_wf_def hm_get_def)

lemma char_a: "char_of (97 :: nat) = CHR ''a''"
  by code_simp

lemma join_demo_intent: "intent (jc_pj join_demo) join_demo_dir (join_demo_record CHR ''a'' 0)"
  by (simp add: char_a intent_def join_demo_dir_def join_demo_def join_demo_pj_def join_demo_record_def pending_join_new_def
      path_for_def hm_get_def)


definition join_demo_daemon :: "string list daemon" where
  "join_demo_daemon = \<lparr> dm_secure = Inr (), dm_apply_metadata_event = (\<lambda>_ _ _ w. (Inr True, w)),
     dm_apply_join_result = (\<lambda>_ _ _ _ w. (Inr True, w)) \<rparr>"



subsection \<open>A second invite to the same group\<close>

lemma join_elsewhere:
  assumes "\<forall>w. os_ok (fst (jc_os K w))" "returns_event K" "join_group_durable K invite name (d, c, w) = (Inr out, d', v')"
    and "g \<noteq> join_group out"
  shows "hm_get d' (path_for g) = hm_get d (path_for g)"
proof (cases "d' = d")
  case False
  then obtain me w1 where post: "post_and_join K me invite name (jc_sha256_hex K invite) (d, c, w1) = (Inr out, d', v')"
    using assms(3) by (auto simp: join_group_durable_def Let_def split: option.splits prod.splits sum.splits)
  then obtain gid cap w2 where p: "jc_join_post K invite name w1 = (Inr (gid, cap), w2)"
    by (auto simp: post_and_join_def split: prod.splits sum.splits)
  then obtain e where cap: "cap = Some e" using assms(2) unfolding returns_event_def by blast
  obtain r E w3 w4 x d1 where up: "build_pending_join K gid (jc_sha256_hex K invite) e w2 = (Inr r, w3)" "jc_os K w3 = (E, w4)"
      "pjs_upsert (jc_pj K) E r d = (x, d1)" and fin: "finish_join K me gid (Some e) (d1, c, w4) = (Inr out, d', v')"
    using post p cap by (auto simp: post_and_join_def split: prod.splits sum.splits)
  have "pj_group_id r = gid" using build_record [OF up(1)] by simp
  moreover have "d' = d1" "join_group out = gid" using finish_join_stored [OF fin] by auto
  moreover have "os_ok E" using assms(1) up(2) by (metis fst_conv)
  ultimately show ?thesis using upsert_elsewhere [of E g r "jc_pj K" d] up(3) assms(4) by simp
qed simp

text \<open>
  (C40) A second invite to the same group makes the client forget the first. Records are kept by group:
  when a join with another invite into the same group returns, the record of the first invite is
  gone, and joining with the first invite again goes on to post it to the daemon a second time.
\<close>

theorem second_invite_forgets_first:
  assumes "codec_ok (jc_pj K)" "\<forall>w. os_ok (fst (jc_os K w))" "returns_event K" "fault_free (jc_os K)" "jc_chat K = Some me"
    and "on_record K first gid d1" "\<forall>r. intent (jc_pj K) d1 r \<and> pj_invite_hash r = jc_sha256_hex K first \<longrightarrow> pj_group_id r = gid"
    and "jc_sha256_hex K second \<noteq> jc_sha256_hex K first"
    and "join_group_durable K second name (d1, c1, w1) = (Inr out, d2, c2, w2)" "join_group out = gid"
  shows "\<exists>w3. join_group_durable K first name' (d2, c2, w2) = post_and_join K me first name' (jc_sha256_hex K first) (d2, c2, w3)"
proof -
  have wf1: "store_wf (jc_pj K) d1" using assms(6) by (simp add: on_record_def)
  have "on_record K second gid d2" using join_on_record [OF assms(1-3) wf1 assms(9)] assms(10) by simp
  then obtain r where wf: "store_wf (jc_pj K) d2" and r: "intent (jc_pj K) d2 r" "pj_invite_hash r = jc_sha256_hex K second" "pj_group_id r = gid"
    by (auto simp: on_record_def)
  have gone: "pj_invite_hash x \<noteq> jc_sha256_hex K first" if x: "intent (jc_pj K) d2 x" for x
  proof
    assume h: "pj_invite_hash x = jc_sha256_hex K first"
    then have "pj_group_id x \<noteq> gid" using intent_unique [OF x r(1)] r(2,3) assms(8) by auto
    moreover from this have "intent (jc_pj K) d1 x"
      using join_elsewhere [OF assms(2,3,9)] assms(10) x by (auto simp: intent_def)
    ultimately show False using assms(7) h by blast
  qed
  obtain E w3 where E: "jc_os K w2 = (E, w3)" by fastforce
  have ok: "io_fault E = (\<lambda>_. None)" using assms(4) E by (metis fault_free_def fst_conv)
  then have op: "open_store E = Inr ()" by (simp add: open_store_def)
  obtain rs w4 where l: "pjs_list (jc_pj K) (jc_os K) d2 w3 = (Inr rs, w4)"
    using list_succeeds [OF assms(4), of "jc_pj K" d2 w3] by blast
  have "find (\<lambda>r. \<not> pj_is_terminal r \<and> pj_invite_hash r = jc_sha256_hex K first) rs = None"
    using gone listed_intent [OF wf l] by (auto simp: find_None_iff)
  then have "join_group_durable K first name' (d2, c2, w2) = post_and_join K me first name' (jc_sha256_hex K first) (d2, c2, w4)"
    using assms(5) E op l by (simp add: join_group_durable_def Let_def)
  then show ?thesis by blast
qed

theorem second_invite_forgets_first_witness:
  "\<exists>d1 c1 d2 c2 w1 w2 w3 me. join_group_durable join_demo ''a'' None (hm_empty, hm_empty, []) = (Inr (JoinPending ''g''), d1, c1, w1) \<and>
     join_group_durable join_demo ''b'' None (d1, c1, w1) = (Inr (JoinPending ''g''), d2, c2, w2) \<and>
     join_group_durable join_demo ''a'' None (d2, c2, w2) = post_and_join join_demo me ''a'' None ''a'' (d2, c2, w3) \<and>
     snd (snd (snd (join_group_durable join_demo ''a'' None (d2, c2, w2)))) = [''a'', ''b'', ''a'']"
proof -
  let ?s1 = "snd (join_group_durable join_demo ''a'' None (hm_empty, hm_empty, []))"
  let ?s2 = "snd (join_group_durable join_demo ''b'' None ?s1)"
  have out: "fst (join_group_durable join_demo ''a'' None (hm_empty, hm_empty, [])) = Inr (JoinPending ''g'')"
    "fst (join_group_durable join_demo ''b'' None ?s1) = Inr (JoinPending ''g'')"
    "snd (snd (snd (join_group_durable join_demo ''a'' None ?s2))) = [''a'', ''b'', ''a'']"
    and d1: "fst ?s1 = join_demo_dir"
    by code_simp+
  obtain d1 c1 w1 where s1: "?s1 = (d1, c1, w1)" by (metis prod_cases3)
  obtain d2 c2 w2 where s2: "?s2 = (d2, c2, w2)" by (metis prod_cases3)
  have j1: "join_group_durable join_demo ''a'' None (hm_empty, hm_empty, []) = (Inr (JoinPending ''g''), d1, c1, w1)"
    and j2: "join_group_durable join_demo ''b'' None (d1, c1, w1) = (Inr (JoinPending ''g''), d2, c2, w2)"
    using out(1,2) s1 s2 by (metis prod.collapse)+
  obtain me where me: "jc_chat join_demo = Some me" by (simp add: join_demo_def)
  have rec: "on_record join_demo ''a'' ''g'' d1" using join_on_record [OF join_demo_ok(1-3,5) j1] by simp
  have only: "\<forall>r. intent (jc_pj join_demo) d1 r \<and> pj_invite_hash r = jc_sha256_hex join_demo ''a'' \<longrightarrow> pj_group_id r = ''g''"
    using d1 s1 by (auto simp: intent_def join_demo_dir_def hm_get_def path_for_def split: if_splits)
  have neq: "jc_sha256_hex join_demo ''b'' \<noteq> jc_sha256_hex join_demo ''a''" and id: "jc_sha256_hex join_demo ''a'' = ''a''"
    by (simp_all add: join_demo_def)
  from second_invite_forgets_first [OF join_demo_ok(1-4) me rec only neq j2, of None] id
  obtain w3 where "join_group_durable join_demo ''a'' None (d2, c2, w2) = post_and_join join_demo me ''a'' None ''a'' (d2, c2, w3)" by auto
  then show ?thesis using j1 j2 out(3) s2 by auto
qed

subsection \<open>A stale convergence record\<close>

lemma stock_probe:
  assumes "jc_secure K = Inr ()" "jc_chat K = Some me" "fault_free (jc_os K)" "group_id_parse gid = Inr gid"
    and "\<forall>w. \<exists>w'. jc_group_self_status K gid w = (Inr None, w')"
    and "\<forall>w. \<exists>ms w'. jc_members K gid w = (Inr ms, w') \<and> ci_agent_id_hex me \<in> set ms"
    and "hm_get c (path_for gid) = Some bs" "cv_from_slice (jc_cv K) bs = Inr rec" "cv_epoch rec > 0"
  shows "\<exists>w'. probe_group_state K gid (c, w) = (Inr \<lparr> gt_keyed = True, gt_in_roster = True, gt_epoch = cv_epoch rec \<rparr>, c, w')"
proof -
  obtain w1 where 1: "jc_group_self_status K gid w = (Inr None, w1)" using assms(5) by blast
  obtain ms w2 where 2: "jc_members K gid w1 = (Inr ms, w2)" "ci_agent_id_hex me \<in> set ms" using assms(6) by blast
  obtain E w3 where 3: "jc_os K w2 = (E, w3)" by fastforce
  obtain F w4 where 4: "jc_os K w3 = (F, w4)" by fastforce
  have ok: "io_fault E = (\<lambda>_. None)" "io_fault F = (\<lambda>_. None)" using assms(3) 3 4 by (metis fault_free_def fst_conv)+
  have "open_store E = Inr ()" "cvs_get (jc_cv K) F gid c = Inr (Some rec)"
    using ok assms(7,8) by (simp_all add: open_store_def cvs_get_def read_json_def)
  then show ?thesis using assms(1,2,4,9) 1 2 3 4 by (simp add: probe_group_state_def)
qed

text \<open>
  (C39) A convergence record that outlived the keys of the daemon stops every repair. On a stock
  daemon, a group whose roster lists this device and for which a record with a known epoch is on
  disk is taken for keyed without asking the daemon: a recovery sweep reports convergence and shows
  the group as live without a single call that could fail, and the resume loop takes a pending join
  of the group as converged and deletes its record. Nothing is assumed of the daemon's encryption,
  which may refuse every message.
\<close>

theorem stale_record_stops_repair:
  assumes "jc_secure K = Inr ()" "jc_chat K = Some me" "fault_free (jc_os K)" "group_id_parse gid = Inr gid"
    and "\<forall>w. \<exists>w'. jc_group_self_status K gid w = (Inr None, w')"
    and "\<forall>w. \<exists>ms w'. jc_members K gid w = (Inr ms, w') \<and> ci_agent_id_hex me \<in> set ms"
    and "hm_get c (path_for gid) = Some bs" "cv_from_slice (jc_cv K) bs = Inr rec" "cv_epoch rec > 0"
    and "pj_group_id r = gid" "\<not> pj_is_terminal r"
  shows "(\<exists>d' w'. recover_group_once (recovery_env K D relay) gid None (rc, (d, c, w), Some False) =
        (Inr Converged, d', (d, c, w'), Some False) \<and> gsm_get (rc_status d') gid = Live) \<and>
    (\<exists>d' w'. drive_once (jc_pj K) (client_join_seams K) r (d, c, w) = (Inr DriveConverged, d', c, w') \<and> hm_get d' (path_for gid) = None)"
proof
  let ?st = "\<lparr> gt_keyed = True, gt_in_roster = True, gt_epoch = cv_epoch rec \<rparr>"
  obtain w1 where 1: "probe_group_state K gid (c, w) = (Inr ?st, c, w1)" using stock_probe [OF assms(1-9)] by blast
  obtain w2 where 2: "probe_group_state K gid (c, w1) = (Inr ?st, c, w2)" using stock_probe [OF assms(1-9)] by blast
  have probes: "sm_probe (client_seams (recovery_env K D relay) (Some False)) gid ((d, c, w), Some False) = (Inr ?st, (d, c, w1), Some False)"
    "sm_probe (client_seams (recovery_env K D relay) (Some False)) gid ((d, c, w1), Some False) = (Inr ?st, (d, c, w2), Some False)"
    using 1 2 by (simp_all add: client_seams_def on_world_def recovery_env_def)
  have fetch: "sm_fetch (client_seams (recovery_env K D relay) (Some False)) gid n ((d, c, w1), Some False) = (Inr [], (d, c, w1), Some False)" for n
    by (simp add: client_seams_def on_world_def source_fetch_since_def engine_a_available_def)
  have "warm_passes (Suc n) (client_seams (recovery_env K D relay) (Some False)) gid None (mark_reconnecting gid rc, (d, c, w1), Some False)
      = (Inr Converged, mark_live gid (mark_reconnecting gid rc), (d, c, w2), Some False)" for n
    using probes(2) fetch by (simp add: caught_up_def membership_def)
  from this [of 63] have "recover_group_once (recovery_env K D relay) gid None (rc, (d, c, w), Some False) =
      (Inr Converged, mark_live gid (mark_reconnecting gid rc), (d, c, w2), Some False)"
    using probes(1) by (simp add: recover_group_once_def recover_once_def membership_def max_passes_def)
  then show "\<exists>d' w'. recover_group_once (recovery_env K D relay) gid None (rc, (d, c, w), Some False) =
      (Inr Converged, d', (d, c, w'), Some False) \<and> gsm_get (rc_status d') gid = Live" by simp
  have keyed: "client_status K gid (c, w) = (Inr ActiveKeyed, c, w1)"
    using assms(2,4) 1 by (simp add: client_status_def membership_def)
  obtain E w3 where E: "jc_os K w1 = (E, w3)" by fastforce
  have "io_fault E = (\<lambda>_. None)" using assms(3) E by (metis fault_free_def fst_conv)
  then show "\<exists>d' w'. drive_once (jc_pj K) (client_join_seams K) r (d, c, w) = (Inr DriveConverged, d', c, w') \<and> hm_get d' (path_for gid) = None"
    using assms(10,11) keyed E
    by (auto simp: drive_once_def client_join_seams_def beside_def pjs_remove_def remove_in_def hm_simps)
qed

text \<open>The concrete client again, now listed in the roster and with a record of epoch 2 on disk.\<close>

theorem stale_record_stops_repair_witness:
  "\<exists>d' w'. drive_once join_demo_pj (client_join_seams (join_demo\<lparr> jc_members := \<lambda>_ w. (Inr [''m''], w) \<rparr>))
      (join_demo_record CHR ''a'' 0) (join_demo_dir, [(''g.json'', [0])], []) = (Inr DriveConverged, d', [(''g.json'', [0])], w') \<and>
     hm_get d' ''g.json'' = None"
proof -
  let ?K = "join_demo\<lparr> jc_members := \<lambda>_ w. (Inr [''m''], w) \<rparr>"
  let ?rec = "\<lparr> cv_group_id = ''g'', cv_epoch = 2, cv_at_ms = 0 \<rparr>"
  have chat: "jc_chat ?K = Some \<lparr> ci_agent_id_hex = ''m'', ci_kem_public_key = [], ci_agent_id = [], ci_machine_id = [] \<rparr>"
    and env: "jc_secure ?K = Inr ()" "\<forall>w. \<exists>w'. jc_group_self_status ?K ''g'' w = (Inr None, w')"
      "cv_from_slice (jc_cv ?K) [0] = Inr ?rec" "fault_free (jc_os ?K)"
    using join_demo_ok(4) by (simp_all add: join_demo_def)
  have gid: "group_id_parse ''g'' = Inr ''g''" by code_simp
  have r: "pj_group_id (join_demo_record CHR ''a'' 0) = ''g''" "\<not> pj_is_terminal (join_demo_record CHR ''a'' 0)"
    by (simp_all add: join_demo_record_def pending_join_new_def pj_is_terminal_def)
  have c: "hm_get [(''g.json'', [0])] (path_for ''g'') = Some [0 :: 8 word]" by (simp add: hm_get_def path_for_def)
  have roster: "\<forall>w. \<exists>ms w'. jc_members ?K ''g'' w = (Inr ms, w') \<and> ci_agent_id_hex \<lparr> ci_agent_id_hex = ''m'', ci_kem_public_key = [], ci_agent_id = [], ci_machine_id = [] \<rparr> \<in> set ms"
    by simp
  have "0 < cv_epoch ?rec" by simp
  from stale_record_stops_repair [OF env(1) chat env(4) gid env(2) roster c env(3) this r,
      where D = join_demo_daemon and relay = None and rc = demo_recovery and d = join_demo_dir and w = "[]"]
  show ?thesis by (simp add: join_demo_def path_for_def)
qed

end
