(* ===== verification/Conversation.thy ===== *)
theory Conversation
  imports Outbox_Store Seq_Gap Relay_Proto
begin

text \<open>
  The state of a conversation (\<^verbatim>\<open>fetchit-chat/src/conversation/types.rs\<close>): its members, the keys
  of the current and of recent epochs, the replay window per sender, the history and the read
  mark, with the operations that touch neither files nor network. The clock is an argument; the
  base64 codec is a parameter.
\<close>

subsection \<open>Data\<close>

definition default_auto_rekey_interval_ms :: nat where
  "default_auto_rekey_interval_ms = 7 * 24 * 60 * 60 * 1000"

definition prior_key_window_ms :: nat where
  "prior_key_window_ms = 60 * 1000"

definition aead_key_len :: nat where
  "aead_key_len = 32"

datatype role = Admin | Member

datatype trust_state = TrustPending | Confirmed

datatype member_device_status = Active | Revoked

record member_device =
  md_agent_id_hex :: string
  md_kem_public_key_b64 :: string
  md_agent_public_key_b64 :: "string option"
  md_added_at_epoch :: nat
  md_status :: member_device_status

record member =
  mb_user_id_hex :: "string option"
  mb_devices :: "member_device list"
  mb_joined_at_epoch :: nat

record prior_key =
  pk_epoch :: nat
  pk_key_b64 :: string
  pk_expires_at_ms :: nat

record conversation =
  c_group_id_hex :: string
  c_name :: "string option"
  c_members :: "member list"
  c_current_epoch :: nat
  c_current_key_b64 :: string
  c_prior_keys :: "prior_key list"
  c_own_role :: role
  c_created_at_ms :: nat
  c_last_rekey_at_ms :: nat
  c_auto_rekey_interval_ms :: nat
  c_trust_state :: trust_state
  c_seen_nonces :: "(string, bytes list) hmap"
  c_history :: "history_entry list"
  c_own_group_send_seq :: nat
  c_group_seq_windows :: "(string, sender_seq_state) hmap"
  c_wedge_last_progress_ms :: nat
  c_wedge_last_inbound_ms :: nat
  c_wedge_progress_epoch :: nat
  c_wedge_max_stale_epoch :: nat
  c_read_ms :: nat

record welcome_payload =
  w_group_id_hex :: string
  w_current_key_b64 :: string
  w_epoch :: nat
  w_members :: "member list"
  w_name :: "string option"

record message_payload =
  m_sender_name :: "string option"
  m_body :: string
  m_ts_ms :: nat
  m_message_id :: "string option"
  m_reply_to_message_id :: "string option"
  m_attachment :: "attachment option"
  m_advertised_relays :: "string list option"
  m_hint_epoch_ms :: "nat option"

record delivery_receipt_payload =
  r_message_id :: string
  r_received_at_ms :: nat

subsection \<open>Construction\<close>

definition new_dm :: "string \<Rightarrow> string \<Rightarrow> nat \<Rightarrow> member \<Rightarrow> member \<Rightarrow> string option \<Rightarrow> conversation" where
  "new_dm group_id_hex key_b64 now local_member peer_member name =
     \<lparr> c_group_id_hex = group_id_hex, c_name = name, c_members = [local_member, peer_member],
       c_current_epoch = 0, c_current_key_b64 = key_b64, c_prior_keys = [], c_own_role = Admin,
       c_created_at_ms = now, c_last_rekey_at_ms = now,
       c_auto_rekey_interval_ms = default_auto_rekey_interval_ms, c_trust_state = Confirmed,
       c_seen_nonces = hm_empty, c_history = [], c_own_group_send_seq = 0,
       c_group_seq_windows = hm_empty, c_wedge_last_progress_ms = 0, c_wedge_last_inbound_ms = 0,
       c_wedge_progress_epoch = 0, c_wedge_max_stale_epoch = 0, c_read_ms = 0 \<rparr>"

definition from_welcome :: "nat \<Rightarrow> welcome_payload \<Rightarrow> trust_state \<Rightarrow> conversation" where
  "from_welcome now payload trust =
     \<lparr> c_group_id_hex = w_group_id_hex payload, c_name = w_name payload, c_members = w_members payload,
       c_current_epoch = w_epoch payload, c_current_key_b64 = w_current_key_b64 payload,
       c_prior_keys = [], c_own_role = Member,
       c_created_at_ms = now, c_last_rekey_at_ms = now,
       c_auto_rekey_interval_ms = default_auto_rekey_interval_ms, c_trust_state = trust,
       c_seen_nonces = hm_empty, c_history = [], c_own_group_send_seq = 0,
       c_group_seq_windows = hm_empty, c_wedge_last_progress_ms = 0, c_wedge_last_inbound_ms = 0,
       c_wedge_progress_epoch = 0, c_wedge_max_stale_epoch = 0, c_read_ms = 0 \<rparr>"

subsection \<open>Operations\<close>

definition record_group_seq :: "string \<Rightarrow> nat \<Rightarrow> nat \<Rightarrow> conversation \<Rightarrow> seq_observation \<times> conversation" where
  "record_group_seq sender seq now conv =
     (let s = (case hm_get (c_group_seq_windows conv) sender of Some s \<Rightarrow> s | None \<Rightarrow> sender_seq_default);
          (obs, s) = record_seq seq now s
      in (obs, conv\<lparr> c_group_seq_windows := hm_insert sender s (c_group_seq_windows conv) \<rparr>))"

definition confirm_trust :: "conversation \<Rightarrow> conversation" where
  "confirm_trust conv =
     (if c_trust_state conv = TrustPending then conv\<lparr> c_trust_state := Confirmed \<rparr> else conv)"

definition current_key :: "(string \<Rightarrow> string + bytes) \<Rightarrow> conversation \<Rightarrow> chat_error + bytes" where
  "current_key b64 conv =
     (case b64 (c_current_key_b64 conv) of
        Inl e \<Rightarrow> Inl (Invalid (''current_key b64: '' @ e))
      | Inr v \<Rightarrow> if length v \<noteq> aead_key_len then Inl (Invalid ''current_key length'') else Inr v)"

fun prior_key_for :: "(string \<Rightarrow> string + bytes) \<Rightarrow> nat \<Rightarrow> nat \<Rightarrow> prior_key list \<Rightarrow> chat_error + bytes option" where
  "prior_key_for b64 now epoch [] = Inr None"
| "prior_key_for b64 now epoch (p # ps) =
     (if pk_epoch p \<noteq> epoch then prior_key_for b64 now epoch ps
      else if pk_expires_at_ms p \<le> now then prior_key_for b64 now epoch ps
      else case b64 (pk_key_b64 p) of
             Inl e \<Rightarrow> Inl (Invalid (''prior key b64: '' @ e))
           | Inr k \<Rightarrow> if length k \<noteq> aead_key_len then Inl (Invalid ''prior key length'') else Inr (Some k))"

definition key_for_epoch :: "(string \<Rightarrow> string + bytes) \<Rightarrow> nat \<Rightarrow> nat \<Rightarrow> conversation \<Rightarrow> chat_error + bytes option" where
  "key_for_epoch b64 now epoch conv =
     (if epoch = c_current_epoch conv
      then (case current_key b64 conv of Inl e \<Rightarrow> Inl e | Inr k \<Rightarrow> Inr (Some k))
      else prior_key_for b64 now epoch (c_prior_keys conv))"

definition sweep_prior_keys :: "nat \<Rightarrow> conversation \<Rightarrow> conversation" where
  "sweep_prior_keys now conv =
     conv\<lparr> c_prior_keys := filter (\<lambda>p. pk_expires_at_ms p > now) (c_prior_keys conv) \<rparr>"

definition history_cap :: nat where
  "history_cap = 1000"

definition push_history :: "history_entry \<Rightarrow> conversation \<Rightarrow> conversation" where
  "push_history entry conv =
     conv\<lparr> c_history := (if length (c_history conv) \<ge> history_cap then tl (c_history conv)
                          else c_history conv) @ [entry] \<rparr>"

definition unread :: "string \<Rightarrow> conversation \<Rightarrow> nat" where
  "unread local_agent_id_hex conv =
     min (length (filter (\<lambda>e. h_sender_agent_id_hex e \<noteq> local_agent_id_hex \<and> h_ts_ms e > c_read_ms conv)
                         (c_history conv))) u32_max"

definition mark_read :: "conversation \<Rightarrow> bool \<times> conversation" where
  "mark_read conv =
     (if c_history conv = [] then (False, conv)
      else let newest = Max (set (map h_ts_ms (c_history conv))) in
           if newest \<le> c_read_ms conv then (False, conv)
           else (True, conv\<lparr> c_read_ms := newest \<rparr>))"

text \<open>The scan of \<^verbatim>\<open>apply_delivery_receipt\<close> over the history, newest entry first.\<close>

fun deliver_newest :: "string \<Rightarrow> nat \<Rightarrow> history_entry list \<Rightarrow> bool \<times> history_entry list" where
  "deliver_newest mid at_ms [] = (False, [])"
| "deliver_newest mid at_ms (e # es) =
     (if h_message_id e = mid
      then (if h_delivered_at_ms e \<noteq> None then (False, e # es)
            else (True, e\<lparr> h_delivered_at_ms := Some at_ms, h_send_state := Some Delivered,
                           h_state_changed_at_ms := at_ms \<rparr> # es))
      else let (hit, es) = deliver_newest mid at_ms es in (hit, e # es))"

definition apply_delivery_receipt :: "string \<Rightarrow> nat \<Rightarrow> conversation \<Rightarrow> bool \<times> conversation" where
  "apply_delivery_receipt message_id received_at_ms conv =
     (let (hit, es) = deliver_newest message_id received_at_ms (rev (c_history conv))
      in (hit, conv\<lparr> c_history := rev es \<rparr>))"

definition archive_key :: "nat \<Rightarrow> conversation \<Rightarrow> conversation" where
  "archive_key now conv =
     conv\<lparr> c_prior_keys := c_prior_keys conv
             @ [\<lparr> pk_epoch = c_current_epoch conv, pk_key_b64 = c_current_key_b64 conv,
                  pk_expires_at_ms = u64_wrap_add now prior_key_window_ms \<rparr>] \<rparr>"

definition advance_epoch_to :: "(bytes \<Rightarrow> string) \<Rightarrow> nat \<Rightarrow> nat \<Rightarrow> bytes \<Rightarrow> conversation \<Rightarrow> conversation" where
  "advance_epoch_to b64_encode now floor new_key conv =
     sweep_prior_keys now
       ((archive_key now conv)
          \<lparr> c_current_epoch := u32_sat_add (max floor (c_current_epoch conv)) 1,
            c_current_key_b64 := b64_encode new_key, c_last_rekey_at_ms := now \<rparr>)"

definition advance_epoch :: "(bytes \<Rightarrow> string) \<Rightarrow> nat \<Rightarrow> bytes \<Rightarrow> conversation \<Rightarrow> conversation" where
  "advance_epoch b64_encode now new_key conv =
     advance_epoch_to b64_encode now (c_current_epoch conv) new_key conv"

definition auto_rekey_due :: "nat \<Rightarrow> conversation \<Rightarrow> bool" where
  "auto_rekey_due now conv \<longleftrightarrow>
     (if c_own_role conv \<noteq> Admin then False
      else now - c_last_rekey_at_ms conv > c_auto_rekey_interval_ms conv)"

definition nonce_window :: nat where
  "nonce_window = 64"

definition check_and_record_nonce :: "string \<Rightarrow> bytes \<Rightarrow> conversation \<Rightarrow> bool \<times> conversation" where
  "check_and_record_nonce sender nonce conv =
     (let window = (case hm_get (c_seen_nonces conv) sender of Some w \<Rightarrow> w | None \<Rightarrow> []) in
      if nonce \<in> set window then (True, conv)
      else (False, conv\<lparr> c_seen_nonces := hm_insert sender
              ((if length window \<ge> nonce_window then tl window else window) @ [nonce])
              (c_seen_nonces conv) \<rparr>))"

definition conv_devices :: "conversation \<Rightarrow> member_device list" where
  "conv_devices conv = concat (map mb_devices (c_members conv))"

definition fanout_devices :: "string \<Rightarrow> conversation \<Rightarrow> member_device list" where
  "fanout_devices local_agent_id_hex conv =
     filter (\<lambda>d. md_status d = Active \<and> md_agent_id_hex d \<noteq> local_agent_id_hex) (conv_devices conv)"

subsection \<open>The plaintext of a private-group frame\<close>

record group_body_v1 =
  gb_sender_name :: "string option"
  gb_body :: string
  gb_seq :: "nat option"

definition group_body_magic :: bytes where
  "group_body_magic = [0] @ ascii ''LITG1'' @ [0]"

text \<open>The serialiser cannot fail on these fields; \<^verbatim>\<open>unwrap_or_default\<close> leaves the bare magic.\<close>

definition encode_group_plaintext ::
  "(group_body_v1 \<Rightarrow> string + bytes) \<Rightarrow> string \<Rightarrow> string \<Rightarrow> nat option \<Rightarrow> bytes" where
  "encode_group_plaintext to_vec sender_name body seq =
     group_body_magic
     @ (case to_vec \<lparr> gb_sender_name = (if sender_name = [] then None else Some sender_name),
                       gb_body = body, gb_seq = seq \<rparr> of Inl _ \<Rightarrow> [] | Inr bs \<Rightarrow> bs)"

definition decode_group_plaintext ::
  "(bytes \<Rightarrow> string + group_body_v1) \<Rightarrow> (bytes \<Rightarrow> string + string) \<Rightarrow> bytes \<Rightarrow> string + group_body_v1" where
  "decode_group_plaintext from_slice from_utf8 plaintext =
     (let n = length group_body_magic in
      if take n plaintext = group_body_magic
      then (case from_slice (drop n plaintext) of
              Inl e \<Rightarrow> Inl (''group payload json: '' @ e) | Inr p \<Rightarrow> Inr p)
      else (case from_utf8 plaintext of
              Inl e \<Rightarrow> Inl (''body utf8: '' @ e)
            | Inr body \<Rightarrow> Inr \<lparr> gb_sender_name = None, gb_body = body, gb_seq = None \<rparr>))"

end
