(* ===== verification/Conversation_Registry.thy ===== *)
theory Conversation_Registry
  imports Conversation Pending_Join_Properties Epoch_Recovery
begin

text \<open>
  The registry of open conversations (\<^verbatim>\<open>fetchit-chat/src/conversation/registry.rs\<close>): a cache by
  group id over the sealed files of \<^verbatim>\<open>conversations/\<close>, and the operations that read, change and
  persist one conversation. Every operation holds the lock of the cache from its first look to
  its last write, with two exceptions: \<open>rg_get\<close> gives the lock up between reading the file and
  inserting what it read, so it is written as the two steps \<open>get_begin\<close> and \<open>get_finish\<close>, and
  \<open>save_conv\<close> takes the lock only for its insertion, after the file is written.

  The serialiser, base64, the operating system and the clock are parameters; the file system is
  the one of the vault. The world \<open>'v\<close> supplies the environment of each file operation and the
  reading of the clock.
\<close>

subsection \<open>Paths\<close>

fun split_path :: "string \<Rightarrow> string list" where
  "split_path [] = [[]]"
| "split_path (c # cs) =
     (if c = CHR ''/'' then [] # split_path cs
      else case split_path cs of [] \<Rightarrow> [[c]] | x # xs \<Rightarrow> (c # x) # xs)"

text \<open>
  \<^verbatim>\<open>Path::join\<close>: a name that starts with a slash replaces the directory. \<open>resolve_path\<close> is the file
  the operating system opens for it, the directories of the store being plain directories.
\<close>

definition path_join :: "path \<Rightarrow> string \<Rightarrow> path" where
  "path_join d name =
     (let cs = filter (\<lambda>c. c \<noteq> [] \<and> c \<noteq> ''.'') (split_path name)
      in if take 1 name = ''/'' then cs else d @ cs)"

definition resolve_path :: "path \<Rightarrow> path" where
  "resolve_path p = rev (foldl (\<lambda>acc c. if c = ''..'' then tl acc else c # acc) [] p)"

record store_layout =
  l_root :: path
  l_contacts_dir :: path
  l_conversations_dir :: path

definition layout_at :: "path \<Rightarrow> store_layout" where
  "layout_at root =
     \<lparr> l_root = root, l_contacts_dir = root @ [''contacts''],
       l_conversations_dir = root @ [''conversations''] \<rparr>"

definition contact_path :: "store_layout \<Rightarrow> string \<Rightarrow> path" where
  "contact_path L agent_id_hex = resolve_path (path_join (l_contacts_dir L) (agent_id_hex @ ''.json''))"

definition conversation_path :: "store_layout \<Rightarrow> string \<Rightarrow> path" where
  "conversation_path L group_id_hex =
     resolve_path (path_join (l_conversations_dir L) (group_id_hex @ ''.json.enc''))"

subsection \<open>State and environment\<close>

record 'v reg_env =
  k_layout :: store_layout
  k_cipher :: cipher
  k_master :: bytes
  k_kdf_id :: "8 word"
  k_argon_salt :: "bytes option"
  k_conv_to_vec :: "conversation \<Rightarrow> string + bytes"
  k_conv_from_slice :: "bytes \<Rightarrow> string + conversation"
  k_b64 :: "string \<Rightarrow> string + bytes"
  k_os :: "'v \<Rightarrow> os_env \<times> 'v"
  k_clock :: "'v \<Rightarrow> nat \<times> 'v"

record 'v reg =
  rg_by_group_id :: "(string, conversation) hmap"
  rg_peer_pubkeys :: "(string, bytes) hmap"
  rg_files :: files
  rg_world :: 'v

definition draw_os :: "('v, 'x) reg_env_scheme \<Rightarrow> 'v reg \<Rightarrow> os_env \<times> 'v reg" where
  "draw_os R s = (let (E, v) = k_os R (rg_world s) in (E, s\<lparr> rg_world := v \<rparr>))"

definition draw_now :: "('v, 'x) reg_env_scheme \<Rightarrow> 'v reg \<Rightarrow> nat \<times> 'v reg" where
  "draw_now R s = (let (t, v) = k_clock R (rg_world s) in (t, s\<lparr> rg_world := v \<rparr>))"

subsection \<open>The public keys of the members\<close>

definition ascii_hexdigit :: "char \<Rightarrow> bool" where
  "ascii_hexdigit c \<longleftrightarrow>
     (let n = of_char c :: nat in (48 \<le> n \<and> n \<le> 57) \<or> (65 \<le> n \<and> n \<le> 70) \<or> (97 \<le> n \<and> n \<le> 102))"

definition hex_lower :: "char \<Rightarrow> char" where
  "hex_lower c = (let n = of_char c :: nat in if 65 \<le> n \<and> n \<le> 90 then char_of (n + 32) else c)"

definition agent_id_parse :: "string \<Rightarrow> chat_error + string" where
  "agent_id_parse s =
     (if length s \<noteq> 64 \<or> \<not> list_all ascii_hexdigit s
      then Inl (Invalid (''agent id must be 64 hex chars; got '' @ show_nat (length s) @ '' chars''))
      else Inr (map hex_lower s))"

definition cache_device :: "(string \<Rightarrow> string + bytes) \<Rightarrow> member_device \<Rightarrow> (string, bytes) hmap \<Rightarrow> (string, bytes) hmap" where
  "cache_device b64 d g =
     (case md_agent_public_key_b64 d of None \<Rightarrow> g | Some pk_b64 \<Rightarrow>
      case b64 pk_b64 of Inl _ \<Rightarrow> g | Inr pk \<Rightarrow>
      case agent_id_parse (md_agent_id_hex d) of Inl _ \<Rightarrow> g | Inr aid \<Rightarrow> hm_insert aid pk g)"

definition refresh_pubkey_cache :: "('v, 'x) reg_env_scheme \<Rightarrow> conversation \<Rightarrow> 'v reg \<Rightarrow> 'v reg" where
  "refresh_pubkey_cache R conv s =
     s\<lparr> rg_peer_pubkeys := fold (cache_device (k_b64 R)) (conv_devices conv) (rg_peer_pubkeys s) \<rparr>"

definition peer_ml_dsa_pubkey :: "string \<Rightarrow> 'v reg \<Rightarrow> bytes option" where
  "peer_ml_dsa_pubkey agent_id s = hm_get (rg_peer_pubkeys s) agent_id"

subsection \<open>Reading and writing one conversation\<close>

definition cache_put :: "string \<Rightarrow> conversation \<Rightarrow> 'v reg \<Rightarrow> 'v reg" where
  "cache_put group_id_hex conv s =
     s\<lparr> rg_by_group_id := hm_insert group_id_hex conv (rg_by_group_id s) \<rparr>"

definition conv_path :: "('v, 'x) reg_env_scheme \<Rightarrow> string \<Rightarrow> path" where
  "conv_path R group_id_hex = conversation_path (k_layout R) group_id_hex"

definition open_conv :: "('v, 'x) reg_env_scheme \<Rightarrow> path \<Rightarrow> 'v reg \<Rightarrow> (chat_error + conversation) \<times> 'v reg" where
  "open_conv R p s =
     (let (E, s) = draw_os R s in
      (case open_from_path (k_cipher R) E p (k_master R) (rg_files s) of
         Inl e \<Rightarrow> Inl e
       | Inr bs \<Rightarrow> (case k_conv_from_slice R bs of
           Inl e \<Rightarrow> Inl (Invalid (''conv parse: '' @ e)) | Inr conv \<Rightarrow> Inr conv), s))"

definition persist_conv :: "('v, 'x) reg_env_scheme \<Rightarrow> string \<Rightarrow> conversation \<Rightarrow> 'v reg \<Rightarrow> (chat_error + unit) \<times> 'v reg" where
  "persist_conv R group_id_hex conv s =
     (case k_conv_to_vec R conv of
        Inl e \<Rightarrow> (Inl (Invalid (''conv serialize: '' @ e)), s)
      | Inr bs \<Rightarrow>
          (let (E, s) = draw_os R s;
               (r, fs) = seal_to_path (k_cipher R) E (conv_path R group_id_hex) bs (k_master R)
                           (k_kdf_id R) (k_argon_salt R) (rg_files s)
           in (r, s\<lparr> rg_files := fs \<rparr>)))"

subsection \<open>Looking a conversation up\<close>

datatype get_progress = Found "conversation option" | Read conversation

definition get_begin :: "('v, 'x) reg_env_scheme \<Rightarrow> string \<Rightarrow> 'v reg \<Rightarrow> (chat_error + get_progress) \<times> 'v reg" where
  "get_begin R group_id_hex s =
     (case hm_get (rg_by_group_id s) group_id_hex of
        Some c \<Rightarrow> (Inr (Found (Some c)), s)
      | None \<Rightarrow>
          if rg_files s (conv_path R group_id_hex) = None then (Inr (Found None), s)
          else case open_conv R (conv_path R group_id_hex) s of
                 (Inl e, s) \<Rightarrow> (Inl e, s)
               | (Inr conv, s) \<Rightarrow> (Inr (Read conv), refresh_pubkey_cache R conv s))"

definition get_finish :: "string \<Rightarrow> get_progress \<Rightarrow> 'v reg \<Rightarrow> conversation option \<times> 'v reg" where
  "get_finish group_id_hex g s =
     (case g of Found c \<Rightarrow> (c, s) | Read conv \<Rightarrow> (Some conv, cache_put group_id_hex conv s))"

definition rg_get :: "('v, 'x) reg_env_scheme \<Rightarrow> string \<Rightarrow> 'v reg \<Rightarrow> (chat_error + conversation option) \<times> 'v reg" where
  "rg_get R group_id_hex s =
     (case get_begin R group_id_hex s of
        (Inl e, s) \<Rightarrow> (Inl e, s)
      | (Inr g, s) \<Rightarrow> (let (c, s) = get_finish group_id_hex g s in (Inr c, s)))"

definition snapshot_cached :: "'v reg \<Rightarrow> conversation list" where
  "snapshot_cached s = hm_values (rg_by_group_id s)"

definition dm_with :: "string \<Rightarrow> conversation \<Rightarrow> bool" where
  "dm_with peer conv \<longleftrightarrow>
     length (c_members conv) = 2 \<and> list_ex (\<lambda>d. md_agent_id_hex d = peer) (conv_devices conv)"

fun str_less :: "string \<Rightarrow> string \<Rightarrow> bool" where
  "str_less _ [] = False"
| "str_less [] (_ # _) = True"
| "str_less (a # as) (b # bs) =
     ((of_char a :: nat) < of_char b \<or> (a = b \<and> str_less as bs))"

text \<open>The comparison of the tiebreak chain: \<open>a\<close> is sorted before \<open>b\<close>.\<close>

definition dm_before :: "conversation \<Rightarrow> conversation \<Rightarrow> bool" where
  "dm_before a b \<longleftrightarrow>
     c_current_epoch b < c_current_epoch a \<or> c_current_epoch a = c_current_epoch b \<and>
     (c_last_rekey_at_ms b < c_last_rekey_at_ms a \<or> c_last_rekey_at_ms a = c_last_rekey_at_ms b \<and>
      (c_created_at_ms b < c_created_at_ms a \<or> c_created_at_ms a = c_created_at_ms b \<and>
       str_less (c_group_id_hex b) (c_group_id_hex a)))"

fun insert_dm :: "conversation \<Rightarrow> conversation list \<Rightarrow> conversation list" where
  "insert_dm c [] = [c]"
| "insert_dm c (x # xs) = (if dm_before x c then x # insert_dm c xs else c # x # xs)"

definition pick_current_dm :: "conversation list \<Rightarrow> conversation option" where
  "pick_current_dm candidates =
     (case foldr insert_dm candidates [] of [] \<Rightarrow> None | c # _ \<Rightarrow> Some c)"

text \<open>The scan of the directory, over the entries \<^verbatim>\<open>read_dir\<close> returns.\<close>

fun scan_dms ::
  "('v, 'x) reg_env_scheme \<Rightarrow> string \<Rightarrow> path list \<Rightarrow> string list \<Rightarrow> conversation list \<Rightarrow> 'v reg
     \<Rightarrow> (chat_error + conversation list) \<times> 'v reg" where
  "scan_dms R peer [] known candidates s = (Inr candidates, s)"
| "scan_dms R peer (p # ps) known candidates s =
     (if path_extension (last p) \<noteq> Some ''enc'' then scan_dms R peer ps known candidates s
      else case open_conv R p s of (Inl e, s) \<Rightarrow> (Inl e, s) | (Inr conv, s) \<Rightarrow>
        if \<not> dm_with peer conv then scan_dms R peer ps known candidates s
        else let s = refresh_pubkey_cache R conv s;
                 id = c_group_id_hex conv;
                 s = (if hm_contains (rg_by_group_id s) id then s else cache_put id conv s)
             in if id \<in> set known then scan_dms R peer ps known candidates s
                else scan_dms R peer ps (id # known) (candidates @ [conv]) s)"

definition find_dm_with ::
  "('v, 'x) reg_env_scheme \<Rightarrow> (files \<Rightarrow> path \<Rightarrow> path list) \<Rightarrow> string \<Rightarrow> 'v reg
     \<Rightarrow> (chat_error + conversation option) \<times> 'v reg" where
  "find_dm_with R read_dir peer s =
     (let candidates = filter (dm_with peer) (hm_values (rg_by_group_id s));
          (E, s) = draw_os R s
      in case io_fault E ReadDir of Some e \<Rightarrow> (Inl (Io e), s) | None \<Rightarrow>
         case scan_dms R peer (read_dir (rg_files s) (l_conversations_dir (k_layout R)))
                (map c_group_id_hex candidates) candidates s of
           (Inl e, s) \<Rightarrow> (Inl e, s)
         | (Inr cs, s) \<Rightarrow> (Inr (pick_current_dm cs), s))"

subsection \<open>Changing a conversation\<close>

definition save_conv :: "('v, 'x) reg_env_scheme \<Rightarrow> conversation \<Rightarrow> 'v reg \<Rightarrow> (chat_error + unit) \<times> 'v reg" where
  "save_conv R conv s =
     (case persist_conv R (c_group_id_hex conv) conv s of
        (Inl e, s) \<Rightarrow> (Inl e, s)
      | (Inr _, s) \<Rightarrow> (Inr (), cache_put (c_group_id_hex conv) conv (refresh_pubkey_cache R conv s)))"

text \<open>
  Loading a conversation into the cache under the lock, the first block of every operation
  below; \<open>absent\<close> is what the operation does when the file does not exist.
\<close>

definition hydrate ::
  "('v, 'x) reg_env_scheme \<Rightarrow> chat_error + conversation \<Rightarrow> string \<Rightarrow> 'v reg \<Rightarrow> (chat_error + unit) \<times> 'v reg" where
  "hydrate R absent group_id_hex s =
     (if hm_contains (rg_by_group_id s) group_id_hex then (Inr (), s)
      else if rg_files s (conv_path R group_id_hex) = None then
        (case absent of
           Inl e \<Rightarrow> (Inl e, s)
         | Inr shell \<Rightarrow> (Inr (), cache_put group_id_hex shell (refresh_pubkey_cache R shell s)))
      else case open_conv R (conv_path R group_id_hex) s of
             (Inl e, s) \<Rightarrow> (Inl e, s)
           | (Inr conv, s) \<Rightarrow> (Inr (), cache_put group_id_hex conv (refresh_pubkey_cache R conv s)))"

datatype 'a mutate_action = Persist 'a | Skip 'a

text \<open>
  The conversation in the cache stays the snapshot until the file is written, which is what the
  restore of the failing and of the skipping branch amounts to under the lock.
\<close>

definition mutate_in_place_impl ::
  "('v, 'x) reg_env_scheme \<Rightarrow> conversation option \<Rightarrow> string
     \<Rightarrow> (conversation \<Rightarrow> 'v \<Rightarrow> ('a mutate_action \<times> conversation) \<times> 'v) \<Rightarrow> 'v reg
     \<Rightarrow> (chat_error + 'a) \<times> 'v reg" where
  "mutate_in_place_impl R init group_id_hex mutate s =
     (case hydrate R (case init of
               None \<Rightarrow> Inl (Invalid (''mutate_in_place: no conversation for group_id '' @ group_id_hex))
             | Some shell \<Rightarrow> Inr shell) group_id_hex s of
        (Inl e, s) \<Rightarrow> (Inl e, s)
      | (Inr _, s) \<Rightarrow>
      case hm_get (rg_by_group_id s) group_id_hex of
        None \<Rightarrow> (Inl (Invalid (''mutate_in_place: cache miss after hydrate for '' @ group_id_hex)), s)
      | Some conv \<Rightarrow>
      let ((action, conv'), v) = mutate conv (rg_world s); s = s\<lparr> rg_world := v \<rparr> in
      case action of
        Skip value \<Rightarrow> (Inr value, s)
      | Persist value \<Rightarrow>
          (case persist_conv R group_id_hex conv' s of
             (Inl e, s) \<Rightarrow> (Inl e, s)
           | (Inr _, s) \<Rightarrow> (Inr value, refresh_pubkey_cache R conv' (cache_put group_id_hex conv' s))))"

definition mutate_in_place where
  "mutate_in_place R group_id_hex mutate s = mutate_in_place_impl R None group_id_hex mutate s"

definition mutate_in_place_or_init where
  "mutate_in_place_or_init R group_id_hex shell mutate s =
     mutate_in_place_impl R (Some shell) group_id_hex mutate s"

text \<open>A closure that reads neither the clock nor anything else of the world.\<close>

definition pure_mutation ::
  "(conversation \<Rightarrow> 'a mutate_action \<times> conversation) \<Rightarrow> conversation \<Rightarrow> 'v
     \<Rightarrow> ('a mutate_action \<times> conversation) \<times> 'v" where
  "pure_mutation f conv v = (f conv, v)"

definition note_wedge_progress :: "('v, 'x) reg_env_scheme \<Rightarrow> string \<Rightarrow> 'v reg \<Rightarrow> 'v reg" where
  "note_wedge_progress R group_id_hex s =
     (let (now_ms, s) = draw_now R s in
      snd (mutate_in_place R group_id_hex (pure_mutation (\<lambda>conv.
             (Persist (), conv\<lparr> c_wedge_last_progress_ms := now_ms, c_wedge_last_inbound_ms := now_ms,
                                c_wedge_progress_epoch := c_current_epoch conv \<rparr>))) s))"

definition note_wedge_inbound :: "('v, 'x) reg_env_scheme \<Rightarrow> string \<Rightarrow> nat option \<Rightarrow> 'v reg \<Rightarrow> 'v reg" where
  "note_wedge_inbound R group_id_hex frame_epoch s =
     (let (now_ms, s) = draw_now R s in
      snd (mutate_in_place R group_id_hex (pure_mutation (\<lambda>conv.
             (Persist (), conv\<lparr> c_wedge_last_inbound_ms := now_ms,
                c_wedge_max_stale_epoch :=
                  (case frame_epoch of
                     Some e \<Rightarrow> if e > c_current_epoch conv then max (c_wedge_max_stale_epoch conv) e
                               else c_wedge_max_stale_epoch conv
                   | None \<Rightarrow> c_wedge_max_stale_epoch conv) \<rparr>))) s))"

definition wedge_snapshot :: "nat \<Rightarrow> nat \<Rightarrow> 'v reg \<Rightarrow> (string \<times> wedge_signals) list" where
  "wedge_snapshot now_ms recent_window_ms s =
     map (\<lambda>(id, conv). (id,
       \<lparr> ws_last_progress_ms = c_wedge_last_progress_ms conv,
         ws_recent_receipt_activity =
           (c_wedge_last_inbound_ms conv > c_wedge_last_progress_ms conv
            \<and> now_ms - c_wedge_last_inbound_ms conv \<le> recent_window_ms),
         ws_current_epoch = c_current_epoch conv,
         ws_last_seen_epoch = c_wedge_progress_epoch conv \<rparr>)) (rg_by_group_id s)"

datatype nonce_check_outcome = Recorded | Replay

definition record_nonce ::
  "('v, 'x) reg_env_scheme \<Rightarrow> string \<Rightarrow> string \<Rightarrow> bytes \<Rightarrow> 'v reg \<Rightarrow> (chat_error + nonce_check_outcome) \<times> 'v reg" where
  "record_nonce R group_id_hex sender nonce s =
     (case hydrate R (Inl (Invalid (''record_nonce: no conversation for group_id '' @ group_id_hex))) group_id_hex s of
        (Inl e, s) \<Rightarrow> (Inl e, s)
      | (Inr _, s) \<Rightarrow>
      case hm_get (rg_by_group_id s) group_id_hex of
        None \<Rightarrow> (Inl (Invalid (''record_nonce: cache miss after hydrate for '' @ group_id_hex)), s)
      | Some conv \<Rightarrow>
      let (replay, conv') = check_and_record_nonce sender nonce conv in
      if replay then (Inr Replay, s)
      else case persist_conv R group_id_hex conv' s of
             (Inl e, s) \<Rightarrow> (Inl e, s)
           | (Inr _, s) \<Rightarrow> (Inr Recorded, cache_put group_id_hex conv' s))"

definition record_delivery ::
  "('v, 'x) reg_env_scheme \<Rightarrow> string \<Rightarrow> string \<Rightarrow> nat \<Rightarrow> 'v reg \<Rightarrow> (chat_error + bool) \<times> 'v reg" where
  "record_delivery R group_id_hex message_id received_at_ms s =
     (case hydrate R (Inl (Invalid (''record_delivery: no conversation for group_id '' @ group_id_hex))) group_id_hex s of
        (Inl e, s) \<Rightarrow> (Inl e, s)
      | (Inr _, s) \<Rightarrow>
      case hm_get (rg_by_group_id s) group_id_hex of
        None \<Rightarrow> (Inl (Invalid (''record_delivery: cache miss after hydrate for '' @ group_id_hex)), s)
      | Some conv \<Rightarrow>
      let (marked, conv') = apply_delivery_receipt message_id received_at_ms conv in
      if \<not> marked then (Inr False, s)
      else case persist_conv R group_id_hex conv' s of
             (Inl e, s) \<Rightarrow> (Inl e, s)
           | (Inr _, s) \<Rightarrow> (Inr True, cache_put group_id_hex conv' s))"

end
