(* ===== verification/Inbound.thy ===== *)
theory Inbound
  imports Conversation_Registry
begin

text \<open>
  Inbound envelopes (\<^verbatim>\<open>fetchit-chat/src/conversation/inbound.rs\<close>, with the stored contact card
  of \<^verbatim>\<open>messages.rs\<close>): verification against the sender's card, the replay window, decryption, the
  side effects of a message and of a receipt, and welcomes, which install a conversation or
  change its key. The primitives (ML-DSA, ML-KEM, the key derivation, the hash), the wire and JSON
  codecs, base64, hex and the URL parser are fields of the environment.
\<close>

subsection \<open>The stored contact card\<close>

record stored_contact_card =
  sc_agent_id_hex :: string
  sc_display_name :: string
  sc_kem_public_key_b64 :: string
  sc_agent_public_key_b64 :: "string option"
  sc_rendezvous_hints :: "string list option"
  sc_last_hint_epoch_ms :: "nat option"
  sc_user_id_hex :: "string option"

record 'v inbound_env = "'v reg_env" +
  i_hex :: "bytes \<Rightarrow> string"
  i_sha256 :: "bytes \<Rightarrow> bytes"
  i_ml_dsa_verify :: "bytes \<Rightarrow> bytes \<Rightarrow> bytes \<Rightarrow> bool"
  i_kem_decapsulate :: "bytes \<Rightarrow> string + bytes"
  i_derive_aead_key :: "bytes \<Rightarrow> bytes \<Rightarrow> bytes"
  i_postcard :: "transit_envelope \<Rightarrow> string + bytes"
  i_card_to_vec :: "stored_contact_card \<Rightarrow> string + bytes"
  i_card_from_slice :: "bytes \<Rightarrow> string + stored_contact_card"
  i_welcome_from_slice :: "bytes \<Rightarrow> string + welcome_payload"
  i_message_from_slice :: "bytes \<Rightarrow> string + message_payload"
  i_receipt_from_slice :: "bytes \<Rightarrow> string + delivery_receipt_payload"
  i_url_host_port :: "string \<Rightarrow> string option"
  i_bubbles_to_vec :: "bubble_map \<Rightarrow> string + bytes"
  i_bubbles_from_slice :: "bytes \<Rightarrow> bubble_map option"

definition max_hint_relays :: nat where
  "max_hint_relays = 8"

definition max_hint_url_len :: nat where
  "max_hint_url_len = 256"

definition bare_ip_relay_migrations :: "(string \<times> string) list" where
  "bare_ip_relay_migrations =
     [(''67.207.94.66:8088'', ''https://nyc-relay.etchit.io''),
      (''159.89.11.217:8088'', ''https://fra-relay.etchit.io'')]"

text \<open>The URL parser gives host and port of a URL that has a host.\<close>

definition migrate_known_bare_ip_relay :: "(string \<Rightarrow> string option) \<Rightarrow> string \<Rightarrow> string" where
  "migrate_known_bare_ip_relay host_port relay =
     (case host_port relay of None \<Rightarrow> relay | Some hp \<Rightarrow>
      case map_of bare_ip_relay_migrations hp of None \<Rightarrow> relay | Some url \<Rightarrow> url)"

definition card_path :: "('v, 'x) reg_env_scheme \<Rightarrow> string \<Rightarrow> path" where
  "card_path R agent_id_hex = contact_path (k_layout R) agent_id_hex"

definition write_card :: "'v inbound_env \<Rightarrow> stored_contact_card \<Rightarrow> 'v reg \<Rightarrow> (chat_error + unit) \<times> 'v reg" where
  "write_card R contact s =
     (case i_card_to_vec R contact of
        Inl e \<Rightarrow> (Inl (Invalid (''json to_vec: '' @ e)), s)
      | Inr bs \<Rightarrow>
          (let (E, s) = draw_os R s;
               (r, fs) = write_bytes_atomic E (card_path R (sc_agent_id_hex contact)) bs (rg_files s)
           in (r, s\<lparr> rg_files := fs \<rparr>)))"

definition load_card :: "'v inbound_env \<Rightarrow> string \<Rightarrow> 'v reg \<Rightarrow> (chat_error + stored_contact_card option) \<times> 'v reg" where
  "load_card R agent_id_hex s =
     (let p = card_path R agent_id_hex in
      if rg_files s p = None then (Inr None, s)
      else let (E, s) = draw_os R s in
        ((case read_file E p (rg_files s) of
            Inl e \<Rightarrow> Inl e
          | Inr bs \<Rightarrow> (case i_card_from_slice R bs of
              Inl e \<Rightarrow> Inl (Invalid (''stored card parse: '' @ e)) | Inr c \<Rightarrow> Inr (Some c))), s))"

definition apply_relay_hint ::
  "'v inbound_env \<Rightarrow> string \<Rightarrow> string list \<Rightarrow> nat \<Rightarrow> 'v reg \<Rightarrow> (chat_error + bool) \<times> 'v reg" where
  "apply_relay_hint R sender relays hint_epoch_ms s =
     (if relays = [] \<or> length relays > max_hint_relays \<or> list_ex (\<lambda>u. length u > max_hint_url_len) relays
      then (Inr False, s)
      else
        let relays = map (migrate_known_bare_ip_relay (i_url_host_port R)) relays in
        case load_card R sender s of
          (Inl e, s) \<Rightarrow> (Inl e, s)
        | (Inr None, s) \<Rightarrow> (Inr False, s)
        | (Inr (Some contact), s) \<Rightarrow>
            if hint_epoch_ms \<le> (case sc_last_hint_epoch_ms contact of Some t \<Rightarrow> t | None \<Rightarrow> 0)
            then (Inr False, s)
            else case write_card R (contact\<lparr> sc_rendezvous_hints := Some relays,
                                           sc_last_hint_epoch_ms := Some hint_epoch_ms \<rparr>) s of
                   (Inl e, s) \<Rightarrow> (Inl e, s) | (Inr _, s) \<Rightarrow> (Inr True, s))"

definition keep_key :: "string \<Rightarrow> string \<Rightarrow> string" where
  "keep_key incoming existing = (if incoming = [] \<and> existing \<noteq> [] then existing else incoming)"

definition merge_imported :: "stored_contact_card \<Rightarrow> stored_contact_card \<Rightarrow> stored_contact_card" where
  "merge_imported existing c =
     (let c = (if sc_last_hint_epoch_ms existing \<noteq> None
               then c\<lparr> sc_last_hint_epoch_ms := sc_last_hint_epoch_ms existing,
                       sc_rendezvous_hints := sc_rendezvous_hints existing \<rparr> else c);
          c = (if (sc_agent_public_key_b64 c = None \<or> sc_agent_public_key_b64 c = Some [])
                  \<and> sc_agent_public_key_b64 existing \<noteq> None \<and> sc_agent_public_key_b64 existing \<noteq> Some []
               then c\<lparr> sc_agent_public_key_b64 := sc_agent_public_key_b64 existing \<rparr> else c);
          c = c\<lparr> sc_kem_public_key_b64 := keep_key (sc_kem_public_key_b64 c) (sc_kem_public_key_b64 existing),
                 sc_display_name := keep_key (sc_display_name c) (sc_display_name existing) \<rparr>
      in if sc_user_id_hex c = None \<and> sc_user_id_hex existing \<noteq> None
         then c\<lparr> sc_user_id_hex := sc_user_id_hex existing \<rparr> else c)"

definition save_imported :: "'v inbound_env \<Rightarrow> stored_contact_card \<Rightarrow> 'v reg \<Rightarrow> (chat_error + unit) \<times> 'v reg" where
  "save_imported R c s =
     (case load_card R (sc_agent_id_hex c) s of
        (Inl e, s) \<Rightarrow> (Inl e, s)
      | (Inr None, s) \<Rightarrow> write_card R c s
      | (Inr (Some existing), s) \<Rightarrow> write_card R (merge_imported existing c) s)"

subsection \<open>Outcomes\<close>

datatype inbound_dispatch =
    Welcomed conversation
  | WelcomedPending conversation
  | WelcomeIgnored
  | Rekeyed conversation
  | Message string string message_payload
  | Receipt string string string nat
  | StaleEpoch string nat
  | KemDecapFailed
  | AeadOpenFailed string nat
  | ReplayDetected string string
  | Dropped string string

fun confirms_delivery :: "inbound_dispatch \<Rightarrow> bool" where
  "confirms_delivery (StaleEpoch _ _) = False"
| "confirms_delivery KemDecapFailed = False"
| "confirms_delivery (Dropped kind _) = (kind \<noteq> ''no-card'' \<and> kind \<noteq> ''no-pubkey'')"
| "confirms_delivery _ = True"

definition aad_domain :: bytes where
  "aad_domain = ascii ''lit/v1''"

definition kdf_info_welcome :: bytes where
  "kdf_info_welcome = ascii ''lit/welcome/v1''"

definition sign_domain_envelope :: bytes where
  "sign_domain_envelope = ascii ''lit/envelope/v1''"

definition message_aad :: "bytes \<Rightarrow> nat \<Rightarrow> bytes" where
  "message_aad group_id epoch = aad_domain @ group_id @ u32_be epoch"

definition canonical_envelope_bytes :: "'v inbound_env \<Rightarrow> transit_envelope \<Rightarrow> chat_error + bytes" where
  "canonical_envelope_bytes R env =
     (case i_postcard R (env\<lparr> e_sender_signature := [] \<rparr>) of
        Inl e \<Rightarrow> Inl (Invalid (''postcard: '' @ e)) | Inr bs \<Rightarrow> Inr bs)"

text \<open>The bytes an agent key signs for an envelope, in the framing of external agents.\<close>

definition framed_envelope :: "bytes \<Rightarrow> bytes" where
  "framed_envelope canonical = agent_sign_input (sign_domain_envelope @ canonical)"

definition sender_hex :: "'v inbound_env \<Rightarrow> transit_envelope \<Rightarrow> string" where
  "sender_hex R env = i_hex R (e_sender_agent_id env)"

subsection \<open>Verification against the card\<close>

text \<open>\<^verbatim>\<open>VerifyOutcome\<close>: \<open>Some\<close> is the early drop, \<open>None\<close> the green light.\<close>

definition verify_sender ::
  "'v inbound_env \<Rightarrow> transit_envelope \<Rightarrow> 'v reg \<Rightarrow> (chat_error + inbound_dispatch option) \<times> 'v reg" where
  "verify_sender R env s =
     (let sender = sender_hex R env; p = card_path R sender in
      if rg_files s p = None then (Inr (Some (Dropped ''no-card'' sender)), s)
      else let (E, s) = draw_os R s in
        ((case read_file E p (rg_files s) of
            Inl e \<Rightarrow> Inl (Invalid (''read card '' @ concat (map (\<lambda>c. CHR ''/'' # c) p) @ '': ''
                       @ (case e of Io text \<Rightarrow> text | _ \<Rightarrow> [])))
          | Inr card_bytes \<Rightarrow>
          case i_card_from_slice R card_bytes of
            Inl e \<Rightarrow> Inl (Invalid (''stored card parse: '' @ e))
          | Inr stored \<Rightarrow>
          case sc_agent_public_key_b64 stored of
            None \<Rightarrow> Inr (Some (Dropped ''no-pubkey'' sender))
          | Some agent_pk_b64 \<Rightarrow>
          case k_b64 R agent_pk_b64 of
            Inl e \<Rightarrow> Inl (Invalid (''card agent_public_key_b64: '' @ e))
          | Inr agent_pub \<Rightarrow>
          case canonical_envelope_bytes R env of
            Inl e \<Rightarrow> Inl e
          | Inr canonical \<Rightarrow>
              if \<not> i_ml_dsa_verify R agent_pub (framed_envelope canonical) (e_sender_signature env)
              then Inr (Some (Dropped ''bad-signature'' sender))
              else Inr None), s))"

subsection \<open>Receipts and messages\<close>

text \<open>
  What a receipt and a message share: the conversation and its key, the nonce check and the
  decryption. \<open>Inl\<close> is an early return, \<open>Inr\<close> the plaintext.
\<close>

definition open_frame ::
  "'v inbound_env \<Rightarrow> transit_envelope \<Rightarrow> bytes \<Rightarrow> string \<Rightarrow> 'v reg
     \<Rightarrow> ((chat_error + inbound_dispatch) + bytes) \<times> 'v reg" where
  "open_frame R env group_id group_id_hex s =
     (case rg_get R group_id_hex s of
        (Inl e, s) \<Rightarrow> (Inl (Inl e), s)
      | (Inr None, s) \<Rightarrow> (Inl (Inr (StaleEpoch group_id_hex (e_epoch env))), s)
      | (Inr (Some conv), s) \<Rightarrow>
      let (now, s) = draw_now R s in
      case key_for_epoch (k_b64 R) now (e_epoch env) conv of
        Inl e \<Rightarrow> (Inl (Inl e), s)
      | Inr None \<Rightarrow>
          (Inl (Inr (StaleEpoch group_id_hex (e_epoch env))),
           note_wedge_inbound R group_id_hex (Some (e_epoch env)) s)
      | Inr (Some key) \<Rightarrow>
      if length (e_nonce env) \<noteq> aead_nonce_len then (Inl (Inl (Invalid ''nonce length'')), s)
      else case record_nonce R group_id_hex (sender_hex R env) (e_nonce env) s of
        (Inl e, s) \<Rightarrow> (Inl (Inl e), s)
      | (Inr Replay, s) \<Rightarrow> (Inl (Inr (ReplayDetected group_id_hex (sender_hex R env))), s)
      | (Inr Recorded, s) \<Rightarrow>
      case aead_open (k_cipher R) key (e_nonce env) (e_ciphertext env) (message_aad group_id (e_epoch env)) of
        Inl _ \<Rightarrow>
          (Inl (Inr (AeadOpenFailed group_id_hex (e_epoch env))),
           note_wedge_inbound R group_id_hex (Some (e_epoch env)) s)
      | Inr plaintext \<Rightarrow> (Inr plaintext, note_wedge_progress R group_id_hex s))"

text \<open>The outbox of the sender, when it is wired, and the events broadcast from it.\<close>

record outbox_link =
  ol_store :: "outbox_store option"
  ol_events :: "outbox_bubble list"

definition mark_outbox ::
  "'v inbound_env \<Rightarrow> string \<Rightarrow> nat \<Rightarrow> 'v reg \<times> outbox_link \<Rightarrow> 'v reg \<times> outbox_link" where
  "mark_outbox R message_id received_at_ms so =
     (let (s, ol) = so in
      case ol_store ol of None \<Rightarrow> (s, ol) | Some st \<Rightarrow>
        (let (E, s) = draw_os R s;
             V = \<lparr> v_cipher = k_cipher R, v_os = E, v_to_vec = i_bubbles_to_vec R,
                    v_from_slice = i_bubbles_from_slice R \<rparr>;
             (b, st, fs) = mark_delivered V message_id received_at_ms (st, rg_files s)
         in (s\<lparr> rg_files := fs \<rparr>,
             ol\<lparr> ol_store := Some st,
                 ol_events := ol_events ol @ (case b of None \<Rightarrow> [] | Some b \<Rightarrow> [b]) \<rparr>)))"

definition dispatch_receipt ::
  "'v inbound_env \<Rightarrow> transit_envelope \<Rightarrow> bytes \<Rightarrow> string \<Rightarrow> 'v reg \<times> outbox_link
     \<Rightarrow> (chat_error + inbound_dispatch) \<times> 'v reg \<times> outbox_link" where
  "dispatch_receipt R env group_id group_id_hex so =
     (let (s, ol) = so in
      case open_frame R env group_id group_id_hex s of
        (Inl r, s) \<Rightarrow> (r, s, ol)
      | (Inr plaintext, s) \<Rightarrow>
      case i_receipt_from_slice R plaintext of
        Inl e \<Rightarrow> (Inl (Invalid (''receipt payload parse: '' @ e)), s, ol)
      | Inr payload \<Rightarrow>
          let (_, s) = record_delivery R group_id_hex (r_message_id payload) (r_received_at_ms payload) s;
              (s, ol) = mark_outbox R (r_message_id payload) (r_received_at_ms payload) (s, ol)
          in (Inr (Receipt group_id_hex (sender_hex R env) (r_message_id payload) (r_received_at_ms payload)), s, ol))"

text \<open>The attachment is validated and stripped when it is bad.\<close>

definition strip_attachment :: "(string \<Rightarrow> string + bytes) \<Rightarrow> message_payload \<Rightarrow> message_payload" where
  "strip_attachment b64 payload =
     (case m_attachment payload of None \<Rightarrow> payload | Some att \<Rightarrow>
      case validate (\<lambda>t. case b64 t of Inl _ \<Rightarrow> None | Inr bs \<Rightarrow> Some bs) att of
        Inr _ \<Rightarrow> payload
      | Inl _ \<Rightarrow> payload\<lparr> m_attachment := None \<rparr>)"

definition inbound_entry :: "string \<Rightarrow> message_payload \<Rightarrow> history_entry" where
  "inbound_entry sender payload =
     \<lparr> h_sender_agent_id_hex = sender, h_sender_name = m_sender_name payload, h_body = m_body payload,
       h_ts_ms = m_ts_ms payload,
       h_message_id = (case m_message_id payload of Some i \<Rightarrow> i | None \<Rightarrow> []),
       h_attachment = m_attachment payload, h_delivered_at_ms = None, h_send_state = None,
       h_state_changed_at_ms = 0 \<rparr>"

definition dispatch_message ::
  "'v inbound_env \<Rightarrow> transit_envelope \<Rightarrow> bytes \<Rightarrow> string \<Rightarrow> 'v reg \<Rightarrow> (chat_error + inbound_dispatch) \<times> 'v reg" where
  "dispatch_message R env group_id group_id_hex s =
     (case open_frame R env group_id group_id_hex s of
        (Inl r, s) \<Rightarrow> (r, s)
      | (Inr plaintext, s) \<Rightarrow>
      case i_message_from_slice R plaintext of
        Inl e \<Rightarrow> (Inl (Invalid (''message payload parse: '' @ e)), s)
      | Inr payload \<Rightarrow>
          let payload = strip_attachment (k_b64 R) payload;
              s = (case (m_advertised_relays payload, m_hint_epoch_ms payload) of
                     (Some relays, Some epoch) \<Rightarrow> snd (apply_relay_hint R (sender_hex R env) relays epoch s)
                   | _ \<Rightarrow> s);
              (_, s) = mutate_in_place R group_id_hex (pure_mutation (\<lambda>conv.
                         (Persist (), push_history (inbound_entry (sender_hex R env) payload) conv))) s
          in (Inr (Message group_id_hex (sender_hex R env) payload), s))"

subsection \<open>Welcomes\<close>

record welcome_verified =
  wv_payload :: welcome_payload
  wv_sender_agent_hex :: string
  wv_sender_pk_b64 :: string
  wv_sender_kem_pub_b64 :: string

definition decrypt_and_verify_welcome ::
  "'v inbound_env \<Rightarrow> transit_envelope \<Rightarrow> bytes \<Rightarrow> chat_error + inbound_dispatch + welcome_verified" where
  "decrypt_and_verify_welcome R env group_id =
     (let sender = sender_hex R env in
      case i_kem_decapsulate R (e_kem_ciphertext env) of
        Inl _ \<Rightarrow> Inr (Inl KemDecapFailed)
      | Inr ss \<Rightarrow>
      if length (e_nonce env) \<noteq> aead_nonce_len then Inl (Invalid ''nonce length'')
      else case aead_open (k_cipher R) (i_derive_aead_key R ss kdf_info_welcome) (e_nonce env)
                  (e_ciphertext env) (message_aad group_id (e_epoch env)) of
        Inl _ \<Rightarrow> Inr (Inl (AeadOpenFailed (i_hex R group_id) (e_epoch env)))
      | Inr plaintext \<Rightarrow>
      case i_welcome_from_slice R plaintext of
        Inl e \<Rightarrow> Inl (Invalid (''welcome payload parse: '' @ e))
      | Inr payload \<Rightarrow>
      if w_epoch payload \<noteq> e_epoch env then Inr (Inl (Dropped ''welcome-epoch-mismatch'' sender))
      else if (case k_b64 R (w_current_key_b64 payload) of Inl _ \<Rightarrow> True | Inr k \<Rightarrow> length k \<noteq> aead_key_len)
      then Inr (Inl (Dropped ''welcome-invalid-key-length'' sender))
      else case find (\<lambda>d. md_agent_id_hex d = sender) (concat (map mb_devices (w_members payload))) of
        None \<Rightarrow> Inr (Inl (Dropped ''welcome-sender-not-member'' sender))
      | Some sender_device \<Rightarrow>
      case md_agent_public_key_b64 sender_device of
        None \<Rightarrow> Inr (Inl (Dropped ''welcome-missing-sender-pubkey'' sender))
      | Some sender_pk_b64 \<Rightarrow>
      case k_b64 R sender_pk_b64 of
        Inl e \<Rightarrow> Inl (Invalid (''welcome sender pk b64: '' @ e))
      | Inr sender_pk \<Rightarrow>
      if derive_agent_id (i_sha256 R) sender_pk \<noteq> e_sender_agent_id env
      then Inr (Inl (Dropped ''welcome-pubkey-agent-mismatch'' sender))
      else case canonical_envelope_bytes R env of
        Inl e \<Rightarrow> Inl e
      | Inr canonical \<Rightarrow>
      if \<not> i_ml_dsa_verify R sender_pk (framed_envelope canonical) (e_sender_signature env)
      then Inr (Inl (Dropped ''bad-signature'' sender))
      else Inr (Inr \<lparr> wv_payload = payload, wv_sender_agent_hex = sender, wv_sender_pk_b64 = sender_pk_b64,
                      wv_sender_kem_pub_b64 = md_kem_public_key_b64 sender_device \<rparr>))"

datatype rekey_resolution = Ignored | NotMember | RekeyTo conversation

text \<open>The closure of the re-key, which runs under the lock of the registry.\<close>

definition rekey_closure ::
  "('v \<Rightarrow> nat \<times> 'v) \<Rightarrow> nat \<Rightarrow> string \<Rightarrow> welcome_payload \<Rightarrow> conversation \<Rightarrow> 'v
     \<Rightarrow> (rekey_resolution mutate_action \<times> conversation) \<times> 'v" where
  "rekey_closure clock env_epoch sender payload conv v =
     (if env_epoch \<le> c_current_epoch conv then ((Skip Ignored, conv), v)
      else if \<not> list_ex (\<lambda>d. md_agent_id_hex d = sender) (conv_devices conv) then ((Skip NotMember, conv), v)
      else
        let (now, v) = clock v;
            conv = (archive_key now conv)
                     \<lparr> c_current_epoch := w_epoch payload, c_current_key_b64 := w_current_key_b64 payload,
                       c_members := w_members payload, c_name := w_name payload, c_last_rekey_at_ms := now \<rparr>;
            (now', v) = clock v;
            conv = sweep_prior_keys now' conv
        in ((Persist (RekeyTo conv), conv), v))"

definition install_or_rekey_conversation ::
  "'v inbound_env \<Rightarrow> transit_envelope \<Rightarrow> welcome_payload \<Rightarrow> string \<Rightarrow> string \<Rightarrow> trust_state \<Rightarrow> 'v reg
     \<Rightarrow> (chat_error + inbound_dispatch) \<times> 'v reg" where
  "install_or_rekey_conversation R env payload sender group_id_hex trust s =
     (case rg_get R group_id_hex s of
        (Inl e, s) \<Rightarrow> (Inl e, s)
      | (Inr None, s) \<Rightarrow>
          (let (now, s) = draw_now R s; conv = from_welcome now payload trust in
           case save_conv R conv s of
             (Inl e, s) \<Rightarrow> (Inl e, s)
           | (Inr _, s) \<Rightarrow> (Inr (if trust = TrustPending then WelcomedPending conv else Welcomed conv), s))
      | (Inr (Some _), s) \<Rightarrow>
          (case mutate_in_place R group_id_hex (rekey_closure (k_clock R) (e_epoch env) sender payload) s of
             (Inl e, s) \<Rightarrow> (Inl e, s)
           | (Inr Ignored, s) \<Rightarrow> (Inr WelcomeIgnored, s)
           | (Inr NotMember, s) \<Rightarrow> (Inr (Dropped ''rekey-from-non-member'' sender), s)
           | (Inr (RekeyTo conv), s) \<Rightarrow> (Inr (Rekeyed conv), s)))"

definition dispatch_welcome ::
  "'v inbound_env \<Rightarrow> transit_envelope \<Rightarrow> bytes \<Rightarrow> string \<Rightarrow> 'v reg \<Rightarrow> (chat_error + inbound_dispatch) \<times> 'v reg" where
  "dispatch_welcome R env group_id group_id_hex s =
     (case decrypt_and_verify_welcome R env group_id of
        Inl e \<Rightarrow> (Inl e, s)
      | Inr (Inl d) \<Rightarrow> (Inr d, s)
      | Inr (Inr verified) \<Rightarrow>
      let prior_card_exists = (rg_files s (card_path R (wv_sender_agent_hex verified)) \<noteq> None);
          trust = (if prior_card_exists then Confirmed else TrustPending)
      in case install_or_rekey_conversation R env (wv_payload verified) (wv_sender_agent_hex verified)
                group_id_hex trust s of
           (Inl e, s) \<Rightarrow> (Inl e, s)
         | (Inr (WelcomedPending conv), s) \<Rightarrow>
             if prior_card_exists then (Inr (WelcomedPending conv), s)
             else (case write_card R \<lparr> sc_agent_id_hex = wv_sender_agent_hex verified, sc_display_name = [],
                           sc_kem_public_key_b64 = wv_sender_kem_pub_b64 verified,
                           sc_agent_public_key_b64 = Some (wv_sender_pk_b64 verified),
                           sc_rendezvous_hints = None, sc_last_hint_epoch_ms = None, sc_user_id_hex = None \<rparr> s of
                     (Inl e, s) \<Rightarrow> (Inl e, s)
                   | (Inr _, s) \<Rightarrow> (Inr (WelcomedPending conv), s))
         | (Inr d, s) \<Rightarrow> (Inr d, s))"

subsection \<open>The dispatcher\<close>

definition dispatch_inbound_with_outbox ::
  "'v inbound_env \<Rightarrow> transit_envelope \<Rightarrow> 'v reg \<times> outbox_link
     \<Rightarrow> (chat_error + inbound_dispatch) \<times> 'v reg \<times> outbox_link" where
  "dispatch_inbound_with_outbox R env so =
     (case e_group_id env of
        None \<Rightarrow> (Inl (Invalid ''envelope has no group_id''), so)
      | Some group_id \<Rightarrow>
      let group_id_hex = i_hex R group_id; (s, ol) = so in
      if e_kind env = DeliveryReceipt then
        (case verify_sender R env s of
           (Inl e, s) \<Rightarrow> (Inl e, s, ol)
         | (Inr (Some d), s) \<Rightarrow> (Inr d, s, ol)
         | (Inr None, s) \<Rightarrow> dispatch_receipt R env group_id group_id_hex (s, ol))
      else if e_kem_ciphertext env = [] then
        (case verify_sender R env s of
           (Inl e, s) \<Rightarrow> (Inl e, s, ol)
         | (Inr (Some d), s) \<Rightarrow> (Inr d, s, ol)
         | (Inr None, s) \<Rightarrow>
             (let (r, s) = dispatch_message R env group_id group_id_hex s in (r, s, ol)))
      else (let (r, s) = dispatch_welcome R env group_id group_id_hex s in (r, s, ol)))"

definition dispatch_inbound ::
  "'v inbound_env \<Rightarrow> transit_envelope \<Rightarrow> 'v reg \<Rightarrow> (chat_error + inbound_dispatch) \<times> 'v reg" where
  "dispatch_inbound R env s =
     (let (r, s, _) = dispatch_inbound_with_outbox R env (s, \<lparr> ol_store = None, ol_events = [] \<rparr>) in (r, s))"

end
