(* ===== verification/Conversation_Laws.thy ===== *)
theory Conversation_Laws
  imports Inbound
begin

text \<open>
  What the operations of the registry do to the cached conversations: each keeps every entry but
  the one it works on, and an operation that fails to write its file leaves the entry as it was.
  The locales \<open>frame_inv\<close> and \<open>conv_inv\<close> are the contract between these operations and a predicate on one
  conversation that survives them.
\<close>

subsection \<open>The cache under each operation\<close>

named_theorems cache_simps \<open>the cached conversations after an operation\<close>

lemma cache_draw [cache_simps]:
  "rg_by_group_id (snd (draw_os R s)) = rg_by_group_id s"
  "rg_by_group_id (snd (draw_now R s)) = rg_by_group_id s"
  by (simp_all add: draw_os_def draw_now_def split: prod.splits)

lemma files_draw [cache_simps]:
  "rg_files (snd (draw_os R s)) = rg_files s"
  "rg_files (snd (draw_now R s)) = rg_files s"
  by (simp_all add: draw_os_def draw_now_def split: prod.splits)

lemma refresh_fields [cache_simps]:
  "rg_by_group_id (refresh_pubkey_cache R c s) = rg_by_group_id s"
  "rg_files (refresh_pubkey_cache R c s) = rg_files s"
  "rg_world (refresh_pubkey_cache R c s) = rg_world s"
  by (simp_all add: refresh_pubkey_cache_def)

lemma cache_put_fields [cache_simps]:
  "rg_by_group_id (cache_put g c s) = hm_insert g c (rg_by_group_id s)"
  "rg_files (cache_put g c s) = rg_files s"
  "rg_world (cache_put g c s) = rg_world s"
  by (simp_all add: cache_put_def)

lemma open_conv_fields [cache_simps]:
  "rg_by_group_id (snd (open_conv R p s)) = rg_by_group_id s"
  "rg_files (snd (open_conv R p s)) = rg_files s"
  by (simp_all add: open_conv_def Let_def case_prod_beta cache_simps)

lemma persist_conv_cache [cache_simps]:
  "rg_by_group_id (snd (persist_conv R g c s)) = rg_by_group_id s"
  by (simp add: persist_conv_def Let_def case_prod_beta cache_simps split: sum.splits)

lemma write_card_cache [cache_simps]:
  "rg_by_group_id (snd (write_card R c s)) = rg_by_group_id s"
  by (simp add: write_card_def Let_def case_prod_beta cache_simps split: sum.splits)

lemma load_card_fields [cache_simps]:
  "rg_by_group_id (snd (load_card R a s)) = rg_by_group_id s"
  "rg_files (snd (load_card R a s)) = rg_files s"
  by (simp_all add: load_card_def Let_def case_prod_beta cache_simps)

lemma verify_sender_fields [cache_simps]:
  "rg_by_group_id (snd (verify_sender R env s)) = rg_by_group_id s"
  "rg_files (snd (verify_sender R env s)) = rg_files s"
  by (simp_all add: verify_sender_def Let_def case_prod_beta cache_simps)

lemma apply_relay_hint_cache [cache_simps]:
  "rg_by_group_id (snd (apply_relay_hint R a relays t s)) = rg_by_group_id s"
  using load_card_fields(1) [of R a s] write_card_cache [of R]
  by (auto simp: apply_relay_hint_def Let_def split: prod.splits sum.splits option.splits) (metis snd_conv)+

lemma mark_outbox_cache [cache_simps]:
  "rg_by_group_id (fst (mark_outbox R m t (s, ol))) = rg_by_group_id s"
  by (simp add: mark_outbox_def Let_def case_prod_beta cache_simps split: option.splits)

lemma hm_contains_iff: "hm_contains m k \<longleftrightarrow> hm_get m k \<noteq> None"
  by (simp add: hm_contains_def hm_get_def)

lemma hydrate_cache:
  assumes "hydrate R a g s = (r, s')"
  shows "(r = Inr () \<and> hm_get (rg_by_group_id s) g \<noteq> None \<and> s' = s)
    \<or> (\<exists>e. r = Inl e \<and> hm_get (rg_by_group_id s) g = None \<and> rg_by_group_id s' = rg_by_group_id s)
    \<or> (\<exists>c. r = Inr () \<and> hm_get (rg_by_group_id s) g = None
          \<and> rg_by_group_id s' = hm_insert g c (rg_by_group_id s))"
proof (cases "hm_get (rg_by_group_id s) g")
  case (Some c)
  then show ?thesis using assms by (simp add: hydrate_def hm_contains_iff)
next
  case None
  obtain ro so where o: "open_conv R (conv_path R g) s = (ro, so)" by (rule prod.exhaust)
  then have "rg_by_group_id so = rg_by_group_id s" using open_conv_fields(1) [of R "conv_path R g" s] by simp
  then show ?thesis using assms None o
    by (auto simp: hydrate_def hm_contains_iff cache_simps split: if_splits sum.splits)
qed

lemma hydrate_keeps:
  "hydrate R a g s = (r, s') \<Longrightarrow> hm_get (rg_by_group_id s) h = Some c \<Longrightarrow> hm_get (rg_by_group_id s') h = Some c"
  by (auto dest!: hydrate_cache simp: hm_simps)

lemma rg_get_keeps:
  assumes "rg_get R g s = (r, s')" and "hm_get (rg_by_group_id s) h = Some c"
  shows "hm_get (rg_by_group_id s') h = Some c"
proof (cases "hm_get (rg_by_group_id s) g")
  case (Some d)
  then show ?thesis using assms by (simp add: rg_get_def get_begin_def get_finish_def)
next
  case None
  then have "h \<noteq> g" using assms(2) by auto
  obtain ro so where o: "open_conv R (conv_path R g) s = (ro, so)" by (rule prod.exhaust)
  then have "rg_by_group_id so = rg_by_group_id s" using open_conv_fields(1) [of R "conv_path R g" s] by simp
  then show ?thesis using assms None o \<open>h \<noteq> g\<close>
    by (auto simp: rg_get_def get_begin_def get_finish_def cache_simps hm_simps split: if_splits sum.splits)
qed

lemma rg_get_cached:
  "hm_get (rg_by_group_id s) g = Some c \<Longrightarrow> rg_get R g s = (Inr (Some c), s)"
  by (simp add: rg_get_def get_begin_def get_finish_def)

lemma rg_get_Some:
  assumes "rg_get R g s = (Inr (Some c), s')"
  shows "hm_get (rg_by_group_id s') g = Some c"
proof (cases "hm_get (rg_by_group_id s) g")
  case (Some d)
  then show ?thesis using assms by (simp add: rg_get_cached)
next
  case None
  obtain ro so where o: "open_conv R (conv_path R g) s = (ro, so)" by (rule prod.exhaust)
  then show ?thesis using assms None
    by (auto simp: rg_get_def get_begin_def get_finish_def cache_simps hm_simps split: if_splits sum.splits)
qed

lemma rg_get_None:
  assumes "rg_get R g s = (Inr None, s')"
  shows "hm_get (rg_by_group_id s) g = None \<and> s' = s"
proof (cases "hm_get (rg_by_group_id s) g")
  case (Some d)
  then show ?thesis using assms by (simp add: rg_get_cached)
next
  case None
  obtain ro so where o: "open_conv R (conv_path R g) s = (ro, so)" by (rule prod.exhaust)
  then show ?thesis using assms None
    by (auto simp: rg_get_def get_begin_def get_finish_def split: if_splits sum.splits)
qed

subsection \<open>A predicate that survives the operations\<close>

lemma mutate_holds:
  assumes "mutate_in_place R g f s = (r, s')" and "hm_get (rg_by_group_id s) h = Some c" and "A c"
    and f: "\<And>c v. A c \<Longrightarrow> A (snd (fst (f c v)))"
  shows "\<exists>c'. hm_get (rg_by_group_id s') h = Some c' \<and> A c'"
proof -
  obtain rh sh where hy: "hydrate R (Inl (Invalid (''mutate_in_place: no conversation for group_id '' @ g))) g s = (rh, sh)"
    by (rule prod.exhaust)
  have kh: "hm_get (rg_by_group_id sh) h = Some c" by (rule hydrate_keeps [OF hy assms(2)])
  show ?thesis
  proof (cases "\<exists>d. rh = Inr () \<and> hm_get (rg_by_group_id sh) g = Some d")
    case False
    then have "s' = sh" using assms(1) hy
      by (cases rh) (auto simp: mutate_in_place_def mutate_in_place_impl_def split: option.splits)
    then show ?thesis using kh assms(3) by auto
  next
    case True
    then obtain d where d: "rh = Inr ()" "hm_get (rg_by_group_id sh) g = Some d" by blast
    obtain act d' v where m: "f d (rg_world sh) = ((act, d'), v)" by (metis surj_pair)
    let ?s = "sh\<lparr> rg_world := v \<rparr>"
    obtain rp sp where p: "persist_conv R g d' ?s = (rp, sp)" by (rule prod.exhaust)
    have cp: "rg_by_group_id sp = rg_by_group_id sh" using persist_conv_cache [of R g d' ?s] p by simp
    have "A d'" if "h = g" using f [of d "rg_world sh"] m that d(2) kh assms(3) by simp
    then show ?thesis using assms(1,3) hy d m p cp kh
      by (cases act; cases rp)
        (auto simp: mutate_in_place_def mutate_in_place_impl_def Let_def cache_simps hm_simps)
  qed
qed

lemma record_nonce_holds:
  assumes "record_nonce R g a n s = (r, s')" and "hm_get (rg_by_group_id s) h = Some c" and "A c"
    and AB: "\<And>c. A c \<Longrightarrow> B c" and f: "\<And>c. A c \<Longrightarrow> B (snd (check_and_record_nonce a n c))"
  shows "\<exists>c'. hm_get (rg_by_group_id s') h = Some c' \<and> B c'"
proof -
  obtain rh sh where hy: "hydrate R (Inl (Invalid (''record_nonce: no conversation for group_id '' @ g))) g s = (rh, sh)"
    by (rule prod.exhaust)
  have kh: "hm_get (rg_by_group_id sh) h = Some c" by (rule hydrate_keeps [OF hy assms(2)])
  show ?thesis
  proof (cases "\<exists>d. rh = Inr () \<and> hm_get (rg_by_group_id sh) g = Some d")
    case False
    then have "s' = sh" using assms(1) hy
      by (cases rh) (auto simp: record_nonce_def split: option.splits)
    then show ?thesis using kh AB [OF assms(3)] by auto
  next
    case True
    then obtain d where d: "rh = Inr ()" "hm_get (rg_by_group_id sh) g = Some d" by blast
    obtain rep d' where m: "check_and_record_nonce a n d = (rep, d')" by (rule prod.exhaust)
    obtain rp sp where p: "persist_conv R g d' sh = (rp, sp)" by (rule prod.exhaust)
    have cp: "rg_by_group_id sp = rg_by_group_id sh" using persist_conv_cache [of R g d' sh] p by simp
    have "B d'" if "h = g" using f [of d] m that d(2) kh assms(3) by simp
    then show ?thesis using assms(1) AB [OF assms(3)] hy d m p cp kh
      by (cases rep; cases rp) (auto simp: record_nonce_def Let_def cache_simps hm_simps)
  qed
qed

lemma record_delivery_holds:
  assumes "record_delivery R g m t s = (r, s')" and "hm_get (rg_by_group_id s) h = Some c" and "A c"
    and f: "\<And>c. A c \<Longrightarrow> A (snd (apply_delivery_receipt m t c))"
  shows "\<exists>c'. hm_get (rg_by_group_id s') h = Some c' \<and> A c'"
proof -
  obtain rh sh where hy: "hydrate R (Inl (Invalid (''record_delivery: no conversation for group_id '' @ g))) g s = (rh, sh)"
    by (rule prod.exhaust)
  have kh: "hm_get (rg_by_group_id sh) h = Some c" by (rule hydrate_keeps [OF hy assms(2)])
  show ?thesis
  proof (cases "\<exists>d. rh = Inr () \<and> hm_get (rg_by_group_id sh) g = Some d")
    case False
    then have "s' = sh" using assms(1) hy
      by (cases rh) (auto simp: record_delivery_def split: option.splits)
    then show ?thesis using kh assms(3) by auto
  next
    case True
    then obtain d where d: "rh = Inr ()" "hm_get (rg_by_group_id sh) g = Some d" by blast
    obtain mk d' where ap: "apply_delivery_receipt m t d = (mk, d')" by (rule prod.exhaust)
    obtain rp sp where p: "persist_conv R g d' sh = (rp, sp)" by (rule prod.exhaust)
    have cp: "rg_by_group_id sp = rg_by_group_id sh" using persist_conv_cache [of R g d' sh] p by simp
    have "A d'" if "h = g" using f [of d] ap that d(2) kh assms(3) by simp
    then show ?thesis using assms(1,3) hy d ap p cp kh
      by (cases mk; cases rp) (auto simp: record_delivery_def Let_def cache_simps hm_simps)
  qed
qed

definition cached_sat :: "(conversation \<Rightarrow> bool) \<Rightarrow> string \<Rightarrow> 'v reg \<Rightarrow> bool" where
  "cached_sat A h s \<longleftrightarrow> (\<exists>c. hm_get (rg_by_group_id s) h = Some c \<and> A c)"

lemma cached_sat_cong: "rg_by_group_id s' = rg_by_group_id s \<Longrightarrow> cached_sat A h s' = cached_sat A h s"
  by (simp add: cached_sat_def)

lemma cached_satI: "\<exists>c. hm_get (rg_by_group_id s) h = Some c \<and> A c \<Longrightarrow> cached_sat A h s"
  by (simp add: cached_sat_def)

lemma cached_satE:
  assumes "cached_sat A h s"
  obtains c where "hm_get (rg_by_group_id s) h = Some c" and "A c"
  using assms by (auto simp: cached_sat_def)

text \<open>
  \<open>P\<close> holds of a conversation before a frame is dispatched, \<open>Q\<close> after it: the nonce check may
  weaken \<open>P\<close> to \<open>Q\<close>, everything else a frame does keeps \<open>Q\<close>.
\<close>

locale frame_inv =
  fixes P Q :: "conversation \<Rightarrow> bool"
  assumes weaken: "P c \<Longrightarrow> Q c"
    and nonce_law: "P c \<Longrightarrow> Q (snd (check_and_record_nonce a n c))"
    and wedge_law: "Q c \<Longrightarrow> Q (c\<lparr> c_wedge_last_progress_ms := t, c_wedge_last_inbound_ms := u,
                                   c_wedge_progress_epoch := e, c_wedge_max_stale_epoch := m \<rparr>)"
begin

lemma wedge_progress_law:
  "Q c \<Longrightarrow> Q (c\<lparr> c_wedge_last_progress_ms := t, c_wedge_last_inbound_ms := t, c_wedge_progress_epoch := e \<rparr>)"
  using wedge_law [where c = c and t = t and u = t and e = e and m = "c_wedge_max_stale_epoch c"] by simp

lemma wedge_inbound_law:
  "Q c \<Longrightarrow> Q (c\<lparr> c_wedge_last_inbound_ms := t, c_wedge_max_stale_epoch := m \<rparr>)"
  using wedge_law [where c = c and t = "c_wedge_last_progress_ms c" and u = t and e = "c_wedge_progress_epoch c" and m = m] by simp

lemma note_progress_holds: "cached_sat Q h s \<Longrightarrow> cached_sat Q h (note_wedge_progress R g s)"
proof -
  assume "cached_sat Q h s"
  then obtain c where c: "hm_get (rg_by_group_id s) h = Some c" "Q c" by (rule cached_satE)
  obtain t s1 where d: "draw_now R s = (t, s1)" by (rule prod.exhaust)
  then have c1: "rg_by_group_id s1 = rg_by_group_id s" using cache_draw(2) [of R s] by simp
  let ?f = "pure_mutation (\<lambda>conv. (Persist (), conv\<lparr> c_wedge_last_progress_ms := t,
              c_wedge_last_inbound_ms := t, c_wedge_progress_epoch := c_current_epoch conv \<rparr>))"
  obtain r s' where m: "mutate_in_place R g ?f s1 = (r, s')" by (rule prod.exhaust)
  have f: "Q (snd (fst (?f d v)))" if "Q d" for d v
    using wedge_progress_law [OF that] by (simp add: pure_mutation_def)
  have "hm_get (rg_by_group_id s1) h = Some c" using c(1) c1 by simp
  from mutate_holds [where A = Q, OF m this c(2) f] have "cached_sat Q h s'" by (rule cached_satI)
  then show ?thesis unfolding note_wedge_progress_def d Let_def prod.case m snd_conv .
qed

lemma note_inbound_holds: "cached_sat Q h s \<Longrightarrow> cached_sat Q h (note_wedge_inbound R g e s)"
proof -
  assume "cached_sat Q h s"
  then obtain c where c: "hm_get (rg_by_group_id s) h = Some c" "Q c" by (rule cached_satE)
  obtain t s1 where d: "draw_now R s = (t, s1)" by (rule prod.exhaust)
  then have c1: "rg_by_group_id s1 = rg_by_group_id s" using cache_draw(2) [of R s] by simp
  let ?f = "pure_mutation (\<lambda>conv. (Persist (), conv\<lparr> c_wedge_last_inbound_ms := t,
              c_wedge_max_stale_epoch := (case e of
                     Some e \<Rightarrow> if e > c_current_epoch conv then max (c_wedge_max_stale_epoch conv) e
                               else c_wedge_max_stale_epoch conv
                   | None \<Rightarrow> c_wedge_max_stale_epoch conv) \<rparr>))"
  obtain r s' where m: "mutate_in_place R g ?f s1 = (r, s')" by (rule prod.exhaust)
  have f: "Q (snd (fst (?f d v)))" if "Q d" for d v
    using wedge_inbound_law [OF that] by (simp add: pure_mutation_def)
  have "hm_get (rg_by_group_id s1) h = Some c" using c(1) c1 by simp
  from mutate_holds [where A = Q, OF m this c(2) f] have "cached_sat Q h s'" by (rule cached_satI)
  then show ?thesis unfolding note_wedge_inbound_def d Let_def prod.case m snd_conv .
qed

end

text \<open>A message also extends the history, a receipt marks an entry of it.\<close>

locale conv_inv = frame_inv +
  assumes history_law: "Q c \<Longrightarrow> Q (c\<lparr> c_history := hs \<rparr>)"
begin

lemma deliver_law: "Q c \<Longrightarrow> Q (snd (apply_delivery_receipt m t c))"
  by (simp add: apply_delivery_receipt_def case_prod_beta history_law)

lemma push_law: "Q c \<Longrightarrow> Q (push_history e c)"
  by (simp add: push_history_def history_law)

end

end
