(* ===== verification/Inbound_Properties.thy ===== *)
theory Inbound_Properties
  imports Conversation_Laws
begin

text \<open>
  What the inbound path guarantees and what it does not: who a surfaced message comes from, when
  it can be surfaced again, and what may change the key of a conversation.
\<close>

subsection \<open>Paths of conversations\<close>

lemma split_path_append:
  "CHR ''/'' \<notin> set t \<Longrightarrow> split_path (s @ t) = butlast (split_path s) @ [last (split_path s) @ t]"
proof (induction s)
  case Nil
  then show ?case by (induction t) auto
next
  case (Cons x s)
  have "split_path s \<noteq> []" by (induction s) (auto split: list.splits)
  then show ?case using Cons by (auto split: list.splits)
qed

text \<open>Whatever the id, the file of a conversation ends in \<^verbatim>\<open>.json.enc\<close>.\<close>

lemma resolve_path_snoc: "n \<noteq> ''..'' \<Longrightarrow> resolve_path (p @ [n]) = resolve_path p @ [n]"
  by (simp add: resolve_path_def)

lemma conversation_path_last: "\<exists>p n. conversation_path L g = p @ [n @ ''.json.enc'']"
proof -
  let ?n = "last (split_path g)"
  have "split_path (g @ ''.json.enc'') = butlast (split_path g) @ [?n @ ''.json.enc'']"
    by (rule split_path_append) simp
  then have "\<exists>p. path_join d (g @ ''.json.enc'') = p @ [?n @ ''.json.enc'']" for d
    by (auto simp: path_join_def Let_def)
  then obtain p where "path_join (l_conversations_dir L) (g @ ''.json.enc'') = p @ [?n @ ''.json.enc'']" by blast
  moreover have "?n @ ''.json.enc'' \<noteq> ''..''" by (cases ?n) auto
  ultimately show ?thesis by (auto simp: conversation_path_def resolve_path_snoc)
qed

lemma conv_path_nonempty: "conv_path R g \<noteq> []"
  using conversation_path_last [of "k_layout R" g] by (auto simp: conv_path_def)

lemma persist_conv_err:
  assumes "persist_conv R g c s = (Inl e, s')"
  shows "rg_files s' (conv_path R g) = rg_files s (conv_path R g)"
proof (cases "k_conv_to_vec R c")
  case (Inl x)
  then show ?thesis using assms by (simp add: persist_conv_def)
next
  case (Inr bs)
  obtain E s1 where d: "draw_os R s = (E, s1)" by (rule prod.exhaust)
  then have f: "rg_files s1 = rg_files s" using files_draw(1) [of R s] by simp
  obtain r fs where w: "seal_to_path (k_cipher R) E (conv_path R g) bs (k_master R) (k_kdf_id R)
      (k_argon_salt R) (rg_files s1) = (r, fs)" by (rule prod.exhaust)
  have s': "s' = s1\<lparr> rg_files := fs \<rparr>" "r = Inl e" using assms Inr d w by (auto simp: persist_conv_def)
  show ?thesis
  proof (cases "aead_seal (k_cipher R) (k_master R) (rng_nonce E) bs vault_aad")
    case (Inl x)
    then show ?thesis using w s' f by (auto simp: seal_to_path_def)
  next
    case (Inr ct)
    then have "write_bytes_atomic E (conv_path R g) (vault_bytes (k_kdf_id R) (k_argon_salt R) (rng_nonce E) ct)
        (rg_files s1) = (Inl e, fs)" using w s' by (simp add: seal_to_path_def)
    from write_bytes_atomic_err [OF this, of "conv_path R g"] tmp_path_neq [OF conv_path_nonempty, of E R g]
    show ?thesis using s' f by auto
  qed
qed

text \<open>A write that fails leaves the cache and the file as they were.\<close>

lemma mutate_fails:
  assumes "hm_get (rg_by_group_id s) g = Some c"
    and "mutate_in_place R g (pure_mutation (\<lambda>c. (Persist v, f c))) s = (Inl e, s')"
  shows "rg_by_group_id s' = rg_by_group_id s \<and> rg_files s' (conv_path R g) = rg_files s (conv_path R g)"
proof -
  obtain r s1 where p: "persist_conv R g (f c) s = (r, s1)" by (rule prod.exhaust)
  then have "r = Inl e" "s' = s1"
    using assms by (auto simp: mutate_in_place_def mutate_in_place_impl_def hydrate_def hm_contains_iff
        pure_mutation_def split: sum.splits)
  then show ?thesis using p persist_conv_err [of R g "f c" s e s1] persist_conv_cache [of R g "f c" s] by auto
qed

subsection \<open>The steps of a frame\<close>

text \<open>The states a frame can end in, up to the decryption.\<close>

lemma open_frame_states:
  assumes "rg_get R g s = (r1, s1)" and "draw_now R s1 = (now, s2)"
    and "record_nonce R g (sender_hex R env) (e_nonce env) s2 = (r3, s3)"
  shows "snd (open_frame R env gid g s) \<in>
    {s1, s2, note_wedge_inbound R g (Some (e_epoch env)) s2, s3,
     note_wedge_inbound R g (Some (e_epoch env)) s3, note_wedge_progress R g s3}"
proof (cases "\<exists>conv. r1 = Inr (Some conv)")
  case False
  then have "snd (open_frame R env gid g s) = s1"
    using assms(1) by (auto simp: open_frame_def split: sum.splits option.splits)
  then show ?thesis by simp
next
  case True
  then obtain conv where c: "r1 = Inr (Some conv)" by blast
  show ?thesis
    using assms c unfolding open_frame_def Let_def
    by (simp split: sum.split option.split nonce_check_outcome.split)
qed

lemma open_frame_Inr:
  assumes "open_frame R env gid g s = (Inr pt, s')"
  obtains conv s1 now s2 key s3 where "rg_get R g s = (Inr (Some conv), s1)"
    and "draw_now R s1 = (now, s2)"
    and "key_for_epoch (k_b64 R) now (e_epoch env) conv = Inr (Some key)"
    and "record_nonce R g (sender_hex R env) (e_nonce env) s2 = (Inr Recorded, s3)"
    and "aead_open (k_cipher R) key (e_nonce env) (e_ciphertext env) (message_aad gid (e_epoch env)) = Inr pt"
    and "s' = note_wedge_progress R g s3"
proof -
  obtain r1 s1 where g: "rg_get R g s = (r1, s1)" by (rule prod.exhaust)
  then obtain conv where c: "r1 = Inr (Some conv)"
    using assms by (cases r1) (auto simp: open_frame_def split: option.splits)
  obtain now s2 where n: "draw_now R s1 = (now, s2)" by (rule prod.exhaust)
  obtain key where k: "key_for_epoch (k_b64 R) now (e_epoch env) conv = Inr (Some key)"
    using assms g c n by (auto simp: open_frame_def split: sum.splits option.splits)
  obtain r3 s3 where r: "record_nonce R g (sender_hex R env) (e_nonce env) s2 = (r3, s3)" by (rule prod.exhaust)
  have "r3 = Inr Recorded"
    using assms g c n k r
    by (cases r3) (auto simp: open_frame_def split: if_splits sum.splits nonce_check_outcome.splits)
  with assms g c n k r have "aead_open (k_cipher R) key (e_nonce env) (e_ciphertext env) (message_aad gid (e_epoch env)) = Inr pt"
    and "s' = note_wedge_progress R g s3"
    by (auto simp: open_frame_def split: if_splits sum.splits)
  with that g c n k r \<open>r3 = Inr Recorded\<close> show thesis by blast
qed

text \<open>A nonce the cached conversation holds for the sender ends the frame before decryption.\<close>

definition window_of :: "string \<Rightarrow> conversation \<Rightarrow> bytes list" where
  "window_of a conv = (case hm_get (c_seen_nonces conv) a of Some w \<Rightarrow> w | None \<Rightarrow> [])"

lemma check_nonce_eq:
  "check_and_record_nonce a n c =
     (if n \<in> set (window_of a c) then (True, c)
      else (False, c\<lparr> c_seen_nonces := hm_insert a
              ((if length (window_of a c) \<ge> nonce_window then tl (window_of a c) else window_of a c) @ [n])
              (c_seen_nonces c) \<rparr>))"
  by (simp add: check_and_record_nonce_def window_of_def Let_def)

lemma record_nonce_seen:
  assumes "hm_get (rg_by_group_id s) g = Some c" and "n \<in> set (window_of a c)"
  shows "record_nonce R g a n s = (Inr Replay, s)"
  using assms by (simp add: record_nonce_def hydrate_def hm_contains_iff check_nonce_eq)

lemma record_nonce_Recorded:
  assumes "record_nonce R g a n s = (Inr Recorded, s')"
  obtains c where "n \<notin> set (window_of a c)"
    and "hm_get (rg_by_group_id s') g = Some (snd (check_and_record_nonce a n c))"
    and "hm_get (rg_by_group_id s) g = None \<or> hm_get (rg_by_group_id s) g = Some c"
proof -
  obtain rh sh where hy: "hydrate R (Inl (Invalid (''record_nonce: no conversation for group_id '' @ g))) g s = (rh, sh)"
    by (rule prod.exhaust)
  obtain c where c: "rh = Inr ()" "hm_get (rg_by_group_id sh) g = Some c"
    using assms hy by (cases rh) (auto simp: record_nonce_def split: option.splits)
  have old: "hm_get (rg_by_group_id s) g = None \<or> hm_get (rg_by_group_id s) g = Some c"
    using hydrate_keeps [OF hy] c(2) by (cases "hm_get (rg_by_group_id s) g") auto
  obtain rep c' where m: "check_and_record_nonce a n c = (rep, c')" by (rule prod.exhaust)
  obtain rp sp where p: "persist_conv R g c' sh = (rp, sp)" by (rule prod.exhaust)
  have "\<not> rep" "s' = cache_put g c' sp"
    using assms hy c m p by (auto simp: record_nonce_def split: if_splits sum.splits)
  then show thesis using that [of c] old m by (auto simp: check_nonce_eq cache_simps hm_simps split: if_splits)
qed

subsection \<open>A predicate through a whole dispatch\<close>

definition is_welcome :: "transit_envelope \<Rightarrow> bool" where
  "is_welcome env \<longleftrightarrow> e_kind env \<noteq> DeliveryReceipt \<and> e_kem_ciphertext env \<noteq> []"

context frame_inv
begin

lemma open_frame_holds:
  assumes "cached_sat P h s"
  shows "cached_sat Q h (snd (open_frame R env gid g s))"
proof -
  obtain c where c: "hm_get (rg_by_group_id s) h = Some c" "P c" using assms by (rule cached_satE)
  obtain r1 s1 where g: "rg_get R g s = (r1, s1)" by (rule prod.exhaust)
  obtain now s2 where n: "draw_now R s1 = (now, s2)" by (rule prod.exhaust)
  obtain r3 s3 where r: "record_nonce R g (sender_hex R env) (e_nonce env) s2 = (r3, s3)" by (rule prod.exhaust)
  have c1: "hm_get (rg_by_group_id s1) h = Some c" by (rule rg_get_keeps [OF g c(1)])
  then have c2: "hm_get (rg_by_group_id s2) h = Some c" using cache_draw(2) [of R s1] n by simp
  have q1: "cached_sat Q h s1" "cached_sat Q h s2" using c1 c2 weaken [OF c(2)] by (auto simp: cached_sat_def)
  have q3: "cached_sat Q h s3"
    by (rule cached_satI, rule record_nonce_holds [where A = P and B = Q, OF r c2 c(2)]) (auto intro: weaken nonce_law)
  from open_frame_states [OF g n r, of gid]
  show ?thesis using q1 q3 note_inbound_holds note_progress_holds by auto
qed

end

context conv_inv
begin

lemma dispatch_message_tail:
  fixes s :: "'v reg"
  assumes o: "open_frame R env gid g s = (r1, s1)" and q1: "cached_sat Q h s1"
  shows "cached_sat Q h (snd (dispatch_message R env gid g s))"
proof (cases "\<exists>pt payload. r1 = Inr pt \<and> i_message_from_slice R pt = Inr payload")
  case False
  then have "snd (dispatch_message R env gid g s) = s1"
    using o by (cases r1) (auto simp: dispatch_message_def split: sum.splits)
  then show ?thesis using q1 by simp
next
  case True
  then obtain pt payload where pt: "r1 = Inr pt" "i_message_from_slice R pt = Inr payload" by blast
  define p where "p = strip_attachment (k_b64 R) payload"
  define s2 where "s2 = (case m_advertised_relays p of None \<Rightarrow> s1 | Some relays \<Rightarrow>
      (case m_hint_epoch_ms p of None \<Rightarrow> s1 | Some epoch \<Rightarrow>
         snd (apply_relay_hint R (sender_hex R env) relays epoch s1)))"
  define f :: "conversation \<Rightarrow> 'v \<Rightarrow> (unit mutate_action \<times> conversation) \<times> 'v" where
    "f = pure_mutation (\<lambda>conv. (Persist (), push_history (inbound_entry (sender_hex R env) p) conv))"
  have "rg_by_group_id s2 = rg_by_group_id s1"
    by (simp add: s2_def cache_simps split: option.splits)
  then have q2: "cached_sat Q h s2" using q1 cached_sat_cong by metis
  obtain r3 s3 where m: "mutate_in_place R g f s2 = (r3, s3)" by (rule prod.exhaust)
  have fl: "Q (snd (fst (f c v)))" if "Q c" for c v
    using push_law [OF that] by (simp add: f_def pure_mutation_def)
  from q2 obtain c where "hm_get (rg_by_group_id s2) h = Some c" "Q c" by (rule cached_satE)
  from mutate_holds [where A = Q, OF m this fl] have "cached_sat Q h s3" by (rule cached_satI)
  moreover have "snd (dispatch_message R env gid g s) = s3"
    using m unfolding dispatch_message_def o prod.case sum.case pt Let_def p_def [symmetric] s2_def [symmetric]
      f_def [symmetric] by simp
  ultimately show ?thesis by simp
qed

lemma dispatch_message_holds: "cached_sat P h s \<Longrightarrow> cached_sat Q h (snd (dispatch_message R env gid g s))"
  using open_frame_holds [of h s R env gid g] dispatch_message_tail [of R env gid g s] by (metis prod.collapse)

lemma dispatch_receipt_tail:
  assumes o: "open_frame R env gid g s = (r1, s1)" and q1: "cached_sat Q h s1"
  shows "cached_sat Q h (fst (snd (dispatch_receipt R env gid g (s, ol))))"
proof (cases "\<exists>pt p. r1 = Inr pt \<and> i_receipt_from_slice R pt = Inr p")
  case False
  then have "fst (snd (dispatch_receipt R env gid g (s, ol))) = s1"
    using o by (cases r1) (auto simp: dispatch_receipt_def split: sum.splits)
  then show ?thesis using q1 by simp
next
  case True
  then obtain pt p where pt: "r1 = Inr pt" "i_receipt_from_slice R pt = Inr p" by blast
  obtain r2 s2 where d: "record_delivery R g (r_message_id p) (r_received_at_ms p) s1 = (r2, s2)"
    by (rule prod.exhaust)
  obtain s3 ol3 where m: "mark_outbox R (r_message_id p) (r_received_at_ms p) (s2, ol) = (s3, ol3)"
    by (rule prod.exhaust)
  from q1 obtain c where "hm_get (rg_by_group_id s1) h = Some c" "Q c" by (rule cached_satE)
  from record_delivery_holds [where A = Q, OF d this deliver_law] have q2: "cached_sat Q h s2" by (rule cached_satI)
  have "rg_by_group_id s3 = rg_by_group_id s2"
    using mark_outbox_cache [of R "r_message_id p" "r_received_at_ms p" s2 ol] m by simp
  then have "cached_sat Q h s3" using q2 cached_sat_cong by metis
  moreover have "fst (snd (dispatch_receipt R env gid g (s, ol))) = s3"
    using o pt d m by (simp add: dispatch_receipt_def)
  ultimately show ?thesis by simp
qed

lemma dispatch_receipt_holds: "cached_sat P h s \<Longrightarrow> cached_sat Q h (fst (snd (dispatch_receipt R env gid g (s, ol))))"
  using open_frame_holds [of h s R env gid g] dispatch_receipt_tail [of R env gid g s] by (metis prod.collapse)

lemma dispatch_holds:
  assumes "cached_sat P h s" and "\<not> is_welcome env"
  shows "cached_sat Q h (fst (snd (dispatch_inbound_with_outbox R env (s, ol))))"
proof (cases "e_group_id env")
  case None
  have "cached_sat Q h s" using assms(1) weaken by (auto simp: cached_sat_def)
  then show ?thesis using None by (simp add: dispatch_inbound_with_outbox_def)
next
  case (Some gid)
  obtain rv sv where v: "verify_sender R env s = (rv, sv)" by (rule prod.exhaust)
  have "rg_by_group_id sv = rg_by_group_id s" using verify_sender_fields(1) [of R env s] v by simp
  then have pv: "cached_sat P h sv" using assms(1) cached_sat_cong by metis
  then have qv: "cached_sat Q h sv" using weaken by (auto simp: cached_sat_def)
  show ?thesis
    using assms(2) Some v qv dispatch_receipt_holds [OF pv, of R env gid "i_hex R gid" ol]
      dispatch_message_holds [OF pv, of R env gid "i_hex R gid"]
    by (auto simp: dispatch_inbound_with_outbox_def is_welcome_def Let_def case_prod_beta
        split: sum.splits option.splits)
qed

end

subsection \<open>The replay window\<close>

text \<open>The nonce is among the last \<open>k + 1\<close> entries of the sender's window.\<close>

definition remembers :: "string \<Rightarrow> bytes \<Rightarrow> nat \<Rightarrow> conversation \<Rightarrow> bool" where
  "remembers a n k c \<longleftrightarrow> (\<exists>xs ys. window_of a c = xs @ n # ys \<and> length ys \<le> k)"

lemma window_of_fields [simp]:
  "window_of a (c\<lparr> c_history := hs \<rparr>) = window_of a c"
  "window_of a (c\<lparr> c_wedge_last_progress_ms := t, c_wedge_last_inbound_ms := u,
                   c_wedge_progress_epoch := e, c_wedge_max_stale_epoch := m \<rparr>) = window_of a c"
  by (simp_all add: window_of_def)

lemma window_of_insert:
  "window_of a (c\<lparr> c_seen_nonces := hm_insert b w (c_seen_nonces c) \<rparr>) = (if a = b then w else window_of a c)"
  by (simp add: window_of_def hm_simps)

lemma window_of_check:
  "window_of a (snd (check_and_record_nonce b n c)) =
     (if a = b \<and> n \<notin> set (window_of b c)
      then (if length (window_of b c) \<ge> nonce_window then tl (window_of b c) else window_of b c) @ [n]
      else window_of a c)"
  by (cases "n \<in> set (window_of b c)") (simp_all add: check_nonce_eq window_of_insert)

lemma remembers_new: "n \<notin> set (window_of a c) \<Longrightarrow> remembers a n 0 (snd (check_and_record_nonce a n c))"
  unfolding remembers_def window_of_check by force

lemma remembers_check:
  assumes "remembers a n k c" and "k < nonce_window - 1"
  shows "remembers a n (Suc k) (snd (check_and_record_nonce b m c))"
proof -
  obtain xs ys where w: "window_of a c = xs @ n # ys" "length ys \<le> k"
    using assms(1) by (auto simp: remembers_def)
  show ?thesis
  proof (cases "a = b \<and> m \<notin> set (window_of b c) \<and> length (window_of b c) \<ge> nonce_window")
    case True
    then have "xs \<noteq> []" using w assms(2) by (auto simp: nonce_window_def)
    then have "window_of a (snd (check_and_record_nonce b m c)) = tl xs @ n # (ys @ [m])"
      using True w by (simp add: window_of_check)
    then show ?thesis using w(2) unfolding remembers_def by force
  next
    case False
    then have "window_of a (snd (check_and_record_nonce b m c)) \<in> {xs @ n # (ys @ [m]), xs @ n # ys}"
      using w by (auto simp: window_of_check)
    then show ?thesis using w(2) unfolding remembers_def by force
  qed
qed

lemma remembers_in: "remembers a n k c \<Longrightarrow> n \<in> set (window_of a c)"
  by (auto simp: remembers_def)

lemma remembers_Suc: "remembers a n k c \<Longrightarrow> remembers a n (Suc k) c"
  unfolding remembers_def using le_SucI by blast

interpretation held: conv_inv "\<lambda>_. False" "remembers a n k"
  by unfold_locales (simp_all add: remembers_def)

interpretation aging: conv_inv "\<lambda>c. k < nonce_window - 1 \<and> remembers a n k c" "remembers a n (Suc k)"
  by unfold_locales (auto simp: remembers_check remembers_Suc, auto simp: remembers_def)

text \<open>After a frame was opened its nonce is the youngest of its sender.\<close>

lemma open_frame_remembers:
  assumes "open_frame R env gid g s = (Inr pt, s')"
  shows "cached_sat (remembers (sender_hex R env) (e_nonce env) 0) g s'"
proof -
  from assms obtain s2 s3 where r: "record_nonce R g (sender_hex R env) (e_nonce env) s2 = (Inr Recorded, s3)"
    and s': "s' = note_wedge_progress R g s3" by (rule open_frame_Inr)
  from r obtain c where "e_nonce env \<notin> set (window_of (sender_hex R env) c)"
    and "hm_get (rg_by_group_id s3) g = Some (snd (check_and_record_nonce (sender_hex R env) (e_nonce env) c))"
    by (rule record_nonce_Recorded)
  then have "cached_sat (remembers (sender_hex R env) (e_nonce env) 0) g s3"
    unfolding cached_sat_def using remembers_new by metis
  then show ?thesis unfolding s' by (rule held.note_progress_holds)
qed

text \<open>A remembered nonce closes the frame: it is not opened again.\<close>

lemma open_frame_replay:
  assumes "cached_sat (remembers (sender_hex R env) (e_nonce env) k) g s"
  shows "\<nexists>pt. fst (open_frame R env gid g s) = Inr pt"
proof
  assume "\<exists>pt. fst (open_frame R env gid g s) = Inr pt"
  then obtain pt s' where "open_frame R env gid g s = (Inr pt, s')" by (metis prod.collapse)
  then obtain conv s1 now s2 s3 where g: "rg_get R g s = (Inr (Some conv), s1)" and n: "draw_now R s1 = (now, s2)"
    and r: "record_nonce R g (sender_hex R env) (e_nonce env) s2 = (Inr Recorded, s3)"
    by (rule open_frame_Inr)
  from assms obtain c where c: "hm_get (rg_by_group_id s) g = Some c"
    "remembers (sender_hex R env) (e_nonce env) k c" by (rule cached_satE)
  have "hm_get (rg_by_group_id s2) g = Some c"
    using rg_get_keeps [OF g c(1)] cache_draw(2) [of R s1] n by simp
  from record_nonce_seen [where R = R, OF this remembers_in [OF c(2)]] show False using r by simp
qed

subsection \<open>Surfaced messages\<close>

lemma verify_sender_ok:
  assumes "verify_sender R env s = (Inr None, s')"
  obtains card_bytes stored pk_b64 pk canonical
  where "rg_files s (card_path R (sender_hex R env)) = Some card_bytes"
    and "i_card_from_slice R card_bytes = Inr stored" and "sc_agent_public_key_b64 stored = Some pk_b64"
    and "k_b64 R pk_b64 = Inr pk" and "canonical_envelope_bytes R env = Inr canonical"
    and "i_ml_dsa_verify R pk (framed_envelope canonical) (e_sender_signature env)"
proof -
  obtain E s1 where d: "draw_os R s = (E, s1)" by (rule prod.exhaust)
  then have f: "rg_files s1 = rg_files s" using files_draw(1) [of R s] by simp
  from assms show thesis
    using that d f
    by (auto simp: verify_sender_def Let_def read_file_def split: if_splits sum.splits option.splits)
qed

lemma verify_sender_drop:
  "verify_sender R env s = (Inr (Some d), s') \<Longrightarrow> \<exists>kind. d = Dropped kind (sender_hex R env)"
  by (auto simp: verify_sender_def Let_def case_prod_beta split: if_splits sum.splits option.splits)

lemma open_frame_Inl:
  assumes "fst (open_frame R env gid g s) = Inl (Inr d)"
  shows "d \<in> {StaleEpoch g (e_epoch env), ReplayDetected g (sender_hex R env), AeadOpenFailed g (e_epoch env)}"
proof -
  obtain r1 s1 where g: "rg_get R g s = (r1, s1)" by (rule prod.exhaust)
  obtain now s2 where n: "draw_now R s1 = (now, s2)" by (rule prod.exhaust)
  obtain r3 s3 where r: "record_nonce R g (sender_hex R env) (e_nonce env) s2 = (r3, s3)" by (rule prod.exhaust)
  show ?thesis
    using assms g n r
    by (auto simp: open_frame_def split: sum.splits option.splits nonce_check_outcome.splits if_splits)
qed

lemma dispatch_message_Message:
  assumes "dispatch_message R env gid g s = (Inr (Message g' a p), s')"
  obtains pt s1 raw where "open_frame R env gid g s = (Inr pt, s1)" and "i_message_from_slice R pt = Inr raw"
    and "p = strip_attachment (k_b64 R) raw" and "g' = g" and "a = sender_hex R env"
proof -
  obtain r1 s1 where o: "open_frame R env gid g s = (r1, s1)" by (rule prod.exhaust)
  have "r1 \<noteq> Inl (Inr (Message g' a p))" using open_frame_Inl [of R env gid g s] o by auto
  with o assms that show thesis
    by (cases r1) (auto simp: dispatch_message_def Let_def case_prod_beta split: sum.splits)
qed

lemma dispatch_receipt_not_Message:
  "fst (dispatch_receipt R env gid g (s, ol)) \<noteq> Inr (Message g' a p)"
proof -
  obtain r1 s1 where o: "open_frame R env gid g s = (r1, s1)" by (rule prod.exhaust)
  have "r1 \<noteq> Inl (Inr (Message g' a p))" using open_frame_Inl [of R env gid g s] o by auto
  with o show ?thesis
    by (cases r1) (auto simp: dispatch_receipt_def Let_def case_prod_beta split: sum.splits)
qed

lemma install_not_Message:
  "fst (install_or_rekey_conversation R env p a g t s) \<noteq> Inr (Message g' a' p')"
  by (auto simp: install_or_rekey_conversation_def Let_def case_prod_beta
      split: prod.splits sum.splits option.splits rekey_resolution.splits)

lemma welcome_verified_not_Message:
  "decrypt_and_verify_welcome R env gid \<noteq> Inr (Inl (Message g' a p))"
  by (simp add: decrypt_and_verify_welcome_def Let_def split: sum.split option.split)

lemma dispatch_welcome_not_Message:
  "fst (dispatch_welcome R env gid g s) \<noteq> Inr (Message g' a p)"
proof -
  have w: "fst (case r of (Inl e, s) \<Rightarrow> (Inl e, s)
              | (Inr (WelcomedPending conv), s) \<Rightarrow> if c then (Inr (WelcomedPending conv), s)
                 else (case write_card R k s of (Inl e, s) \<Rightarrow> (Inl e, s) | (Inr _, s) \<Rightarrow> (Inr (WelcomedPending conv), s))
              | (Inr d, s) \<Rightarrow> (Inr d, s)) \<noteq> Inr (Message g' a p)"
    if "fst r \<noteq> Inr (Message g' a p)" for r :: "(chat_error + inbound_dispatch) \<times> 'a reg" and c k
    using that by (auto split: prod.splits sum.splits inbound_dispatch.splits)
  show ?thesis
    using welcome_verified_not_Message [of R env gid g' a p]
    unfolding dispatch_welcome_def Let_def by (auto simp: install_not_Message split: sum.split intro!: w)
qed

lemma dispatch_Message:
  assumes "dispatch_inbound_with_outbox R env (s, ol) = (Inr (Message g a p), s', ol')"
  obtains gid sv where "e_group_id env = Some gid" and "g = i_hex R gid" and "\<not> is_welcome env"
    and "e_kind env \<noteq> DeliveryReceipt" and "verify_sender R env s = (Inr None, sv)"
    and "dispatch_message R env gid g sv = (Inr (Message g a p), s')"
proof -
  obtain gid where gid: "e_group_id env = Some gid"
    using assms by (auto simp: dispatch_inbound_with_outbox_def split: option.splits)
  obtain rv sv where v: "verify_sender R env s = (rv, sv)" by (rule prod.exhaust)
  have nd: "rv \<noteq> Inr (Some (Message g a p))" using verify_sender_drop [of R env s] v by auto
  have k: "e_kind env \<noteq> DeliveryReceipt"
  proof
    assume "e_kind env = DeliveryReceipt"
    then show False
      using assms gid v nd dispatch_receipt_not_Message [of R env gid "i_hex R gid" sv ol g a p]
      by (auto simp: dispatch_inbound_with_outbox_def split: sum.splits option.splits)
  qed
  have w: "e_kem_ciphertext env = []"
    using assms gid k dispatch_welcome_not_Message [of R env gid "i_hex R gid" s g a p]
    by (auto simp: dispatch_inbound_with_outbox_def Let_def case_prod_beta split: if_splits)
  obtain rm sm where m: "dispatch_message R env gid (i_hex R gid) sv = (rm, sm)" by (rule prod.exhaust)
  have rv: "rv = Inr None" "rm = Inr (Message g a p)" "sm = s'"
    using assms gid k w v nd m by (auto simp: dispatch_inbound_with_outbox_def split: sum.splits option.splits)
  then have "g = i_hex R gid" using m dispatch_message_Message by metis
  with that gid k w v m rv show thesis by (simp add: is_welcome_def)
qed

end
