(* ===== verification/Inbound_Safety.thy ===== *)
theory Inbound_Safety
  imports Inbound_Properties "HOL-Library.Code_Target_Nat" "HOL-Library.Code_Target_Int"
begin

text \<open>
  The properties of surfaced messages: their authenticity, that they are not surfaced twice, and
  what becomes of one whose history entry could not be written.
\<close>

subsection \<open>Runs of the dispatcher\<close>

definition run_inbound ::
  "'v inbound_env \<Rightarrow> transit_envelope list \<Rightarrow> 'v reg \<times> outbox_link \<Rightarrow> 'v reg \<times> outbox_link" where
  "run_inbound R es so = foldl (\<lambda>so e. snd (dispatch_inbound_with_outbox R e so)) so es"

text \<open>A remembered nonce is pushed at most one place down by each frame.\<close>

lemma run_remembers:
  assumes "cached_sat (remembers a n k) g (fst so)" and "\<forall>e \<in> set es. \<not> is_welcome e"
    and "k + length es < nonce_window"
  shows "\<exists>j. cached_sat (remembers a n j) g (fst (run_inbound R es so))"
  using assms
proof (induction es arbitrary: so k)
  case Nil
  then show ?case by (auto simp: run_inbound_def)
next
  case (Cons e es)
  obtain s ol where so: "so = (s, ol)" by (rule prod.exhaust)
  have "cached_sat (\<lambda>c. k < nonce_window - 1 \<and> remembers a n k c) g s"
    using Cons.prems(1,3) so by (auto simp: cached_sat_def)
  then have "cached_sat (remembers a n (Suc k)) g (fst (snd (dispatch_inbound_with_outbox R e (s, ol))))"
    by (rule aging.dispatch_holds) (use Cons.prems(2) in simp)
  then have "\<exists>j. cached_sat (remembers a n j) g (fst (run_inbound R es (snd (dispatch_inbound_with_outbox R e (s, ol)))))"
    by (rule Cons.IH) (use Cons.prems in auto)
  then show ?case by (simp add: run_inbound_def so)
qed

text \<open>A surfaced message leaves its nonce behind.\<close>

lemma message_remembered:
  assumes "fst (dispatch_inbound_with_outbox R env (s, ol)) = Inr (Message g a p)"
  shows "a = sender_hex R env
    \<and> cached_sat (remembers a (e_nonce env) 0) g (fst (snd (dispatch_inbound_with_outbox R env (s, ol))))"
proof -
  obtain s' ol' where d: "dispatch_inbound_with_outbox R env (s, ol) = (Inr (Message g a p), s', ol')"
    using assms by (metis prod.collapse)
  then obtain gid sv where m: "dispatch_message R env gid g sv = (Inr (Message g a p), s')"
    by (rule dispatch_Message)
  then obtain pt s1 where o: "open_frame R env gid g sv = (Inr pt, s1)" and a: "a = sender_hex R env"
    by (rule dispatch_message_Message)
  have "cached_sat (remembers a (e_nonce env) 0) g (snd (dispatch_message R env gid g sv))"
    unfolding a by (rule held.dispatch_message_tail [OF o open_frame_remembers [OF o]])
  then show ?thesis using d m a by simp
qed

text \<open>While the nonce is remembered the same envelope is not surfaced.\<close>

lemma remembered_not_surfaced:
  assumes "cached_sat (remembers (sender_hex R env) (e_nonce env) k) g s"
    and "e_group_id env = Some gid" and "g = i_hex R gid"
  shows "fst (dispatch_inbound_with_outbox R env (s, ol)) \<noteq> Inr (Message g' a p)"
proof
  assume "fst (dispatch_inbound_with_outbox R env (s, ol)) = Inr (Message g' a p)"
  then obtain s' ol' where "dispatch_inbound_with_outbox R env (s, ol) = (Inr (Message g' a p), s', ol')"
    by (metis prod.collapse)
  then obtain gid' sv where gid: "e_group_id env = Some gid'" "g' = i_hex R gid'"
    and v: "verify_sender R env s = (Inr None, sv)"
    and m: "dispatch_message R env gid' g' sv = (Inr (Message g' a p), s')"
    by (rule dispatch_Message)
  have "g' = g" using gid assms(2,3) by simp
  have "rg_by_group_id sv = rg_by_group_id s" using verify_sender_fields(1) [of R env s] v by simp
  then have "cached_sat (remembers (sender_hex R env) (e_nonce env) k) g' sv"
    using assms(1) cached_sat_cong \<open>g' = g\<close> by metis
  from open_frame_replay [OF this, of gid'] m show False
    by (auto elim: dispatch_message_Message)
qed

lemma message_not_again:
  assumes "fst (dispatch_inbound_with_outbox R env (s, ol)) = Inr (Message g a p)"
    and "\<forall>e \<in> set es. \<not> is_welcome e" and "length es < nonce_window"
  shows "fst (dispatch_inbound_with_outbox R env
           (run_inbound R es (snd (dispatch_inbound_with_outbox R env (s, ol))))) \<noteq> Inr (Message g' a' p')"
proof -
  let ?so = "snd (dispatch_inbound_with_outbox R env (s, ol))"
  have m: "a = sender_hex R env" "cached_sat (remembers a (e_nonce env) 0) g (fst ?so)"
    using message_remembered [OF assms(1)] by blast+
  obtain gid where gid: "e_group_id env = Some gid" "g = i_hex R gid"
    using assms(1) dispatch_Message by (metis prod.collapse)
  obtain j where j: "cached_sat (remembers a (e_nonce env) j) g (fst (run_inbound R es ?so))"
    using run_remembers [OF m(2) assms(2)] assms(3) by auto
  show ?thesis
    using remembered_not_surfaced [OF j [unfolded m(1)] gid, of "snd (run_inbound R es ?so)"] by simp
qed

subsection \<open>Properties\<close>

text \<open>
  (C2) A surfaced message is authentic and fresh: its envelope carries a signature that verifies
  under the key of the sender's stored card over the whole envelope, its nonce was not in the
  replay window of that sender in the conversation it names, its ciphertext opens under that
  conversation's key for its epoch with group and epoch bound in, the payload is what was
  encrypted but for an attachment that does not validate, and an attachment it shows is valid.
\<close>

theorem message_authentic:
  assumes "fst (dispatch_inbound_with_outbox R env (s, ol)) = Inr (Message g a p)"
  shows "\<exists>gid card_bytes stored pk_b64 pk canonical conv now key pt raw.
     e_group_id env = Some gid \<and> g = i_hex R gid \<and> a = sender_hex R env
   \<and> rg_files s (card_path R a) = Some card_bytes \<and> i_card_from_slice R card_bytes = Inr stored
   \<and> sc_agent_public_key_b64 stored = Some pk_b64 \<and> k_b64 R pk_b64 = Inr pk
   \<and> canonical_envelope_bytes R env = Inr canonical
   \<and> i_ml_dsa_verify R pk (framed_envelope canonical) (e_sender_signature env)
   \<and> fst (rg_get R g (snd (verify_sender R env s))) = Inr (Some conv)
   \<and> key_for_epoch (k_b64 R) now (e_epoch env) conv = Inr (Some key)
   \<and> e_nonce env \<notin> set (window_of a conv)
   \<and> decrypt (k_cipher R) key (e_nonce env) (e_ciphertext env) (message_aad gid (e_epoch env)) = Inr pt
   \<and> i_message_from_slice R pt = Inr raw \<and> p = strip_attachment (k_b64 R) raw
   \<and> (\<forall>att. m_attachment p = Some att \<longrightarrow>
        (\<exists>bs. validate (\<lambda>t. case k_b64 R t of Inl _ \<Rightarrow> None | Inr bs \<Rightarrow> Some bs) att = Inr bs))"
proof -
  obtain s' ol' where "dispatch_inbound_with_outbox R env (s, ol) = (Inr (Message g a p), s', ol')"
    using assms by (metis prod.collapse)
  then obtain gid sv where gid: "e_group_id env = Some gid" "g = i_hex R gid"
    and v: "verify_sender R env s = (Inr None, sv)"
    and m: "dispatch_message R env gid g sv = (Inr (Message g a p), s')"
    by (rule dispatch_Message)
  from m obtain pt s4 raw where o: "open_frame R env gid g sv = (Inr pt, s4)"
    and raw: "i_message_from_slice R pt = Inr raw" and p: "p = strip_attachment (k_b64 R) raw"
    and a: "a = sender_hex R env" by (rule dispatch_message_Message)
  from o obtain conv s1 now s2 key s3 where g: "rg_get R g sv = (Inr (Some conv), s1)"
    and n: "draw_now R s1 = (now, s2)" and k: "key_for_epoch (k_b64 R) now (e_epoch env) conv = Inr (Some key)"
    and r: "record_nonce R g (sender_hex R env) (e_nonce env) s2 = (Inr Recorded, s3)"
    and ao: "aead_open (k_cipher R) key (e_nonce env) (e_ciphertext env) (message_aad gid (e_epoch env)) = Inr pt"
    by (rule open_frame_Inr)
  have "hm_get (rg_by_group_id s2) g = Some conv" using rg_get_Some [OF g] cache_draw(2) [of R s1] n by simp
  from record_nonce_seen [where R = R, OF this] r have fresh: "e_nonce env \<notin> set (window_of a conv)"
    unfolding a by auto
  have dec: "decrypt (k_cipher R) key (e_nonce env) (e_ciphertext env) (message_aad gid (e_epoch env)) = Inr pt"
    using ao by (auto simp: aead_open_def split: sum.splits)
  have att: "\<forall>att. m_attachment p = Some att \<longrightarrow>
      (\<exists>bs. validate (\<lambda>t. case k_b64 R t of Inl _ \<Rightarrow> None | Inr bs \<Rightarrow> Some bs) att = Inr bs)"
    unfolding p strip_attachment_def by (auto split: option.splits sum.splits)
  from v obtain card_bytes stored pk_b64 pk canonical
    where vs: "rg_files s (card_path R (sender_hex R env)) = Some card_bytes"
      "i_card_from_slice R card_bytes = Inr stored" "sc_agent_public_key_b64 stored = Some pk_b64"
      "k_b64 R pk_b64 = Inr pk" "canonical_envelope_bytes R env = Inr canonical"
      "i_ml_dsa_verify R pk (framed_envelope canonical) (e_sender_signature env)"
    by (rule verify_sender_ok)
  have "fst (rg_get R g (snd (verify_sender R env s))) = Inr (Some conv)" using g v by simp
  then show ?thesis using gid raw p a k fresh dec att vs by blast
qed


text \<open>Opening a frame does not touch the history.\<close>

interpretation history_kept: frame_inv "\<lambda>c. c_history c = hs" "\<lambda>c. c_history c = hs"
  by unfold_locales (simp_all add: check_nonce_eq)

text \<open>
  (C18) A message whose history entry cannot be written is lost although the transport is told to
  forget it: the dispatch still returns the message, which confirms the delivery, neither the
  cache nor the file of the conversation gains the entry, and no redelivery within the replay
  window brings it back, since the nonce was persisted before.
\<close>

theorem unsaved_message_lost:
  assumes "e_group_id env = Some gid" and "e_kind env \<noteq> DeliveryReceipt" and "e_kem_ciphertext env = []"
    and "g = i_hex R gid" and "hm_get (rg_by_group_id s) g = Some c"
    and "verify_sender R env s = (Inr None, sv)" and "open_frame R env gid g sv = (Inr pt, s1)"
    and "i_message_from_slice R pt = Inr raw" and "m_hint_epoch_ms raw = None"
    and "p = strip_attachment (k_b64 R) raw"
    and "fst (mutate_in_place R g (pure_mutation (\<lambda>conv.
           (Persist (), push_history (inbound_entry (sender_hex R env) p) conv))) s1) = Inl e"
    and "\<forall>e \<in> set es. \<not> is_welcome e" and "length es < nonce_window"
  shows "\<exists>so' c'. dispatch_inbound_with_outbox R env (s, ol) = (Inr (Message g (sender_hex R env) p), so')
    \<and> confirms_delivery (Message g (sender_hex R env) p)
    \<and> hm_get (rg_by_group_id (fst so')) g = Some c' \<and> c_history c' = c_history c
    \<and> rg_files (fst so') (conv_path R g) = rg_files s1 (conv_path R g)
    \<and> (\<forall>g' a' p'. fst (dispatch_inbound_with_outbox R env (run_inbound R es so')) \<noteq> Inr (Message g' a' p'))"
proof -
  have "rg_by_group_id sv = rg_by_group_id s" using verify_sender_fields(1) [of R env s] assms(6) by simp
  then have "cached_sat (\<lambda>c'. c_history c' = c_history c) g sv" using assms(5) by (simp add: cached_sat_def)
  from history_kept.open_frame_holds [OF this, of R env gid g] assms(7)
  obtain c' where c': "hm_get (rg_by_group_id s1) g = Some c'" "c_history c' = c_history c"
    by (auto elim: cached_satE)
  obtain s2 where m: "mutate_in_place R g (pure_mutation (\<lambda>conv.
           (Persist (), push_history (inbound_entry (sender_hex R env) p) conv))) s1 = (Inl e, s2)"
    using assms(11) by (metis prod.collapse)
  have kept: "rg_by_group_id s2 = rg_by_group_id s1" "rg_files s2 (conv_path R g) = rg_files s1 (conv_path R g)"
    using mutate_fails [OF c'(1) m] by blast+
  have h: "m_hint_epoch_ms p = None"
    using assms(9,10) by (auto simp: strip_attachment_def split: option.splits sum.splits)
  have dm: "dispatch_message R env gid g sv = (Inr (Message g (sender_hex R env) p), s2)"
    unfolding dispatch_message_def assms(7) prod.case sum.case assms(8) Let_def assms(10) [symmetric]
    using h m by (auto split: option.splits)
  have d: "dispatch_inbound_with_outbox R env (s, ol) = (Inr (Message g (sender_hex R env) p), s2, ol)"
    using assms(1-4,6) dm by (simp add: dispatch_inbound_with_outbox_def)
  have "fst (dispatch_inbound_with_outbox R env (run_inbound R es (s2, ol))) \<noteq> Inr (Message g' a' p')" for g' a' p'
    using message_not_again [of R env s ol g "sender_hex R env" p es] assms(12,13) d by simp
  then show ?thesis using d c' kept by auto
qed

subsection \<open>A concrete device\<close>

definition demo_payload :: message_payload where
  "demo_payload = \<lparr> m_sender_name = None, m_body = ''hello'', m_ts_ms = 5, m_message_id = Some ''m1'',
     m_reply_to_message_id = None, m_attachment = None, m_advertised_relays = None, m_hint_epoch_ms = None \<rparr>"

definition demo_conv :: "string \<Rightarrow> string \<Rightarrow> conversation" where
  "demo_conv g agent = new_dm g ''key'' 0
     \<lparr> mb_user_id_hex = None, mb_devices = [], mb_joined_at_epoch = 0 \<rparr>
     \<lparr> mb_user_id_hex = None, mb_devices = [\<lparr> md_agent_id_hex = agent, md_kem_public_key_b64 = [],
         md_agent_public_key_b64 = Some agent, md_added_at_epoch = 0, md_status = Active \<rparr>],
       mb_joined_at_epoch = 0 \<rparr> None"

definition demo_card :: stored_contact_card where
  "demo_card = \<lparr> sc_agent_id_hex = ''a'', sc_display_name = [], sc_kem_public_key_b64 = [],
     sc_agent_public_key_b64 = Some ''pk'', sc_rendezvous_hints = None, sc_last_hint_epoch_ms = None,
     sc_user_id_hex = None \<rparr>"

definition demo_hex :: "bytes \<Rightarrow> string" where
  "demo_hex bs = map (\<lambda>b. char_of (unat b)) bs"

text \<open>The world counts the file operations; the one numbered \<open>bad\<close> cannot open its file.\<close>

definition demo_env :: "nat \<Rightarrow> welcome_payload \<Rightarrow> nat inbound_env" where
  "demo_env bad w =
     \<lparr> k_layout = layout_at [''d''], k_cipher = demo_cipher, k_master = [], k_kdf_id = 0, k_argon_salt = None,
       k_conv_to_vec = (\<lambda>_. Inr []), k_conv_from_slice = (\<lambda>_. Inr (demo_conv ''g'' ''a'')),
       k_b64 = (\<lambda>t. Inr (if t = ''key'' then replicate 32 0 else ascii t)),
       k_os = (\<lambda>v. (demo_os (\<lambda>st. if v = bad \<and> st = OpenTmp then Some ''full'' else None), v + 1)),
       k_clock = (\<lambda>v. (1000, v)),
       i_hex = demo_hex, i_sha256 = (\<lambda>bs. bs), i_ml_dsa_verify = (\<lambda>pk m sig. sig = pk),
       i_kem_decapsulate = (\<lambda>_. Inr []), i_derive_aead_key = (\<lambda>_ _. []), i_postcard = (\<lambda>_. Inr []),
       i_card_to_vec = (\<lambda>_. Inr []), i_card_from_slice = (\<lambda>_. Inr demo_card),
       i_welcome_from_slice = (\<lambda>_. Inr w), i_message_from_slice = (\<lambda>_. Inr demo_payload),
       i_receipt_from_slice = (\<lambda>_. Inl []), i_url_host_port = (\<lambda>_. None),
       i_bubbles_to_vec = (\<lambda>_. Inr []), i_bubbles_from_slice = (\<lambda>_. None) \<rparr>"

definition demo_reg :: "nat reg" where
  "demo_reg = \<lparr> rg_by_group_id = [(''g'', demo_conv ''g'' ''a'')], rg_peer_pubkeys = [],
     rg_files = (\<lambda>p. if p = [''d'', ''contacts'', ''a.json''] then Some []
                       else if p = [''d'', ''identity.json.enc''] then Some [9] else None), rg_world = 0 \<rparr>"

definition demo_envelope :: "bytes \<Rightarrow> bytes \<Rightarrow> bytes \<Rightarrow> nat \<Rightarrow> 8 word \<Rightarrow> transit_envelope" where
  "demo_envelope group_id sender kem epoch n =
     \<lparr> e_version = wire_version, e_kind = Dm, e_group_id = Some group_id, e_tenant_id = None,
       e_sender_agent_id = sender, e_sender_machine_id = [], e_timestamp_ms = 0, e_epoch = epoch,
       e_ciphertext = [], e_nonce = replicate 12 n, e_kem_ciphertext = kem,
       e_sender_signature = ascii ''pk'' \<rparr>"

text \<open>An agent whose id is the hash of the key \<^verbatim>\<open>pk\<close>, and a welcome it may send.\<close>

definition demo_agent :: bytes where
  "demo_agent = agent_id_domain @ ascii ''pk''"

definition demo_welcome :: "string \<Rightarrow> welcome_payload" where
  "demo_welcome g = \<lparr> w_group_id_hex = g, w_current_key_b64 = ''key'', w_epoch = 9,
     w_members = [\<lparr> mb_user_id_hex = None, mb_devices = [\<lparr> md_agent_id_hex = demo_hex demo_agent,
         md_kem_public_key_b64 = [], md_agent_public_key_b64 = Some ''pk'', md_added_at_epoch = 9,
         md_status = Active \<rparr>], mb_joined_at_epoch = 9 \<rparr>], w_name = None \<rparr>"

abbreviation demo_link :: outbox_link where
  "demo_link \<equiv> \<lparr> ol_store = None, ol_events = [] \<rparr>"

lemma demo_surfaced:
  "fst (dispatch_inbound_with_outbox (demo_env 99 (demo_welcome [])) (demo_envelope (ascii ''g'') (ascii ''a'') [] 0 1)
      (demo_reg, demo_link)) = Inr (Message ''g'' ''a'' demo_payload)"
  by code_simp

theorem message_authentic_witness:
  "\<exists>card_bytes. rg_files demo_reg (card_path (demo_env 99 (demo_welcome [])) ''a'') = Some card_bytes"
  using message_authentic [OF demo_surfaced] by blast


lemma demo_unsaved:
  "let R = demo_env 3 (demo_welcome []); env = demo_envelope (ascii ''g'') (ascii ''a'') [] 0 1;
       sv = snd (verify_sender R env demo_reg); s1 = snd (open_frame R env (ascii ''g'') ''g'' sv)
   in i_hex R (ascii ''g'') = ''g'' \<and> fst (verify_sender R env demo_reg) = Inr None
    \<and> fst (open_frame R env (ascii ''g'') ''g'' sv) = Inr [] \<and> strip_attachment (k_b64 R) demo_payload = demo_payload
    \<and> fst (mutate_in_place R ''g'' (pure_mutation (\<lambda>conv.
           (Persist (), push_history (inbound_entry (sender_hex R env) demo_payload) conv))) s1) = Inl (Io ''full'')"
  by code_simp

theorem unsaved_message_lost_witness:
  "\<exists>so'. dispatch_inbound_with_outbox (demo_env 3 (demo_welcome []))
            (demo_envelope (ascii ''g'') (ascii ''a'') [] 0 1) (demo_reg, demo_link)
          = (Inr (Message ''g'' (sender_hex (demo_env 3 (demo_welcome [])) (demo_envelope (ascii ''g'') (ascii ''a'') [] 0 1))
                    demo_payload), so')
    \<and> (\<exists>c'. hm_get (rg_by_group_id (fst so')) ''g'' = Some c' \<and> c_history c' = [])"
proof -
  note d = demo_unsaved [unfolded Let_def]
  let ?R = "demo_env 3 (demo_welcome [])" and ?env = "demo_envelope (ascii ''g'') (ascii ''a'') [] 0 1"
  have v: "verify_sender ?R ?env demo_reg = (Inr None, snd (verify_sender ?R ?env demo_reg))"
    using d by (metis prod.collapse)
  have o: "open_frame ?R ?env (ascii ''g'') ''g'' (snd (verify_sender ?R ?env demo_reg))
    = (Inr [], snd (open_frame ?R ?env (ascii ''g'') ''g'' (snd (verify_sender ?R ?env demo_reg))))"
    using d by (metis prod.collapse)
  have c: "hm_get (rg_by_group_id demo_reg) ''g'' = Some (demo_conv ''g'' ''a'')"
    by (simp add: demo_reg_def hm_get_def)
  have "c_history (demo_conv ''g'' ''a'') = []" by (simp add: demo_conv_def new_dm_def)
  with unsaved_message_lost [where R = ?R and env = ?env and es = "[]" and ol = demo_link, OF _ _ _ _ c v o, of demo_payload demo_payload "Io ''full''"] d
  show ?thesis
    by (auto simp: demo_envelope_def demo_env_def demo_payload_def nonce_window_def)
qed

end
