(* ===== verification/Welcome_Properties.thy ===== *)
theory Welcome_Properties
  imports Inbound_Safety
begin

text \<open>
  What may change the key of a conversation, and two ways around it: a welcome whose payload
  names another group than its envelope, and a lookup that puts an old copy back into the cache.
\<close>

subsection \<open>The key of a conversation\<close>

definition key_state :: "conversation \<Rightarrow> nat \<times> string \<times> prior_key list \<times> member list \<times> string option \<times> trust_state" where
  "key_state c = (c_current_epoch c, c_current_key_b64 c, c_prior_keys c, c_members c, c_name c, c_trust_state c)"

interpretation same_keys: conv_inv "\<lambda>c. key_state c = k" "\<lambda>c. key_state c = k"
  by unfold_locales (simp_all add: key_state_def check_nonce_eq)

lemma mutate_cached:
  assumes "mutate_in_place R g f s = (r, s')" and "hm_get (rg_by_group_id s) h = Some c"
  shows "hm_get (rg_by_group_id s') h = Some c
    \<or> (h = g \<and> (\<exists>v x c' v'. f c v = ((Persist x, c'), v') \<and> hm_get (rg_by_group_id s') h = Some c'))"
proof -
  obtain rh sh where hy: "hydrate R (Inl (Invalid (''mutate_in_place: no conversation for group_id '' @ g))) g s = (rh, sh)"
    by (rule prod.exhaust)
  have kh: "hm_get (rg_by_group_id sh) h = Some c" by (rule hydrate_keeps [OF hy assms(2)])
  show ?thesis
  proof (cases "\<exists>d. rh = Inr () \<and> hm_get (rg_by_group_id sh) g = Some d")
    case False
    then have "s' = sh" using assms(1) hy
      by (cases rh) (auto simp: mutate_in_place_def mutate_in_place_impl_def split: option.splits)
    then show ?thesis using kh by simp
  next
    case True
    then obtain d where d: "rh = Inr ()" "hm_get (rg_by_group_id sh) g = Some d" by blast
    obtain act d' v where m: "f d (rg_world sh) = ((act, d'), v)" by (metis surj_pair)
    obtain rp sp where p: "persist_conv R g d' (sh\<lparr> rg_world := v \<rparr>) = (rp, sp)" by (rule prod.exhaust)
    have cp: "rg_by_group_id sp = rg_by_group_id sh"
      using persist_conv_cache [of R g d' "sh\<lparr> rg_world := v \<rparr>"] p by simp
    show ?thesis using assms(1) hy d m p cp kh
      by (cases act; cases rp; cases "h = g")
        (auto simp: mutate_in_place_def mutate_in_place_impl_def Let_def cache_simps hm_simps)
  qed
qed

lemma save_conv_cache:
  assumes "save_conv R conv s = (r, s')"
  shows "(\<exists>e. r = Inl e \<and> rg_by_group_id s' = rg_by_group_id s)
    \<or> (r = Inr () \<and> rg_by_group_id s' = hm_insert (c_group_id_hex conv) conv (rg_by_group_id s))"
proof -
  obtain rp sp where p: "persist_conv R (c_group_id_hex conv) conv s = (rp, sp)" by (rule prod.exhaust)
  then have "rg_by_group_id sp = rg_by_group_id s" using persist_conv_cache [of R "c_group_id_hex conv" conv s] by simp
  then show ?thesis using assms p by (cases rp) (auto simp: save_conv_def cache_simps)
qed

lemma from_welcome_fields [simp]:
  "c_group_id_hex (from_welcome now p t) = w_group_id_hex p" "c_history (from_welcome now p t) = []"
  "c_current_key_b64 (from_welcome now p t) = w_current_key_b64 p" "c_members (from_welcome now p t) = w_members p"
  "c_current_epoch (from_welcome now p t) = w_epoch p"
  by (simp_all add: from_welcome_def)

lemma rekey_closure_Persist:
  assumes "rekey_closure clock ep a p c v = ((Persist x, c'), v')"
  shows "ep > c_current_epoch c \<and> list_ex (\<lambda>d. md_agent_id_hex d = a) (conv_devices c)
    \<and> c_current_epoch c' = w_epoch p \<and> c_current_key_b64 c' = w_current_key_b64 p \<and> c_members c' = w_members p"
  using assms by (auto simp: rekey_closure_def Let_def case_prod_beta sweep_prior_keys_def archive_key_def
      split: if_splits)

text \<open>What a verified welcome does to a cached conversation.\<close>

lemma install_changes:
  assumes "install_or_rekey_conversation R env p a g t s = (r, s')" and "hm_get (rg_by_group_id s) h = Some c"
    and "hm_get (rg_by_group_id s') h = Some c'" and "c' \<noteq> c"
  shows "(g = h \<and> e_epoch env > c_current_epoch c \<and> list_ex (\<lambda>d. md_agent_id_hex d = a) (conv_devices c)
      \<and> c_current_epoch c' = w_epoch p \<and> c_current_key_b64 c' = w_current_key_b64 p \<and> c_members c' = w_members p)
    \<or> (g \<noteq> h \<and> w_group_id_hex p = h \<and> (\<exists>now. c' = from_welcome now p t))"
proof -
  obtain r1 s1 where g: "rg_get R g s = (r1, s1)" by (rule prod.exhaust)
  have k1: "hm_get (rg_by_group_id s1) h = Some c" by (rule rg_get_keeps [OF g assms(2)])
  consider e where "r1 = Inl e" | "r1 = Inr None" | d where "r1 = Inr (Some d)"
    by (metis sum.exhaust option.exhaust)
  then show ?thesis
  proof cases
    case 1
    then show ?thesis using assms g k1 by (simp add: install_or_rekey_conversation_def)
  next
    case 2
    have nc: "hm_get (rg_by_group_id s) g = None" "s1 = s" using rg_get_None g 2 by blast+
    obtain now s2 where n: "draw_now R s1 = (now, s2)" by (rule prod.exhaust)
    then have c2: "rg_by_group_id s2 = rg_by_group_id s" using cache_draw(2) [of R s1] nc by simp
    obtain rs s3 where sv: "save_conv R (from_welcome now p t) s2 = (rs, s3)" by (rule prod.exhaust)
    have "s' = s3" using assms(1) g 2 n sv
      by (auto simp: install_or_rekey_conversation_def Let_def split: sum.splits)
    then show ?thesis using save_conv_cache [OF sv] assms(2-4) c2 nc by (auto simp: hm_simps split: if_splits)
  next
    case 3
    obtain rm sm where m: "mutate_in_place R g (rekey_closure (k_clock R) (e_epoch env) a p) s1 = (rm, sm)"
      by (rule prod.exhaust)
    have "s' = sm" using assms(1) g 3 m
      by (auto simp: install_or_rekey_conversation_def split: sum.splits rekey_resolution.splits)
    with mutate_cached [OF m k1] assms(3,4) obtain v x v' where
      "h = g" and "rekey_closure (k_clock R) (e_epoch env) a p c v = ((Persist x, c'), v')" by auto
    from rekey_closure_Persist [OF this(2)] \<open>h = g\<close> show ?thesis by auto
  qed
qed

lemma dispatch_welcome_install:
  assumes "dispatch_welcome R env gid g s = (r, s')"
  shows "(rg_by_group_id s' = rg_by_group_id s) \<or> (\<exists>v t r1 s1. decrypt_and_verify_welcome R env gid = Inr (Inr v)
    \<and> install_or_rekey_conversation R env (wv_payload v) (wv_sender_agent_hex v) g t s = (r1, s1)
    \<and> rg_by_group_id s' = rg_by_group_id s1)"
proof (cases "\<exists>v. decrypt_and_verify_welcome R env gid = Inr (Inr v)")
  case False
  then have "s' = s" using assms by (auto simp: dispatch_welcome_def split: sum.splits)
  then show ?thesis by simp
next
  case True
  then obtain v where v: "decrypt_and_verify_welcome R env gid = Inr (Inr v)" by blast
  let ?t = "if rg_files s (card_path R (wv_sender_agent_hex v)) \<noteq> None then Confirmed else TrustPending"
  obtain r1 s1 where i: "install_or_rekey_conversation R env (wv_payload v) (wv_sender_agent_hex v) g ?t s = (r1, s1)"
    by (rule prod.exhaust)
  have w: "rg_by_group_id (snd (case write_card R k s1 of (Inl e, s) \<Rightarrow> (Inl e, s) | (Inr _, s) \<Rightarrow> (q, s)))
      = rg_by_group_id s1" for k and q :: "chat_error + inbound_dispatch"
    using write_card_cache [of R k s1] by (auto split: prod.splits sum.splits)
  have "rg_by_group_id (snd (dispatch_welcome R env gid g s)) = rg_by_group_id s1"
    unfolding dispatch_welcome_def v sum.case Let_def i prod.case
    using w by (auto split: sum.split inbound_dispatch.split)
  then show ?thesis using v i assms by auto
qed

lemma welcome_sender:
  "decrypt_and_verify_welcome R env gid = Inr (Inr v) \<Longrightarrow> wv_sender_agent_hex v = sender_hex R env
     \<and> (\<exists>pk canonical. derive_agent_id (i_sha256 R) pk = e_sender_agent_id env
          \<and> canonical_envelope_bytes R env = Inr canonical
          \<and> i_ml_dsa_verify R pk (framed_envelope canonical) (e_sender_signature env))"
  by (auto simp: decrypt_and_verify_welcome_def Let_def split: sum.splits option.splits if_splits)

text \<open>The installing branch, from a dispatch that returns.\<close>

lemma rg_get_unknown:
  "hm_get (rg_by_group_id s) g = None \<Longrightarrow> rg_files s (conv_path R g) = None \<Longrightarrow> rg_get R g s = (Inr None, s)"
  by (simp add: rg_get_def get_begin_def get_finish_def)

lemma foreign_install_steps:
  assumes "e_group_id env = Some gid" and "is_welcome env"
    and "decrypt_and_verify_welcome R env gid = Inr (Inr v)"
    and "hm_get (rg_by_group_id s) (i_hex R gid) = None" and "rg_files s (conv_path R (i_hex R gid)) = None"
    and "dispatch_inbound_with_outbox R env (s, ol) = (Inr d, s', ol')"
  obtains now t s2 s3 where "rg_by_group_id s2 = rg_by_group_id s"
    and "save_conv R (from_welcome now (wv_payload v) t) s2 = (Inr (), s3)"
    and "s' = s3 \<or> (\<exists>k. write_card R k s3 = (Inr (), s'))"
proof -
  let ?known = "rg_files s (card_path R (wv_sender_agent_hex v)) \<noteq> None"
  define t where "t = (if ?known then Confirmed else TrustPending)"
  obtain now s2 where n: "draw_now R s = (now, s2)" by (rule prod.exhaust)
  then have c2: "rg_by_group_id s2 = rg_by_group_id s" using cache_draw(2) [of R s] by simp
  let ?conv = "from_welcome now (wv_payload v) t"
  obtain rs s3 where sv: "save_conv R ?conv s2 = (rs, s3)" by (rule prod.exhaust)
  have dw: "dispatch_welcome R env gid (i_hex R gid) s = (Inr d, s')"
    using assms(1,2,6) by (auto simp: dispatch_inbound_with_outbox_def is_welcome_def split: prod.splits)
  have i: "install_or_rekey_conversation R env (wv_payload v) (wv_sender_agent_hex v) (i_hex R gid) t s =
      (case rs of Inl e \<Rightarrow> (Inl e, s3)
       | Inr _ \<Rightarrow> (Inr (if t = TrustPending then WelcomedPending ?conv else Welcomed ?conv), s3))"
    using rg_get_unknown [OF assms(4,5)] n sv by (simp add: install_or_rekey_conversation_def Let_def split: sum.split)
  have rs: "rs = Inr ()"
    using dw assms(3) i by (cases rs) (simp_all add: dispatch_welcome_def Let_def t_def)
  have "s' = s3 \<or> (\<exists>k. write_card R k s3 = (Inr (), s'))"
  proof (cases ?known)
    case True
    then have "install_or_rekey_conversation R env (wv_payload v) (wv_sender_agent_hex v) (i_hex R gid) Confirmed s
      = (Inr (Welcomed ?conv), s3)" using i rs by (simp add: t_def)
    then show ?thesis using dw assms(3) True by (auto simp: dispatch_welcome_def Let_def)
  next
    case False
    then have "install_or_rekey_conversation R env (wv_payload v) (wv_sender_agent_hex v) (i_hex R gid) TrustPending s
      = (Inr (WelcomedPending ?conv), s3)" using i rs by (simp add: t_def)
    then show ?thesis using dw assms(3) False
      by (auto simp: dispatch_welcome_def Let_def split: prod.splits sum.splits)
  qed
  with that c2 sv rs show thesis by blast
qed

lemma foreign_install:
  assumes "e_group_id env = Some gid" and "is_welcome env"
    and "decrypt_and_verify_welcome R env gid = Inr (Inr v)"
    and "hm_get (rg_by_group_id s) (i_hex R gid) = None" and "rg_files s (conv_path R (i_hex R gid)) = None"
    and "dispatch_inbound_with_outbox R env (s, ol) = (Inr d, s', ol')"
  shows "\<exists>now t. rg_by_group_id s' =
    hm_insert (w_group_id_hex (wv_payload v)) (from_welcome now (wv_payload v) t) (rg_by_group_id s)"
proof -
  from assms obtain now t s2 s3 where c2: "rg_by_group_id s2 = rg_by_group_id s"
    and sv: "save_conv R (from_welcome now (wv_payload v) t) s2 = (Inr (), s3)"
    and s': "s' = s3 \<or> (\<exists>k. write_card R k s3 = (Inr (), s'))" by (rule foreign_install_steps)
  have "rg_by_group_id s' = rg_by_group_id s3" using s' write_card_cache [of R _ s3] by (metis snd_conv)
  then show ?thesis using save_conv_cache [OF sv] c2 by auto
qed

subsection \<open>Properties\<close>


text \<open>
  (C16) A welcome replaces a conversation it is not addressed to: if the group of the envelope is
  unknown and the payload names a conversation this device has, then a dispatch that returns
  leaves under that name a conversation with the payload's key and members and an empty history.
  Neither the membership of the sender nor the epoch is compared.
\<close>

theorem foreign_welcome_replaces:
  assumes "e_group_id env = Some gid" and "is_welcome env"
    and "decrypt_and_verify_welcome R env gid = Inr (Inr v)"
    and "hm_get (rg_by_group_id s) (i_hex R gid) = None" and "rg_files s (conv_path R (i_hex R gid)) = None"
    and "hm_get (rg_by_group_id s) (w_group_id_hex (wv_payload v)) = Some c"
    and "dispatch_inbound_with_outbox R env (s, ol) = (Inr d, s', ol')"
  shows "\<exists>c'. hm_get (rg_by_group_id s') (w_group_id_hex (wv_payload v)) = Some c'
    \<and> c_current_key_b64 c' = w_current_key_b64 (wv_payload v) \<and> c_members c' = w_members (wv_payload v)
    \<and> c_history c' = []"
  using foreign_install [OF assms(1-5,7)] by (auto simp: hm_simps)

subsection \<open>Files next to the conversations\<close>

lemma save_conv_file:
  assumes "save_conv R conv s = (Inr (), s')"
  obtains bs nonce ct where "k_conv_to_vec R conv = Inr bs"
    and "encrypt (k_cipher R) (k_master R) nonce bs vault_aad = Inr ct"
    and "rg_files s' (conv_path R (c_group_id_hex conv)) =
           Some (vault_bytes (k_kdf_id R) (k_argon_salt R) nonce ct)"
proof -
  let ?g = "c_group_id_hex conv"
  obtain rp sp where p: "persist_conv R ?g conv s = (rp, sp)" by (rule prod.exhaust)
  have ok: "rp = Inr ()" and f: "rg_files s' = rg_files sp"
    using assms p by (auto simp: save_conv_def cache_simps split: sum.splits)
  obtain bs where bs: "k_conv_to_vec R conv = Inr bs"
    using p ok by (cases "k_conv_to_vec R conv") (auto simp: persist_conv_def)
  obtain E s1 where d: "draw_os R s = (E, s1)" by (rule prod.exhaust)
  obtain r fs where w: "seal_to_path (k_cipher R) E (conv_path R ?g) bs (k_master R) (k_kdf_id R)
      (k_argon_salt R) (rg_files s1) = (r, fs)" by (rule prod.exhaust)
  have "r = Inr ()" "rg_files sp = fs" using p ok bs d w by (auto simp: persist_conv_def)
  then show thesis using w seal_to_path_ok that bs f by metis
qed

text \<open>The file of a contact card and its temporary sibling are never a sealed file.\<close>

lemma contact_path_last: "\<exists>p n. contact_path L a = p @ [n @ ''.json'']"
proof -
  let ?n = "last (split_path a)"
  have "split_path (a @ ''.json'') = butlast (split_path a) @ [?n @ ''.json'']"
    by (rule split_path_append) simp
  then have "\<exists>p. path_join d (a @ ''.json'') = p @ [?n @ ''.json'']" for d
    by (auto simp: path_join_def Let_def)
  then obtain p where "path_join (l_contacts_dir L) (a @ ''.json'') = p @ [?n @ ''.json'']" by blast
  moreover have "?n @ ''.json'' \<noteq> ''..''" by (cases ?n) auto
  ultimately show ?thesis by (auto simp: contact_path_def resolve_path_snoc)
qed

lemma json_not_enc: "n @ ''.json'' \<noteq> m @ ''.enc''"
proof
  assume "n @ ''.json'' = m @ ''.enc''"
  then have "last (n @ ''.json'') = last (m @ ''.enc'')" by simp
  then show False by simp
qed

lemma tmp_not_enc:
  assumes "os_ok E"
  shows "n @ ''.tmp.'' @ hex_encode E (rng_suffix E) \<noteq> m @ ''.enc''"
proof
  let ?h = "hex_encode E (rng_suffix E)"
  assume "n @ ''.tmp.'' @ ?h = m @ ''.enc''"
  then have "rev (n @ ''.tmp.'' @ ?h) = rev (m @ ''.enc'')" by simp
  then have "takeWhile (\<lambda>c. c \<noteq> CHR ''.'') (rev ?h @ ''.pmt.'' @ rev n) = ''cne''"
    by simp
  moreover have "takeWhile (\<lambda>c. c \<noteq> CHR ''.'') (rev ?h @ ''.pmt.'' @ rev n) = rev ?h"
    using assms by (subst takeWhile_append2) (auto simp: os_ok_def)
  ultimately have "rev ?h = ''cne''" by simp
  then have "CHR ''n'' \<in> set ?h" by (metis list.set_intros set_rev insertCI list.simps(15))
  then show False using assms by (auto simp: os_ok_def)
qed

lemma write_card_keeps_enc:
  assumes "write_card R k s = (Inr (), s')" and "\<And>v. os_ok (fst (k_os R v))"
  shows "rg_files s' (q @ [m @ ''.enc'']) = rg_files s (q @ [m @ ''.enc''])"
proof -
  obtain bs where bs: "i_card_to_vec R k = Inr bs"
    using assms(1) by (cases "i_card_to_vec R k") (auto simp: write_card_def)
  obtain E s1 where d: "draw_os R s = (E, s1)" by (rule prod.exhaust)
  then have f: "rg_files s1 = rg_files s" and "os_ok E"
    using files_draw(1) [of R s] assms(2) [of "rg_world s"] by (auto simp: draw_os_def split: prod.splits)
  let ?c = "card_path R (sc_agent_id_hex k)"
  have "rg_files s' = snd (write_bytes_atomic E ?c bs (rg_files s1))"
    using assms(1) bs d by (auto simp: write_card_def split: prod.splits)
  moreover obtain p n where c: "?c = p @ [n @ ''.json'']"
    using contact_path_last unfolding card_path_def by blast
  then have "q @ [m @ ''.enc''] \<noteq> ?c" using json_not_enc [of n m] by auto
  moreover have "q @ [m @ ''.enc''] \<noteq> tmp_path E ?c"
    using tmp_not_enc [OF \<open>os_ok E\<close>, of "n @ ''.json''" m] c
    by (auto simp: tmp_path_def with_file_name_def file_name_def)
  ultimately show ?thesis using f write_bytes_atomic_other by metis
qed

text \<open>The id names a file outside the directory of the conversations.\<close>

lemma escaping_path:
  assumes "''..'' \<notin> set root"
  shows "conversation_path (layout_at root) ''../identity'' = root @ [''identity.json.enc'']"
proof -
  have "foldl (\<lambda>acc c. if c = ''..'' then tl acc else c # acc) acc root = rev root @ acc" for acc
    using assms by (induction root arbitrary: acc) auto
  then show ?thesis by (simp add: conversation_path_def layout_at_def path_join_def resolve_path_def)
qed

text \<open>
  (C9) A welcome can overwrite the identity of the device: with the group id
  \<^verbatim>\<open>../identity\<close> in its payload and an unknown group in its envelope, a dispatch that returns
  leaves in \<^verbatim>\<open>identity.json.enc\<close> of the data directory the sealed conversation of the welcome.
\<close>

theorem welcome_overwrites_identity:
  assumes "k_layout R = layout_at root" and "''..'' \<notin> set root" and "\<And>v. os_ok (fst (k_os R v))"
    and "e_group_id env = Some gid" and "is_welcome env"
    and "decrypt_and_verify_welcome R env gid = Inr (Inr v)"
    and "w_group_id_hex (wv_payload v) = ''../identity''"
    and "hm_get (rg_by_group_id s) (i_hex R gid) = None" and "rg_files s (conv_path R (i_hex R gid)) = None"
    and "dispatch_inbound_with_outbox R env (s, ol) = (Inr d, s', ol')"
  shows "\<exists>now t bs nonce ct. k_conv_to_vec R (from_welcome now (wv_payload v) t) = Inr bs
    \<and> encrypt (k_cipher R) (k_master R) nonce bs vault_aad = Inr ct
    \<and> rg_files s' (root @ [''identity.json.enc'']) = Some (vault_bytes (k_kdf_id R) (k_argon_salt R) nonce ct)"
proof -
  from assms(4-6,8-10) obtain now t s2 s3 where
    sv: "save_conv R (from_welcome now (wv_payload v) t) s2 = (Inr (), s3)"
    and s': "s' = s3 \<or> (\<exists>k. write_card R k s3 = (Inr (), s'))" by (rule foreign_install_steps)
  from sv obtain bs nonce ct where b: "k_conv_to_vec R (from_welcome now (wv_payload v) t) = Inr bs"
    "encrypt (k_cipher R) (k_master R) nonce bs vault_aad = Inr ct"
    and f: "rg_files s3 (conv_path R (c_group_id_hex (from_welcome now (wv_payload v) t))) =
      Some (vault_bytes (k_kdf_id R) (k_argon_salt R) nonce ct)" by (rule save_conv_file)
  have "conv_path R ''../identity'' = root @ [''identity.json.enc'']"
    using escaping_path [OF assms(2)] assms(1) by (simp add: conv_path_def)
  then have "rg_files s3 (root @ [''identity.json.enc'']) = Some (vault_bytes (k_kdf_id R) (k_argon_salt R) nonce ct)"
    using f assms(7) by simp
  moreover have "rg_files s' (root @ [''identity.json.enc'']) = rg_files s3 (root @ [''identity.json.enc''])"
    using s' write_card_keeps_enc [OF _ assms(3), of _ s3 s' root "''identity.json''"] by auto
  ultimately show ?thesis using b by metis
qed

subsection \<open>A lookup and a second pump\<close>

text \<open>What a sealed file opens to does not depend on the moment it is read.\<close>

lemma open_conv_stable:
  assumes "open_conv R p s = (Inr c, s1)" and "open_conv R p s2 = (Inr c2, s3)" and "rg_files s2 p = rg_files s p"
  shows "c2 = c"
proof -
  obtain E t where d: "draw_os R s = (E, t)" by (rule prod.exhaust)
  obtain E2 t2 where d2: "draw_os R s2 = (E2, t2)" by (rule prod.exhaust)
  have f: "rg_files t = rg_files s" "rg_files t2 = rg_files s2"
    using files_draw(1) [of R s] files_draw(1) [of R s2] d d2 by simp_all
  obtain bs where o: "open_from_path (k_cipher R) E p (k_master R) (rg_files s) = Inr bs"
    and c: "k_conv_from_slice R bs = Inr c"
    using assms(1) d f by (auto simp: open_conv_def split: sum.splits)
  obtain bs2 where o2: "open_from_path (k_cipher R) E2 p (k_master R) (rg_files s2) = Inr bs2"
    and c2: "k_conv_from_slice R bs2 = Inr c2"
    using assms(2) d2 f by (auto simp: open_conv_def split: sum.splits)
  have "read_file E p (rg_files s) = read_file E2 p (rg_files s2)"
    using o o2 assms(3) by (auto simp: open_from_path_def read_file_def split: option.splits)
  then have "bs2 = bs" using o o2 by (simp add: open_from_path_def split: sum.splits if_splits)
  then show ?thesis using c c2 by simp
qed

text \<open>
  (C17) The lookup of a conversation that is not cached undoes a nonce check that runs between its
  two locks: one pump has read the file, another pump records a nonce, and when the first
  inserts what it read the cache holds the old conversation again, so that the nonce check of the
  same nonce does not report a replay.
\<close>

theorem cold_lookup_readmits:
  assumes "get_begin R g s = (Inr (Read c), s1)" and "record_nonce R g a n s1 = (Inr Recorded, s2)"
  shows "hm_get (rg_by_group_id (snd (get_finish g (Read c) s2))) g = Some c
    \<and> fst (record_nonce R g a n (snd (get_finish g (Read c) s2))) \<noteq> Inr Replay"
proof -
  let ?p = "conv_path R g"
  have cold: "hm_get (rg_by_group_id s) g = None" and fl: "rg_files s ?p \<noteq> None"
    using assms(1) by (auto simp: get_begin_def split: option.splits if_splits)
  obtain so where o: "open_conv R ?p s = (Inr c, so)" and s1: "s1 = refresh_pubkey_cache R c so"
    using assms(1) cold fl by (auto simp: get_begin_def split: prod.splits sum.splits)
  have f1: "rg_files s1 = rg_files s" "rg_by_group_id s1 = rg_by_group_id s"
    using s1 o open_conv_fields [of R ?p s] by (simp_all add: cache_simps)
  obtain rh sh where hy: "hydrate R (Inl (Invalid (''record_nonce: no conversation for group_id '' @ g))) g s1 = (rh, sh)"
    by (rule prod.exhaust)
  obtain ro so2 where o2: "open_conv R ?p s1 = (ro, so2)" by (rule prod.exhaust)
  have "rh = Inr ()" using assms(2) hy by (cases rh) (auto simp: record_nonce_def)
  then obtain c2 where c2: "ro = Inr c2" "sh = cache_put g c2 (refresh_pubkey_cache R c2 so2)"
    using hy o2 cold fl f1 by (auto simp: hydrate_def hm_contains_iff split: sum.splits)
  have "c2 = c" using open_conv_stable [OF o] o2 c2(1) f1 by auto
  then have "n \<notin> set (window_of a c)"
    using assms(2) hy \<open>rh = Inr ()\<close> c2(2) by (auto simp: record_nonce_def check_nonce_eq cache_simps hm_simps)
  then show ?thesis
    by (auto simp: get_finish_def record_nonce_def hydrate_def hm_contains_iff check_nonce_eq cache_simps hm_simps
        split: prod.splits sum.splits)
qed

subsection \<open>Concrete runs\<close>

definition demo_member_reg :: "nat reg" where
  "demo_member_reg = demo_reg\<lparr> rg_by_group_id := [(''g'', demo_conv ''g'' (demo_hex demo_agent))] \<rparr>"

definition demo_key_welcome :: "string \<Rightarrow> transit_envelope" where
  "demo_key_welcome g = demo_envelope (ascii g) demo_agent [1] 9 1"

lemma demo_rekey:
  "(case hm_get (rg_by_group_id (fst (snd (dispatch_inbound_with_outbox (demo_env 99 (demo_welcome ''g''))
          (demo_key_welcome ''g'') (demo_member_reg, demo_link))))) ''g'' of
      None \<Rightarrow> False | Some c' \<Rightarrow> key_state c' \<noteq> key_state (demo_conv ''g'' (demo_hex demo_agent)))"
  by code_simp


text \<open>A stranger replaces the conversation \<^verbatim>\<open>g\<close>, and the identity, through the unknown group \<^verbatim>\<open>h\<close>.\<close>

lemma demo_foreign:
  assumes "g \<in> {''g'', ''../identity''}"
  obtains v d s' ol' where "wv_payload v = demo_welcome g"
    and "decrypt_and_verify_welcome (demo_env 99 (demo_welcome g)) (demo_key_welcome ''h'') (ascii ''h'') = Inr (Inr v)"
    and "dispatch_inbound_with_outbox (demo_env 99 (demo_welcome g)) (demo_key_welcome ''h'') (demo_reg, demo_link)
           = (Inr d, s', ol')"
proof -
  have "list_all (\<lambda>g. (case fst (dispatch_inbound_with_outbox (demo_env 99 (demo_welcome g)) (demo_key_welcome ''h'')
              (demo_reg, demo_link)) of Inl _ \<Rightarrow> False | Inr _ \<Rightarrow> True)
     \<and> (case decrypt_and_verify_welcome (demo_env 99 (demo_welcome g)) (demo_key_welcome ''h'') (ascii ''h'') of
         Inr (Inr v) \<Rightarrow> wv_payload v = demo_welcome g | _ \<Rightarrow> False)) [''g'', ''../identity'']"
    by code_simp
  then have "(case fst (dispatch_inbound_with_outbox (demo_env 99 (demo_welcome g)) (demo_key_welcome ''h'')
              (demo_reg, demo_link)) of Inl _ \<Rightarrow> False | Inr _ \<Rightarrow> True)"
    and "(case decrypt_and_verify_welcome (demo_env 99 (demo_welcome g)) (demo_key_welcome ''h'') (ascii ''h'') of
         Inr (Inr v) \<Rightarrow> wv_payload v = demo_welcome g | _ \<Rightarrow> False)"
    using assms by auto
  then show thesis using that by (auto split: sum.splits) (metis prod.collapse)
qed

lemma demo_h_unknown:
  "i_hex (demo_env 99 w) (ascii ''h'') = ''h''" "e_group_id (demo_key_welcome ''h'') = Some (ascii ''h'')"
  "is_welcome (demo_key_welcome ''h'')" "hm_get (rg_by_group_id demo_reg) ''h'' = None"
  "rg_files demo_reg (conv_path (demo_env 99 w) ''h'') = None"
  by code_simp+

theorem foreign_welcome_replaces_witness:
  "\<not> list_ex (\<lambda>d. md_agent_id_hex d = demo_hex demo_agent) (conv_devices (demo_conv ''g'' ''a''))
   \<and> (\<exists>c'. hm_get (rg_by_group_id (fst (snd (dispatch_inbound_with_outbox (demo_env 99 (demo_welcome ''g''))
          (demo_key_welcome ''h'') (demo_reg, demo_link))))) ''g'' = Some c'
        \<and> c_members c' = w_members (demo_welcome ''g''))"
proof
  show "\<not> list_ex (\<lambda>d. md_agent_id_hex d = demo_hex demo_agent) (conv_devices (demo_conv ''g'' ''a''))" by code_simp
  have "''g'' \<in> {''g'', ''../identity''}" by simp
  then obtain v d s' ol' where v: "wv_payload v = demo_welcome ''g''"
    "decrypt_and_verify_welcome (demo_env 99 (demo_welcome ''g'')) (demo_key_welcome ''h'') (ascii ''h'') = Inr (Inr v)"
    "dispatch_inbound_with_outbox (demo_env 99 (demo_welcome ''g'')) (demo_key_welcome ''h'') (demo_reg, demo_link)
           = (Inr d, s', ol')" by (rule demo_foreign)
  have "hm_get (rg_by_group_id demo_reg) (w_group_id_hex (wv_payload v)) = Some (demo_conv ''g'' ''a'')"
    by (simp add: v demo_welcome_def demo_reg_def hm_get_def)
  from foreign_welcome_replaces [OF demo_h_unknown(2,3) v(2) _ _ this v(3)] v
  show "\<exists>c'. hm_get (rg_by_group_id (fst (snd (dispatch_inbound_with_outbox (demo_env 99 (demo_welcome ''g''))
          (demo_key_welcome ''h'') (demo_reg, demo_link))))) ''g'' = Some c' \<and> c_members c' = w_members (demo_welcome ''g'')"
    by (auto simp: demo_h_unknown demo_welcome_def)
qed

lemma demo_os_ok: "os_ok (fst (k_os (demo_env 99 w) v))"
  by (simp add: demo_env_def demo_os_def os_ok_def)

theorem welcome_overwrites_identity_witness:
  "rg_files demo_reg [''d'', ''identity.json.enc''] = Some [9]
   \<and> rg_files (fst (snd (dispatch_inbound_with_outbox (demo_env 99 (demo_welcome ''../identity''))
          (demo_key_welcome ''h'') (demo_reg, demo_link)))) [''d'', ''identity.json.enc''] \<noteq> Some [9]"
proof
  let ?R = "demo_env 99 (demo_welcome ''../identity'')"
  show "rg_files demo_reg [''d'', ''identity.json.enc''] = Some [9]" by code_simp
  have "''../identity'' \<in> {''g'', ''../identity''}" by simp
  then obtain v d s' ol' where v: "wv_payload v = demo_welcome ''../identity''"
    "decrypt_and_verify_welcome ?R (demo_key_welcome ''h'') (ascii ''h'') = Inr (Inr v)"
    "dispatch_inbound_with_outbox ?R (demo_key_welcome ''h'') (demo_reg, demo_link) = (Inr d, s', ol')"
    by (rule demo_foreign)
  have l: "k_layout ?R = layout_at [''d'']" by (simp add: demo_env_def)
  have r: "''..'' \<notin> set [''d'']" by simp
  have g: "w_group_id_hex (wv_payload v) = ''../identity''" by (simp add: v(1) demo_welcome_def)
  have u: "hm_get (rg_by_group_id demo_reg) (i_hex ?R (ascii ''h'')) = None"
    "rg_files demo_reg (conv_path ?R (i_hex ?R (ascii ''h''))) = None" by (simp_all add: demo_h_unknown)
  obtain nonce ct where "rg_files s' ([''d''] @ [''identity.json.enc'']) =
      Some (vault_bytes (k_kdf_id ?R) (k_argon_salt ?R) nonce ct)"
    using welcome_overwrites_identity [OF l r demo_os_ok demo_h_unknown(2,3) v(2) g u v(3)] by blast
  moreover have "vault_bytes k sa nonce ct \<noteq> [9]" for k sa
    by (simp add: vault_bytes_def vault_magic_def ascii_def)
  ultimately show "rg_files (fst (snd (dispatch_inbound_with_outbox ?R (demo_key_welcome ''h'')
      (demo_reg, demo_link)))) [''d'', ''identity.json.enc''] \<noteq> Some [9]" using v(3) by simp
qed

definition demo_cold_reg :: "nat reg" where
  "demo_cold_reg = \<lparr> rg_by_group_id = [], rg_peer_pubkeys = [],
     rg_files = (\<lambda>p. if p = [''d'', ''conversations'', ''g.json.enc'']
                       then Some (vault_bytes 0 None (replicate 12 0) []) else None), rg_world = 0 \<rparr>"

theorem cold_lookup_readmits_witness:
  "\<exists>c s1 s2. get_begin (demo_env 99 (demo_welcome [])) ''g'' demo_cold_reg = (Inr (Read c), s1)
    \<and> record_nonce (demo_env 99 (demo_welcome [])) ''g'' ''a'' [1] s1 = (Inr Recorded, s2)
    \<and> fst (record_nonce (demo_env 99 (demo_welcome [])) ''g'' ''a'' [1] (snd (get_finish ''g'' (Read c) s2))) \<noteq> Inr Replay"
proof -
  let ?R = "demo_env 99 (demo_welcome [])"
  have "(case get_begin ?R ''g'' demo_cold_reg of (Inr (Read c), s1) \<Rightarrow>
           (case record_nonce ?R ''g'' ''a'' [1] s1 of (Inr Recorded, s2) \<Rightarrow> True | _ \<Rightarrow> False) | _ \<Rightarrow> False)"
    by code_simp
  then obtain c s1 s2 where "get_begin ?R ''g'' demo_cold_reg = (Inr (Read c), s1)"
    and "record_nonce ?R ''g'' ''a'' [1] s1 = (Inr Recorded, s2)"
    by (auto split: prod.splits sum.splits get_progress.splits nonce_check_outcome.splits)
  then show ?thesis using cold_lookup_readmits by blast
qed

end
