(* ===== verification/Spec2Isabelle.thy ===== *)
theory Spec2Isabelle
  imports Outbox_Driver_Properties Transcript_Overlay Seq_Gap
    Relay_Connections Durable_Join_Properties Welcome_Properties
begin

text \<open>
  \<^bold>\<open>fetch>it: a verification development.\<close> The repository holds an end-to-end encrypted messenger:
  a chat library (\<^verbatim>\<open>crates/fetchit-chat\<close>) that the desktop and mobile applications and a
  command-line peer embed, a store-and-forward relay (\<^verbatim>\<open>crates/fetchit-relay-server\<close>) with its
  wire vocabulary (\<^verbatim>\<open>crates/fetchit-relay-proto\<close>) and client (\<^verbatim>\<open>crates/fetchit-relay-client\<close>),
  and around them a daemon client, a fediverse bridge and content handlers. This development
  models the chat library's durable state and the relay, and proves what the two promise: a
  message that was written is sent until it is confirmed, its displayed state is honest, what the
  relay acknowledged it holds, a group finds its way back to its keys, and an inbound frame is
  surfaced only when its sender signed it.

  \<^bold>\<open>Conventions.\<close> A struct is a record, an enum a datatype, a handler one definition with its
  guards in the order of the source. A HashMap is an association list with distinct keys
  (\<open>hm_get\<close>, \<open>hm_insert\<close>, ... of \<open>Fetchit_Prelude\<close>), whose order is the order in which the source
  iterates and on which no property depends; a BTreeMap is a sorted one (\<open>Ordered_Map\<close>). Counters
  and sizes are natural numbers with saturation and wrap-around written out where the source
  saturates or can wrap. A fallible function returns \<open>Inl\<close> error or \<open>Inr\<close> value. Code outside the
  repository (ciphers, hashes, signatures, JSON, base64, hex, URL parsing, the daemon, the
  operating system, the clock, sockets) is a parameter, usually a field of an environment record;
  where a property needs a law of it, the law is a hypothesis (a cipher decrypts what it
  encrypted, a codec parses what it printed) and a witness instantiates it. Awaited calls to the
  outside thread a world of arbitrary type, so that every answer and every fault is covered.

  \<^bold>\<open>The chat library.\<close>
  \<^item> \<open>Send_State\<close>, \<open>Attachment\<close>, \<open>At_Rest\<close>: the states of a send (\<^verbatim>\<open>send_state.rs\<close>) and the chat
    errors (\<^verbatim>\<open>error.rs\<close>), inline images (\<^verbatim>\<open>attachment.rs\<close>), the sealed vault files
    (\<^verbatim>\<open>at_rest.rs\<close>, \<^verbatim>\<open>local_store.rs\<close>) over a file system in which every step may fail.
  \<^item> \<open>Outbox_Bubble\<close>, \<open>Outbox_Store\<close>, \<open>Outbox_Invariant\<close>, \<open>Outbox_Properties\<close>: the durable outbox
    (\<^verbatim>\<open>outbox/mod.rs\<close>, \<^verbatim>\<open>outbox/store.rs\<close>). State: the bubble map, the in-flight claims and the
    vault. Lemmas: the life of a message under any interleaving of operations, what causes each
    change of status, agreement of vault and map, bounds of the maps, receipts and re-sends.
  \<^item> \<open>Outbox_Driver\<close>, \<open>Outbox_Driver_Properties\<close>: the retry driver and the run loop
    (\<^verbatim>\<open>outbox/driver.rs\<close>, \<^verbatim>\<open>client.rs\<close>) and the transport router (\<^verbatim>\<open>transport/mod.rs\<close>): what a
    flush sends, that due and stalled bubbles are reached, and two schedules in which they are not.
  \<^item> \<open>Transcript_Overlay\<close>, \<open>Seq_Gap\<close>: the displayed transcript (\<^verbatim>\<open>outbox/overlay.rs\<close>) and the
    detection of missed group messages (\<^verbatim>\<open>conversation/seq_gap.rs\<close>).
  \<^item> \<open>Epoch_Recovery\<close>, \<open>Group_Log_Client\<close>, \<open>Group_Recovery\<close>, \<open>Group_Recovery_Properties\<close>: recovery of
    a group from the relay's log (\<^verbatim>\<open>groups/epoch_recovery/\<close>, \<^verbatim>\<open>groups/group_log.rs\<close>,
    \<^verbatim>\<open>client.rs\<close>): the apply loop, the passes of the driver, the wedge watchdog; that the reported
    status is true, that records are applied once and in order, and when recovery cannot proceed.
  \<^item> \<open>Pending_Join\<close>, \<open>Pending_Join_Properties\<close>, \<open>Durable_Join\<close>, \<open>Durable_Join_Properties\<close>: joining a
    group durably (\<^verbatim>\<open>groups/pending_join.rs\<close>, \<^verbatim>\<open>groups/pending_join_driver.rs\<close>,
    \<^verbatim>\<open>groups/convergence.rs\<close>, \<^verbatim>\<open>groups/join_bridge.rs\<close>, \<^verbatim>\<open>client.rs\<close>): a stored join survives any
    faults, an invite is posted once, and recovery keeps the joins of the device.
  \<^item> \<open>Conversation\<close>, \<open>Conversation_Registry\<close>, \<open>Inbound\<close>, \<open>Conversation_Laws\<close>, \<open>Inbound_Properties\<close>,
    \<open>Inbound_Safety\<close>, \<open>Welcome_Properties\<close>: conversations, their registry over sealed files and
    the dispatch of inbound envelopes (\<^verbatim>\<open>conversation/types.rs\<close>, \<^verbatim>\<open>conversation/registry.rs\<close>, \<^verbatim>\<open>conversation/inbound.rs\<close>, the stored
    contact card of \<^verbatim>\<open>messages.rs\<close>). State: the cache by group id, the files, the outbox. Lemmas:
    the authenticity of surfaced messages, the replay window, what may change a key, and four ways
    around it: a welcome that names another conversation or a file outside the store, a lookup
    that undoes a nonce check, and a message confirmed but not written.
\<close>

text \<open>
  \<^bold>\<open>The relay.\<close>
  \<^item> \<open>Relay_Proto\<close>, \<open>Pair_Record\<close>: identifiers, envelopes, frames, signing buffers and capability
    claims (\<^verbatim>\<open>fetchit-relay-proto\<close>), and the signed pairing records with their verification.
  \<^item> \<open>Relay_Transit\<close>, \<open>Relay_Group_Log\<close>, \<open>Relay_Rate_Limit\<close>, \<open>Relay_Session\<close>, \<open>Relay_Index\<close>,
    \<open>Relay_Metrics\<close>, \<open>Relay_Auth\<close>: the stores of the server (\<^verbatim>\<open>transit.rs\<close>, \<^verbatim>\<open>group_log.rs\<close>,
    \<^verbatim>\<open>ratelimit.rs\<close>, \<^verbatim>\<open>session.rs\<close>, \<^verbatim>\<open>pair_record.rs\<close>, \<^verbatim>\<open>forwarding.rs\<close>, \<^verbatim>\<open>profile.rs\<close>,
    \<^verbatim>\<open>blob.rs\<close>, \<^verbatim>\<open>metrics.rs\<close>, \<^verbatim>\<open>auth.rs\<close>, \<^verbatim>\<open>capability.rs\<close>), one record each, with the exactness
    of their byte counters, their bounds, and what an index may serve or a bearer prove.
  \<^item> \<open>Relay_Server\<close>, \<open>Relay_Deposit\<close>, \<open>Relay_Log_Fetch\<close>, \<open>Relay_World\<close>, \<open>Relay_World_Properties\<close>,
    \<open>Relay_Connections\<close>, \<open>Relay_Demo\<close>: the WebSocket handlers and the sweeper over the shared state
    (\<^verbatim>\<open>ws.rs\<close>, \<^verbatim>\<open>server.rs\<close>), runs of events over all connections, and their invariants: an
    acknowledged deposit is kept until it is fetched or expires, deliveries go to the addressee,
    the metrics account for the traffic. \<open>Relay_Demo\<close> holds the concrete runs of the witnesses.

  \<^bold>\<open>Interfaces.\<close> Locales carry the contracts between the parts and are interpreted on the model:
  the map and invariant-run contracts of \<open>Fetchit_Prelude\<close> on the outbox, the indexes and the
  relay, and \<open>frame_inv\<close> with its extension \<open>conv_inv\<close>, the contract between the operations of the
  registry and a predicate on a conversation, on the replay window, the history and the key state.

  \<^bold>\<open>Fuel.\<close> Loops of the source that end by themselves are structural recursions or have a measure.
  The recovery driver bounds its passes by the source's own constant (64), which is the model's
  bound. The poll of the membership wait recurses on a fuel that the deadline implies: it is
  proved that enough fuel ends the wait.

  \<^bold>\<open>Not modelled.\<close> The parts that only move bytes between third-party code: sockets, HTTP clients
  and servers, reconnect timers, mDNS and Noise (\<^verbatim>\<open>relay_transport.rs\<close>, \<^verbatim>\<open>multi_home.rs\<close>,
  \<^verbatim>\<open>lan_*.rs\<close>, \<^verbatim>\<open>fetchit-relay-client\<close>), the fediverse crates, the trust list, the content
  handlers, the SQL backends of the stores whose in-memory versions are modelled, the key
  derivations and keychain of the vault, generated bindings and user interfaces. Of
  \<^verbatim>\<open>client.rs\<close> and \<^verbatim>\<open>messages.rs\<close> the state-changing paths named above are modelled; building and
  sealing outbound envelopes is a sequence of calls into cryptographic crates and is left out.
  Poisoned locks, file modes and log output are not modelled. Tasks interleave at the awaits
  where two operations can touch one state: in the outbox, in the relay and in the lookup of the
  registry; elsewhere a handler runs to its end.
\<close>

end
